(* ===== verification/Prelude.thy ===== *)
theory Prelude
  imports Main "HOL-Library.Signed_Division"
begin

text \<open>
  The vocabulary every component shares: the outcome of a Rust function that runs on a
  mutable environment (\<open>Ok\<close>, \<open>Err\<close> or a trap), the sequencing combinators that mirror the
  \<open>?\<close> operator and early returns, the checked integer operations of a build with
  \<open>overflow-checks = true\<close>, and the lemma collections the component proofs run on.
\<close>

section \<open>Outcomes and sequencing\<close>

text \<open>
  A function \<open>fn f(env: &Env, ...) -> Result<T, Error>\<close> becomes a program: it takes the
  contract state and ends with a value and a state, with an error and the state reached so
  far (a caller that inspects the error with \<open>is_ok()\<close> keeps that state), or with a trap.
\<close>

datatype ('e, 'a, 's) outcome = Ok 'a 's | Err 'e 's | Panic

type_synonym ('e, 'a, 's) prog = "'s \<Rightarrow> ('e, 'a, 's) outcome"

named_theorems run_simps \<open>one-step evaluation of the primitive programs\<close>
named_theorems ok_simps \<open>what a successful run of a program says about its states\<close>
named_theorems err_simps \<open>what an erroneous run of a program says\<close>
named_theorems keeps_intros \<open>rules for programs that keep a state predicate\<close>

definition ret :: "'a \<Rightarrow> ('e, 'a, 's) prog" where
  "ret x = (\<lambda>s. Ok x s)"

definition throw :: "'e \<Rightarrow> ('e, 'a, 's) prog" where
  "throw e = (\<lambda>s. Err e s)"

definition panic :: "('e, 'a, 's) prog" where
  "panic = (\<lambda>s. Panic)"

definition and_then :: "('e, 'a, 's) prog \<Rightarrow> ('a \<Rightarrow> ('e, 'b, 's) prog) \<Rightarrow> ('e, 'b, 's) prog" where
  "and_then m f = (\<lambda>s. case m s of Ok x t \<Rightarrow> f x t | Err e t \<Rightarrow> Err e t | Panic \<Rightarrow> Panic)"

definition seq :: "('e, unit, 's) prog \<Rightarrow> ('e, 'b, 's) prog \<Rightarrow> ('e, 'b, 's) prog" where
  "seq m k = and_then m (\<lambda>_. k)"

definition reads :: "('s \<Rightarrow> 'a) \<Rightarrow> ('e, 'a, 's) prog" where
  "reads f = (\<lambda>s. Ok (f s) s)"

definition modify :: "('s \<Rightarrow> 's) \<Rightarrow> ('e, unit, 's) prog" where
  "modify g = (\<lambda>s. Ok () (g s))"

text \<open>\<open>if c { return Err(e) }\<close>, \<open>opt.unwrap()\<close> and \<open>opt.ok_or(e)?\<close>.\<close>

definition reject_if :: "bool \<Rightarrow> 'e \<Rightarrow> ('e, unit, 's) prog" where
  "reject_if c e = (if c then throw e else ret ())"

definition unwrap :: "'a option \<Rightarrow> ('e, 'a, 's) prog" where
  "unwrap v = (case v of None \<Rightarrow> panic | Some x \<Rightarrow> ret x)"

definition ok_or :: "'a option \<Rightarrow> 'e \<Rightarrow> ('e, 'a, 's) prog" where
  "ok_or v e = (case v of None \<Rightarrow> throw e | Some x \<Rightarrow> ret x)"

definition unwrap_or :: "'a option \<Rightarrow> 'a \<Rightarrow> 'a" where
  "unwrap_or v d = (case v of None \<Rightarrow> d | Some x \<Rightarrow> x)"

text \<open>\<open>f(env).is_ok()\<close>: the error is inspected, and what was written stays written.\<close>

definition is_ok :: "('e, 'a, 's) prog \<Rightarrow> ('e, bool, 's) prog" where
  "is_ok m = (\<lambda>s. case m s of Ok x t \<Rightarrow> Ok True t | Err e t \<Rightarrow> Ok False t | Panic \<Rightarrow> Panic)"

text \<open>\<open>assert!(c)\<close>, a \<open>for\<close> loop, and a \<open>for\<close> loop that updates a local variable.\<close>

definition assert_that :: "bool \<Rightarrow> ('e, unit, 's) prog" where
  "assert_that c = (if c then ret () else panic)"

primrec for_each :: "'x list \<Rightarrow> ('x \<Rightarrow> ('e, unit, 's) prog) \<Rightarrow> ('e, unit, 's) prog" where
  "for_each [] body = ret ()"
| "for_each (x # xs) body = seq (body x) (for_each xs body)"

primrec fold_prog :: "('x \<Rightarrow> 'a \<Rightarrow> ('e, 'a, 's) prog) \<Rightarrow> 'x list \<Rightarrow> 'a \<Rightarrow> ('e, 'a, 's) prog" where
  "fold_prog body [] acc = ret acc"
| "fold_prog body (x # xs) acc = and_then (body x acc) (fold_prog body xs)"

definition when_do :: "bool \<Rightarrow> ('e, unit, 's) prog \<Rightarrow> ('e, unit, 's) prog" where
  "when_do c m = (if c then m else ret ())"

subsection \<open>Evaluation\<close>

lemma run_ret [run_simps]: "ret x s = Ok x s"
  by (simp add: ret_def)

lemma run_throw [run_simps]: "throw e s = Err e s"
  by (simp add: throw_def)

lemma run_panic [run_simps]: "panic s = Panic"
  by (simp add: panic_def)

lemma run_and_then [run_simps]:
  "and_then m f s = (case m s of Ok x t \<Rightarrow> f x t | Err e t \<Rightarrow> Err e t | Panic \<Rightarrow> Panic)"
  by (simp add: and_then_def)

lemma run_seq [run_simps]:
  "seq m k s = (case m s of Ok x t \<Rightarrow> k t | Err e t \<Rightarrow> Err e t | Panic \<Rightarrow> Panic)"
  by (simp add: seq_def and_then_def)

lemma run_reads [run_simps]: "reads f s = Ok (f s) s"
  by (simp add: reads_def)

lemma run_modify [run_simps]: "modify g s = Ok () (g s)"
  by (simp add: modify_def)

lemma run_reject_if [run_simps]: "reject_if c e s = (if c then Err e s else Ok () s)"
  by (simp add: reject_if_def run_throw run_ret)

lemma run_unwrap [run_simps]: "unwrap v s = (case v of None \<Rightarrow> Panic | Some x \<Rightarrow> Ok x s)"
  by (cases v) (simp_all add: unwrap_def run_panic run_ret)

lemma run_ok_or [run_simps]: "ok_or v e s = (case v of None \<Rightarrow> Err e s | Some x \<Rightarrow> Ok x s)"
  by (cases v) (simp_all add: ok_or_def run_throw run_ret)

lemma run_is_ok [run_simps]:
  "is_ok m s = (case m s of Ok x t \<Rightarrow> Ok True t | Err e t \<Rightarrow> Ok False t | Panic \<Rightarrow> Panic)"
  by (simp add: is_ok_def)

lemma run_assert_that [run_simps]: "assert_that c s = (if c then Ok () s else Panic)"
  by (simp add: assert_that_def run_ret run_panic)

lemma run_when_do [run_simps]: "when_do c m s = (if c then m s else Ok () s)"
  by (simp add: when_do_def run_ret)

lemma unwrap_or_simps [simp]: "unwrap_or None d = d" "unwrap_or (Some x) d = x"
  by (simp_all add: unwrap_or_def)

subsection \<open>Successful and erroneous runs\<close>

lemma ok_ret [ok_simps]: "ret x s = Ok y t \<longleftrightarrow> y = x \<and> t = s"
  by (auto simp: run_simps)

lemma ok_throw [ok_simps]: "throw e s = Ok y t \<longleftrightarrow> False"
  by (simp add: run_simps)

lemma ok_panic [ok_simps]: "panic s = Ok y t \<longleftrightarrow> False"
  by (simp add: run_simps)

lemma ok_and_then [ok_simps]:
  "and_then m f s = Ok y t \<longleftrightarrow> (\<exists>x u. m s = Ok x u \<and> f x u = Ok y t)"
  by (auto simp: run_simps split: outcome.splits)

lemma ok_seq [ok_simps]: "seq m k s = Ok y t \<longleftrightarrow> (\<exists>u. m s = Ok () u \<and> k u = Ok y t)"
  by (auto simp: run_simps split: outcome.splits)

lemma ok_reads [ok_simps]: "reads f s = Ok y t \<longleftrightarrow> y = f s \<and> t = s"
  by (auto simp: run_simps)

lemma ok_modify [ok_simps]: "modify g s = Ok y t \<longleftrightarrow> t = g s"
  by (auto simp: run_simps)

lemma ok_reject_if [ok_simps]: "reject_if c e s = Ok y t \<longleftrightarrow> \<not> c \<and> t = s"
  by (auto simp: run_simps)

lemma ok_unwrap [ok_simps]: "unwrap v s = Ok y t \<longleftrightarrow> v = Some y \<and> t = s"
  by (auto simp: run_simps split: option.splits)

lemma ok_ok_or [ok_simps]: "ok_or v e s = Ok y t \<longleftrightarrow> v = Some y \<and> t = s"
  by (auto simp: run_simps split: option.splits)

lemma ok_is_ok [ok_simps]:
  "is_ok m s = Ok b t \<longleftrightarrow> (b \<and> (\<exists>x. m s = Ok x t)) \<or> (\<not> b \<and> (\<exists>e. m s = Err e t))"
  by (auto simp: run_simps split: outcome.splits)

lemma ok_assert_that [ok_simps]: "assert_that c s = Ok y t \<longleftrightarrow> c \<and> t = s"
  by (auto simp: run_simps)

lemma ok_when_do [ok_simps]:
  "when_do c m s = Ok y t \<longleftrightarrow> (if c then m s = Ok () t else t = s)"
  by (auto simp: run_simps)

lemma err_and_then [err_simps]:
  "and_then m f s = Err e t \<longleftrightarrow> m s = Err e t \<or> (\<exists>x u. m s = Ok x u \<and> f x u = Err e t)"
  by (auto simp: run_simps split: outcome.splits)

lemma err_seq [err_simps]:
  "seq m k s = Err e t \<longleftrightarrow> m s = Err e t \<or> (\<exists>u. m s = Ok () u \<and> k u = Err e t)"
  by (auto simp: run_simps split: outcome.splits)

lemma err_prims [err_simps]:
  "ret x s = Err e t \<longleftrightarrow> False"
  "throw e' s = Err e t \<longleftrightarrow> e = e' \<and> t = s"
  "panic s = Err e t \<longleftrightarrow> False"
  "reads f s = Err e t \<longleftrightarrow> False"
  "modify g s = Err e t \<longleftrightarrow> False"
  "reject_if c e' s = Err e t \<longleftrightarrow> c \<and> e = e' \<and> t = s"
  "unwrap v s = Err e t \<longleftrightarrow> False"
  "ok_or v e' s = Err e t \<longleftrightarrow> v = None \<and> e = e' \<and> t = s"
  "is_ok m' s = Err e t \<longleftrightarrow> False"
  "assert_that c s = Err e t \<longleftrightarrow> False"
  "when_do c m s = Err e t \<longleftrightarrow> c \<and> m s = Err e t"
  by (auto simp: run_simps split: option.splits outcome.splits)

lemma and_then_assoc: "and_then (and_then m f) g = and_then m (\<lambda>x. and_then (f x) g)"
  by (rule ext) (simp add: run_simps split: outcome.splits)

section \<open>Programs that keep a predicate\<close>

text \<open>
  \<open>keeps P m\<close>: from a state with \<open>P\<close>, every state the program hands back (with a value or
  with an error) has \<open>P\<close>. It is the frame and invariant judgement of the components.
\<close>

definition keeps :: "('s \<Rightarrow> bool) \<Rightarrow> ('e, 'a, 's) prog \<Rightarrow> bool" where
  "keeps P m \<longleftrightarrow> (\<forall>s x t. P s \<longrightarrow> m s = Ok x t \<longrightarrow> P t) \<and> (\<forall>s e t. P s \<longrightarrow> m s = Err e t \<longrightarrow> P t)"

lemma keepsI:
  "(\<And>s x t. P s \<Longrightarrow> m s = Ok x t \<Longrightarrow> P t) \<Longrightarrow> (\<And>s e t. P s \<Longrightarrow> m s = Err e t \<Longrightarrow> P t) \<Longrightarrow> keeps P m"
  unfolding keeps_def by blast

lemma keepsD_Ok: "keeps P m \<Longrightarrow> m s = Ok x t \<Longrightarrow> P s \<Longrightarrow> P t"
  unfolding keeps_def by blast

lemma keepsD_Err: "keeps P m \<Longrightarrow> m s = Err e t \<Longrightarrow> P s \<Longrightarrow> P t"
  unfolding keeps_def by blast

lemma keeps_and_then [keeps_intros]:
  "keeps P m \<Longrightarrow> (\<And>x. keeps P (f x)) \<Longrightarrow> keeps P (and_then m f)"
  by (rule keepsI) (auto simp: ok_simps err_simps dest: keepsD_Ok keepsD_Err)

lemma keeps_seq [keeps_intros]: "keeps P m \<Longrightarrow> keeps P k \<Longrightarrow> keeps P (seq m k)"
  by (simp add: seq_def keeps_and_then)

lemma keeps_pure [keeps_intros]:
  "keeps P (ret x)" "keeps P (throw e)" "keeps P panic" "keeps P (reads f)"
  "keeps P (reject_if c e)" "keeps P (unwrap v)" "keeps P (ok_or v e)" "keeps P (assert_that c)"
  by (auto intro!: keepsI simp: ok_simps err_simps)

lemma keeps_modify [keeps_intros]: "(\<And>s. P s \<Longrightarrow> P (g s)) \<Longrightarrow> keeps P (modify g)"
  by (auto intro!: keepsI simp: ok_simps err_simps)

lemma keeps_is_ok [keeps_intros]: "keeps P m \<Longrightarrow> keeps P (is_ok m)"
  by (rule keepsI) (auto simp: ok_simps err_simps dest: keepsD_Ok keepsD_Err)

lemma keeps_when_do [keeps_intros]: "(c \<Longrightarrow> keeps P m) \<Longrightarrow> keeps P (when_do c m)"
  by (auto intro: keeps_intros simp: when_do_def)

lemma keeps_if [keeps_intros]: "(c \<Longrightarrow> keeps P m) \<Longrightarrow> (\<not> c \<Longrightarrow> keeps P k) \<Longrightarrow> keeps P (if c then m else k)"
  by simp

lemma keeps_option [keeps_intros]:
  "(v = None \<Longrightarrow> keeps P m) \<Longrightarrow> (\<And>x. v = Some x \<Longrightarrow> keeps P (f x)) \<Longrightarrow> keeps P (case v of None \<Rightarrow> m | Some x \<Rightarrow> f x)"
  by (cases v) simp_all

lemma keeps_let [keeps_intros]: "(\<And>x. keeps P (f x)) \<Longrightarrow> keeps P (let x = v in f x)"
  by simp

lemma keeps_for_each [keeps_intros]: "(\<And>x. keeps P (body x)) \<Longrightarrow> keeps P (for_each xs body)"
  by (induction xs) (auto intro: keeps_intros)

lemma keeps_fold_prog [keeps_intros]:
  "(\<And>x a. keeps P (body x a)) \<Longrightarrow> keeps P (fold_prog body xs a)"
  by (induction xs arbitrary: a) (auto intro: keeps_intros)

lemma keeps_conj: "keeps P m \<Longrightarrow> keeps Q m \<Longrightarrow> keeps (\<lambda>s. P s \<and> Q s) m"
  unfolding keeps_def by blast

text \<open>\<open>no_err m\<close>: the program never ends with an error value (it may trap).\<close>

definition no_err :: "('e, 'a, 's) prog \<Rightarrow> bool" where
  "no_err m \<longleftrightarrow> (\<forall>s e t. m s \<noteq> Err e t)"

named_theorems no_err_intros \<open>rules for programs that never end with an error value\<close>

lemma no_errD: "no_err m \<Longrightarrow> m s = Err e t \<longleftrightarrow> False"
  by (simp add: no_err_def)

lemma no_err_prims [no_err_intros]:
  "no_err (ret x)" "no_err panic" "no_err (reads f)" "no_err (modify g)" "no_err (unwrap v)"
  "no_err (assert_that c)" "no_err (is_ok m)"
  by (auto simp: no_err_def err_simps)

lemma no_err_and_then [no_err_intros]: "no_err m \<Longrightarrow> (\<And>x. no_err (f x)) \<Longrightarrow> no_err (and_then m f)"
  by (auto simp: no_err_def err_simps)

lemma no_err_seq [no_err_intros]: "no_err m \<Longrightarrow> no_err k \<Longrightarrow> no_err (seq m k)"
  by (auto simp: no_err_def err_simps)

lemma no_err_if [no_err_intros]:
  "(c \<Longrightarrow> no_err m) \<Longrightarrow> (\<not> c \<Longrightarrow> no_err k) \<Longrightarrow> no_err (if c then m else k)"
  by simp

lemma no_err_when_do [no_err_intros]: "(c \<Longrightarrow> no_err m) \<Longrightarrow> no_err (when_do c m)"
  by (auto simp: no_err_def err_simps)

lemma no_err_option [no_err_intros]:
  "(v = None \<Longrightarrow> no_err m) \<Longrightarrow> (\<And>x. v = Some x \<Longrightarrow> no_err (f x)) \<Longrightarrow>
   no_err (case v of None \<Rightarrow> m | Some x \<Rightarrow> f x)"
  by (cases v) simp_all

lemma no_err_for_each [no_err_intros]: "(\<And>x. no_err (body x)) \<Longrightarrow> no_err (for_each xs body)"
  by (induction xs) (auto intro: no_err_intros)

lemma no_err_fold_prog [no_err_intros]:
  "(\<And>x a. no_err (body x a)) \<Longrightarrow> no_err (fold_prog body xs a)"
  by (induction xs arbitrary: a) (auto intro: no_err_intros)

section \<open>Vectors\<close>

text \<open>\<open>Vec::first_index_of\<close> and \<open>Vec::remove\<close>.\<close>

fun first_index_of :: "'a \<Rightarrow> 'a list \<Rightarrow> nat option" where
  "first_index_of x [] = None"
| "first_index_of x (y # ys) = (if x = y then Some 0 else map_option Suc (first_index_of x ys))"

definition remove_at :: "nat \<Rightarrow> 'a list \<Rightarrow> 'a list" where
  "remove_at i xs = take i xs @ drop (Suc i) xs"

lemma first_index_of_None: "first_index_of x xs = None \<longleftrightarrow> x \<notin> set xs"
  by (induction xs) auto

lemma remove_at_first_index: "first_index_of x xs = Some i \<Longrightarrow> remove_at i xs = remove1 x xs"
  by (induction xs arbitrary: i) (auto simp: remove_at_def split: if_splits)

lemma first_index_of_nth:
  "i < length xs \<Longrightarrow> first_index_of (xs ! i) xs = Some i \<longleftrightarrow> xs ! i \<notin> set (take i xs)"
proof (induction xs arbitrary: i)
  case (Cons y ys)
  then show ?case by (cases i) (auto simp: first_index_of_None)
qed simp

lemma distinct_first_index:
  "distinct xs \<longleftrightarrow> (\<forall>i < length xs. first_index_of (xs ! i) xs = Some i)"
proof -
  have "distinct xs \<longleftrightarrow> (\<forall>i < length xs. xs ! i \<notin> set (take i xs))"
    by (auto simp: distinct_conv_nth in_set_conv_nth)
      (metis linorder_neqE_nat)
  then show ?thesis by (auto simp: first_index_of_nth)
qed

section \<open>Machine integers\<close>

text \<open>
  \<open>i128\<close> values are \<open>int\<close>, \<open>u32\<close> and \<open>u64\<close> values are \<open>nat\<close>. The release profile sets
  \<open>overflow-checks = true\<close>, so a plain operator traps when its result leaves the type;
  the \<open>checked_\<close> operations return \<open>None\<close> there and the \<open>saturating_\<close> ones the bound.
\<close>

type_synonym i128 = int
type_synonym u32 = nat
type_synonym u64 = nat

definition i128_MAX :: i128 where "i128_MAX = 2 ^ 127 - 1"
definition i128_MIN :: i128 where "i128_MIN = - (2 ^ 127)"
definition u32_MAX :: u32 where "u32_MAX = 2 ^ 32 - 1"
definition u64_MAX :: u64 where "u64_MAX = 2 ^ 64 - 1"

definition in_i128 :: "int \<Rightarrow> bool" where
  "in_i128 x \<longleftrightarrow> i128_MIN \<le> x \<and> x \<le> i128_MAX"

definition checked_i128 :: "int \<Rightarrow> i128 option" where
  "checked_i128 x = (if in_i128 x then Some x else None)"

definition checked_add :: "i128 \<Rightarrow> i128 \<Rightarrow> i128 option" where
  "checked_add a b = checked_i128 (a + b)"

definition checked_mul :: "i128 \<Rightarrow> i128 \<Rightarrow> i128 option" where
  "checked_mul a b = checked_i128 (a * b)"

definition checked_div :: "i128 \<Rightarrow> i128 \<Rightarrow> i128 option" where
  "checked_div a b = (if b = 0 then None else checked_i128 (a sdiv b))"

definition i128_add :: "i128 \<Rightarrow> i128 \<Rightarrow> ('e, i128, 's) prog" where
  "i128_add a b = unwrap (checked_add a b)"

definition i128_sub :: "i128 \<Rightarrow> i128 \<Rightarrow> ('e, i128, 's) prog" where
  "i128_sub a b = unwrap (checked_i128 (a - b))"

definition i128_mul :: "i128 \<Rightarrow> i128 \<Rightarrow> ('e, i128, 's) prog" where
  "i128_mul a b = unwrap (checked_mul a b)"

definition i128_saturating_sub :: "i128 \<Rightarrow> i128 \<Rightarrow> i128" where
  "i128_saturating_sub a b = max i128_MIN (min i128_MAX (a - b))"

definition u32_add :: "u32 \<Rightarrow> u32 \<Rightarrow> ('e, u32, 's) prog" where
  "u32_add a b = (if a + b \<le> u32_MAX then ret (a + b) else panic)"

definition u32_sub :: "u32 \<Rightarrow> u32 \<Rightarrow> ('e, u32, 's) prog" where
  "u32_sub a b = (if b \<le> a then ret (a - b) else panic)"

definition u32_saturating_add :: "u32 \<Rightarrow> u32 \<Rightarrow> u32" where
  "u32_saturating_add a b = min u32_MAX (a + b)"

definition u32_saturating_sub :: "u32 \<Rightarrow> u32 \<Rightarrow> u32" where
  "u32_saturating_sub a b = a - b"

definition u64_add :: "u64 \<Rightarrow> u64 \<Rightarrow> ('e, u64, 's) prog" where
  "u64_add a b = (if a + b \<le> u64_MAX then ret (a + b) else panic)"

definition u64_saturating_add :: "u64 \<Rightarrow> u64 \<Rightarrow> u64" where
  "u64_saturating_add a b = min u64_MAX (a + b)"

definition u64_saturating_mul :: "u64 \<Rightarrow> u64 \<Rightarrow> u64" where
  "u64_saturating_mul a b = min u64_MAX (a * b)"

definition u64_saturating_sub :: "u64 \<Rightarrow> u64 \<Rightarrow> u64" where
  "u64_saturating_sub a b = a - b"

text \<open>The cast \<open>x as u32\<close> keeps the low 32 bits.\<close>

definition as_u32 :: "i128 \<Rightarrow> u32" where
  "as_u32 x = nat (x mod 2 ^ 32)"

lemmas int_bounds = i128_MAX_def i128_MIN_def u32_MAX_def u64_MAX_def in_i128_def

lemma ok_i128_ops [ok_simps]:
  "i128_add a b s = Ok y t \<longleftrightarrow> in_i128 (a + b) \<and> y = a + b \<and> t = s"
  "i128_sub a b s = Ok y t \<longleftrightarrow> in_i128 (a - b) \<and> y = a - b \<and> t = s"
  "i128_mul a b s = Ok y t \<longleftrightarrow> in_i128 (a * b) \<and> y = a * b \<and> t = s"
  by (auto simp: i128_add_def i128_sub_def i128_mul_def checked_add_def checked_mul_def
      checked_i128_def ok_simps)

lemma ok_unsigned_ops [ok_simps]:
  "u32_add m n s = Ok z t \<longleftrightarrow> m + n \<le> u32_MAX \<and> z = m + n \<and> t = s"
  "u32_sub m n s = Ok z t \<longleftrightarrow> n \<le> m \<and> z = m - n \<and> t = s"
  "u64_add m n s = Ok z t \<longleftrightarrow> m + n \<le> u64_MAX \<and> z = m + n \<and> t = s"
  by (auto simp: u32_add_def u32_sub_def u64_add_def ok_simps)

lemma run_int_ops [run_simps]:
  "i128_add a b s = (if in_i128 (a + b) then Ok (a + b) s else Panic)"
  "i128_sub a b s = (if in_i128 (a - b) then Ok (a - b) s else Panic)"
  "i128_mul a b s = (if in_i128 (a * b) then Ok (a * b) s else Panic)"
  "u32_add m n s = (if m + n \<le> u32_MAX then Ok (m + n) s else Panic)"
  "u32_sub m n s = (if n \<le> m then Ok (m - n) s else Panic)"
  "u64_add m n s = (if m + n \<le> u64_MAX then Ok (m + n) s else Panic)"
  by (simp_all add: i128_add_def i128_sub_def i128_mul_def checked_add_def checked_mul_def
      checked_i128_def u32_add_def u32_sub_def u64_add_def run_simps)

lemma err_int_ops [err_simps]:
  "i128_add a b s = Err e t \<longleftrightarrow> False"
  "i128_sub a b s = Err e t \<longleftrightarrow> False"
  "i128_mul a b s = Err e t \<longleftrightarrow> False"
  "u32_add m n s = Err e t \<longleftrightarrow> False"
  "u32_sub m n s = Err e t \<longleftrightarrow> False"
  "u64_add m n s = Err e t \<longleftrightarrow> False"
  by (simp_all add: run_simps)

lemma no_err_int_ops [no_err_intros]:
  "no_err (i128_add a b)" "no_err (i128_sub a b)" "no_err (i128_mul a b)"
  "no_err (u32_add m n)" "no_err (u32_sub m n)" "no_err (u64_add m n)"
  by (auto simp: no_err_def err_simps)

lemma keeps_int_ops [keeps_intros]:
  "keeps P (i128_add a b)" "keeps P (i128_sub a b)" "keeps P (i128_mul a b)"
  "keeps P (u32_add m n)" "keeps P (u32_sub m n)" "keeps P (u64_add m n)"
  by (auto intro!: keepsI simp: ok_simps err_simps)

lemma checked_Some:
  "checked_add a b = Some c \<longleftrightarrow> in_i128 (a + b) \<and> c = a + b"
  "checked_mul a b = Some c \<longleftrightarrow> in_i128 (a * b) \<and> c = a * b"
  "checked_div a b = Some c \<longleftrightarrow> b \<noteq> 0 \<and> in_i128 (a sdiv b) \<and> c = a sdiv b"
  by (auto simp: checked_add_def checked_mul_def checked_div_def checked_i128_def)

lemma sdiv_nonneg: "0 \<le> a \<Longrightarrow> 0 < b \<Longrightarrow> a sdiv b = a div (b::int)"
  by (cases "a = 0") (simp_all add: signed_divide_int_def sgn_if)

lemma smod_nonneg: "0 \<le> a \<Longrightarrow> 0 < b \<Longrightarrow> a smod b = a mod (b::int)"
  by (cases "a = 0") (simp_all add: signed_modulo_int_def sgn_if)

end
