(* ===== verification/Types.thy ===== *)
theory Types
  imports Prelude "HOL-Library.Word"
begin

text \<open>
  The data model of \<^verbatim>\<open>types.rs\<close> and the error codes of \<^verbatim>\<open>error.rs\<close>. Every struct is a record
  whose selectors carry a prefix for their struct (\<open>m_\<close> for \<open>Member\<close>, \<open>p_\<close> for \<open>LoanProposal\<close>,
  \<open>t_\<close> for \<open>TreasuryProposal\<close>, \<open>l_\<close> for \<open>Loan\<close>, \<open>pol_\<close> for \<open>LoanPolicy\<close>), every enum a datatype.
  The variants \<open>Executed\<close> and \<open>Expired\<close>, which two Rust enums share, carry \<open>St\<close> or \<open>Ph\<close>.
\<close>

section \<open>Values of the host environment\<close>

text \<open>
  An \<open>Address\<close> is opaque: the contract only compares addresses. \<open>Bytes\<close> and \<open>BytesN<32>\<close> are
  byte lists, and a Soroban \<open>String\<close> is the list of its bytes, read as characters.
\<close>

datatype address = Address nat

type_synonym byte = "8 word"
type_synonym bytes = "byte list"

instantiation address :: linorder
begin

fun less_eq_address :: "address \<Rightarrow> address \<Rightarrow> bool" where
  "less_eq_address (Address m) (Address n) = (m \<le> n)"

fun less_address :: "address \<Rightarrow> address \<Rightarrow> bool" where
  "less_address (Address m) (Address n) = (m < n)"

instance
proof
  fix x y z :: address
  show "(x < y) = (x \<le> y \<and> \<not> y \<le> x)" by (cases x; cases y) auto
  show "x \<le> x" by (cases x) simp
  show "x \<le> y \<Longrightarrow> y \<le> z \<Longrightarrow> x \<le> z" by (cases x; cases y; cases z) simp
  show "x \<le> y \<Longrightarrow> y \<le> x \<Longrightarrow> x = y" by (cases x; cases y) simp
  show "x \<le> y \<or> y \<le> x" by (cases x; cases y) auto
qed

end

section \<open>Error codes\<close>

datatype error =
    AlreadyInitialized
  | NotInitialized
  | InvalidThreshold
  | InvalidAmount
  | InvalidLoanPolicy
  | Paused
  | NotPaused
  | NotAuthorized
  | NotAdmin
  | NotMember
  | AlreadyAdmin
  | AlreadyMember
  | CannotRemoveLastAdmin
  | MemberNotActive
  | HasActiveLoan
  | ProposalNotFound
  | NotBorrower
  | NotInEditingPhase
  | NotInVotingPhase
  | VotingEnded
  | AlreadyVoted
  | NotEligibleForLoan
  | CooldownActive
  | LoanNotFound
  | LoanNotActive
  | ExceedsTreasuryRatio
  | InsufficientTreasury
  | LoanNotOverdue
  | TreasuryProposalNotFound
  | NameTaken
  | NameNotFound
  | NoStake
  | InsufficientStake
  | NoCommitment
  | CommitmentMismatch
  | AlreadyRevealed
  | NothingToClaim
  | ProposalNotExpired
  | InvalidName
  | NotYetRevealed
  | NotProposalOwner
  | DocumentTooLarge
  | InvalidToken
  | TimelockNotExpired
  | NoPendingPolicy
  | InvalidMetadataCid
  | InvalidDelegation
  | InvalidProposal
  | AlreadyPauser
  | NotPauser
  | TokenNotWhitelisted
  | TokenAlreadyWhitelisted
  | NoPendingTokenAddition
  | AssetMismatch
  | CannotRemoveBaseToken
  | SeedingLocked
  | SeedingAlreadyLocked
  | TooManyOpenProposals
  | BorrowerCannotVote

text \<open>The discriminants, part of the public interface.\<close>

primrec error_code :: "error \<Rightarrow> u32" where
  "error_code AlreadyInitialized = 1"
| "error_code NotInitialized = 2"
| "error_code InvalidThreshold = 3"
| "error_code InvalidAmount = 4"
| "error_code InvalidLoanPolicy = 5"
| "error_code Paused = 6"
| "error_code NotPaused = 7"
| "error_code NotAuthorized = 10"
| "error_code NotAdmin = 11"
| "error_code NotMember = 12"
| "error_code AlreadyAdmin = 13"
| "error_code AlreadyMember = 14"
| "error_code CannotRemoveLastAdmin = 15"
| "error_code MemberNotActive = 20"
| "error_code HasActiveLoan = 21"
| "error_code ProposalNotFound = 30"
| "error_code NotBorrower = 31"
| "error_code NotInEditingPhase = 32"
| "error_code NotInVotingPhase = 33"
| "error_code VotingEnded = 34"
| "error_code AlreadyVoted = 35"
| "error_code NotEligibleForLoan = 36"
| "error_code CooldownActive = 37"
| "error_code LoanNotFound = 38"
| "error_code LoanNotActive = 39"
| "error_code ExceedsTreasuryRatio = 40"
| "error_code InsufficientTreasury = 41"
| "error_code LoanNotOverdue = 42"
| "error_code TreasuryProposalNotFound = 50"
| "error_code NameTaken = 60"
| "error_code NameNotFound = 61"
| "error_code NoStake = 62"
| "error_code InsufficientStake = 63"
| "error_code NoCommitment = 64"
| "error_code CommitmentMismatch = 65"
| "error_code AlreadyRevealed = 66"
| "error_code NothingToClaim = 67"
| "error_code ProposalNotExpired = 70"
| "error_code InvalidName = 71"
| "error_code NotYetRevealed = 72"
| "error_code NotProposalOwner = 73"
| "error_code DocumentTooLarge = 74"
| "error_code InvalidToken = 75"
| "error_code TimelockNotExpired = 76"
| "error_code NoPendingPolicy = 77"
| "error_code InvalidMetadataCid = 78"
| "error_code InvalidDelegation = 79"
| "error_code InvalidProposal = 80"
| "error_code AlreadyPauser = 81"
| "error_code NotPauser = 82"
| "error_code TokenNotWhitelisted = 83"
| "error_code TokenAlreadyWhitelisted = 84"
| "error_code NoPendingTokenAddition = 85"
| "error_code AssetMismatch = 86"
| "error_code CannotRemoveBaseToken = 87"
| "error_code SeedingLocked = 88"
| "error_code SeedingAlreadyLocked = 89"
| "error_code TooManyOpenProposals = 90"
| "error_code BorrowerCannotVote = 91"

section \<open>Constants\<close>

definition BASIS_POINTS :: i128 where [simp]: "BASIS_POINTS = 10000"
definition NAME_MIN_LEN :: u32 where [simp]: "NAME_MIN_LEN = 3"
definition NAME_MAX_LEN :: u32 where [simp]: "NAME_MAX_LEN = 32"

section \<open>Enums\<close>

datatype member_status = ActiveMember | Inactive

datatype proposal_status =
    Pending
  | ApprovedPendingDisbursement
  | Approved
  | Rejected
  | StExecuted
  | StExpired
  | Cancelled

datatype proposal_phase = Editing | Voting | PhExecuted | PhExpired

datatype loan_status = LoanActive | Repaid | Defaulted

datatype proposal_kind = LoanKind | TreasuryKind

section \<open>Structs\<close>

record member =
  m_address :: address
  m_status :: member_status
  m_join_time :: u64
  m_contribution :: i128
  m_share_balance :: i128
  m_has_active_loan :: bool
  m_last_loan_time :: u64
  m_total_loans :: u32
  m_repaid_loans :: u32
  m_active_loans :: u32

record member_loan_stats =
  mls_total_loans :: u32
  mls_repaid_loans :: u32
  mls_active_loans :: u32

record member_overview =
  mo_member :: member
  mo_stake :: i128
  mo_pending_yield :: i128
  mo_loan_stats :: member_loan_stats
  mo_name :: "string option"
  mo_delegate :: "address option"

record loan_policy =
  pol_min_membership_duration :: u64
  pol_membership_contribution :: i128
  pol_max_loan_duration :: u64
  pol_min_interest_rate :: u32
  pol_max_interest_rate :: u32
  pol_cooldown_period :: u64
  pol_max_loan_to_treasury_ratio :: u32
  pol_default_grace_period :: u64
  pol_default_penalty_bps :: u32
  pol_editing_period :: u64
  pol_voting_period :: u64
  pol_treasury_threshold :: u32
  pol_quorum_bps :: u32

record loan_proposal =
  p_id :: u32
  p_borrower :: address
  p_amount :: i128
  p_interest_rate :: u32
  p_duration :: u64
  p_total_repayment :: i128
  p_created_at :: u64
  p_editing_period_end :: u64
  p_phase :: proposal_phase
  p_status :: proposal_status
  p_for_votes :: i128
  p_against_votes :: i128
  p_votes_cast :: u32
  p_voting_period :: u64
  p_metadata_cid :: "string option"
  p_last_edited_at :: "u64 option"

record loan =
  l_id :: u32
  l_borrower :: address
  l_principal :: i128
  l_interest_rate :: u32
  l_total_repayment :: i128
  l_start_time :: u64
  l_due_time :: u64
  l_status :: loan_status
  l_amount_repaid :: i128

record treasury_proposal =
  t_id :: u32
  t_proposer :: address
  t_amount :: i128
  t_destination :: address
  t_reason :: string
  t_created_at :: u64
  t_status :: proposal_status
  t_for_votes :: i128
  t_against_votes :: i128
  t_votes_cast :: u32
  t_voting_period :: u64
  t_treasury_threshold :: u32
  t_private :: bool

record asset_balance =
  ab_asset :: address
  ab_balance :: i128

record dao_summary =
  ds_total_members :: u32
  ds_active_members :: u32
  ds_treasury_balance :: i128
  ds_treasury_balances :: "asset_balance list"
  ds_total_staked :: i128
  ds_consensus_threshold :: u32
  ds_paused :: bool
  ds_version :: string

record loan_terms =
  lt_interest_rate :: u32
  lt_total_repayment :: i128
  lt_duration :: u64

record loan_terms_edited =
  lte_proposal_id :: u32
  lte_borrower :: address
  lte_prev_amount :: i128
  lte_prev_total_repayment :: i128
  lte_new_amount :: i128
  lte_total_repayment :: i128
  lte_edited_at :: u64

record pending_policy_update =
  ppu_policy :: loan_policy
  ppu_proposed_at :: u64
  ppu_execution_time :: u64

record staking_reward_claimed =
  src_member :: address
  src_amount :: i128
  src_timestamp :: u64

record proposal_vote =
  pv_proposal_id :: u32
  pv_vote :: bool

record seed_stake_entry =
  sse_address :: address
  sse_amount :: i128

record seed_yield_entry =
  sye_address :: address
  sye_amount :: i128

record seed_name_entry =
  sne_name :: string
  sne_owner :: address

record seed_doc_entry =
  sde_kind :: proposal_kind
  sde_proposal_id :: u32
  sde_content_hash :: bytes

section \<open>Facts about the codes\<close>

text \<open>Every variant, in the order of the enum; a client decodes a code by searching it.\<close>

definition error_variants :: "error list" where
  "error_variants =
    [AlreadyInitialized, NotInitialized, InvalidThreshold, InvalidAmount,
     InvalidLoanPolicy, Paused, NotPaused, NotAuthorized, NotAdmin, NotMember,
     AlreadyAdmin, AlreadyMember, CannotRemoveLastAdmin, MemberNotActive, HasActiveLoan,
     ProposalNotFound, NotBorrower, NotInEditingPhase, NotInVotingPhase, VotingEnded,
     AlreadyVoted, NotEligibleForLoan, CooldownActive, LoanNotFound, LoanNotActive,
     ExceedsTreasuryRatio, InsufficientTreasury, LoanNotOverdue, TreasuryProposalNotFound,
     NameTaken, NameNotFound, NoStake, InsufficientStake, NoCommitment,
     CommitmentMismatch, AlreadyRevealed, NothingToClaim, ProposalNotExpired, InvalidName,
     NotYetRevealed, NotProposalOwner, DocumentTooLarge, InvalidToken, TimelockNotExpired,
     NoPendingPolicy, InvalidMetadataCid, InvalidDelegation, InvalidProposal,
     AlreadyPauser, NotPauser, TokenNotWhitelisted, TokenAlreadyWhitelisted,
     NoPendingTokenAddition, AssetMismatch, CannotRemoveBaseToken, SeedingLocked,
     SeedingAlreadyLocked, TooManyOpenProposals, BorrowerCannotVote]"

definition decode_error :: "u32 \<Rightarrow> error option" where
  "decode_error n = List.find (\<lambda>e. error_code e = n) error_variants"

lemma decode_error_code: "decode_error (error_code e) = Some e"
  by (cases e) (simp_all add: decode_error_def error_variants_def)

lemma error_code_inject: "error_code e = error_code f \<longleftrightarrow> e = f"
  by (metis decode_error_code option.inject)

end
