(* ===== verification/Storage.thy ===== *)
theory Storage
  imports Types
begin

text \<open>
  \<^verbatim>\<open>storage.rs\<close>: the contract's storage as one record with a field per \<open>DataKey\<close> variant
  (a keyed variant is a map), the ledgers of the external token contracts, the event log, and
  the typed accessors. Time-to-live extensions do not change any value a read returns and are
  left out; every read, write and removal is here.
\<close>

named_theorems storage_defs \<open>the accessors as reads and updates of the record\<close>

section \<open>Events\<close>

datatype event =
    Ev_init "address list" u32 i128 address
  | Ev_admin_add address
  | Ev_admin_rem address
  | Ev_pset address
  | Ev_prev address
  | Ev_threshold u32 u32
  | Ev_pol_prop address u64
  | Ev_policy loan_policy loan_policy
  | Ev_pol_canc address
  | Ev_paused address
  | Ev_unpaused address
  | Ev_tok_prop address address u64
  | Ev_tok_add address address
  | Ev_tok_rem address address
  | Ev_joined address i128
  | Ev_exited address i128 i128
  | Ev_claimed address i128 staking_reward_claimed
  | Ev_delegate address address
  | Ev_loan_asst u32 address
  | Ev_loan_req u32 address i128 i128 address
  | Ev_loan_edit u32 address i128 i128
  | Ev_prop_canc u32 u64
  | Ev_loan_vote u32 address bool
  | Ev_loan_wait u32 i128
  | Ev_loan_rej u32 i128 i128
  | Ev_loan_appr u32 address i128 u64 address
  | Ev_loan_rpy u32 address i128 address
  | Ev_loan_partial_repaid address i128
  | Ev_loan_exp u32 address
  | Ev_loan_dflt u32 address i128
  | Ev_interest i128 i128 address
  | Ev_tre_asset u32 address
  | Ev_tre_prop u32 i128 address bool
  | Ev_tre_vote u32 address bool
  | Ev_tre_wait u32 i128
  | Ev_tre_rej u32 i128 i128
  | Ev_tre_exec u32 i128 address
  | Ev_staked address i128 i128 i128
  | Ev_unstaked address i128 i128 i128
  | Ev_committed u32 address
  | Ev_revealed u32 address bool
  | Ev_name_reg string address
  | Ev_name_rel string address
  | Ev_doc_attn proposal_kind u32 address
  | Ev_TtlBumped

section \<open>The state and the call environment\<close>

text \<open>
  \<open>ledger t a\<close> is what the token contract \<open>t\<close> answers to \<open>balance(a)\<close>.
\<close>

type_synonym ledger = "address \<Rightarrow> address \<Rightarrow> i128"

record dao =
  kAdmins :: "address list option"
  kThreshold :: "u32 option"
  kMembershipFee :: "i128 option"
  kToken :: "address option"
  kPolicy :: "loan_policy option"
  kPaused :: "bool option"
  kPauser :: "address option"
  kMembers :: "address list option"
  kTotalMembers :: "u32 option"
  kActiveMembers :: "u32 option"
  kNextProposalId :: "u32 option"
  kNextTreasuryId :: "u32 option"
  kTotalStaked :: "i128 option"
  kPendingPolicyUpdate :: "pending_policy_update option"
  kMember :: "address \<rightharpoonup> member"
  kLoanProposal :: "u32 \<rightharpoonup> loan_proposal"
  kLoan :: "u32 \<rightharpoonup> loan"
  kTreasuryProposal :: "u32 \<rightharpoonup> treasury_proposal"
  kLoanVoted :: "u32 \<times> address \<rightharpoonup> bool"
  kStakeTime :: "address \<rightharpoonup> u64"
  kTreasuryVoted :: "u32 \<times> address \<rightharpoonup> bool"
  kStake :: "address \<rightharpoonup> i128"
  kOpenProposals :: "address \<rightharpoonup> u32"
  kYieldAccumulator :: "i128 option"
  kYieldRemainder :: "i128 option"
  kMemberYieldSnapshot :: "address \<rightharpoonup> i128"
  kDoc :: "proposal_kind \<times> u32 \<rightharpoonup> bytes"
  kName :: "string \<rightharpoonup> address"
  kNameOf :: "address \<rightharpoonup> string"
  kCommit :: "u32 \<times> address \<rightharpoonup> bytes"
  kTotalContributions :: "i128 option"
  kActiveContributions :: "i128 option"
  kDelegation :: "address \<rightharpoonup> address"
  kTokenWhitelisted :: "address \<rightharpoonup> bool"
  kWhitelistedTokens :: "address list option"
  kPendingTokenAddition :: "address \<rightharpoonup> u64"
  kLoanAsset :: "u32 \<rightharpoonup> address"
  kTreasuryAsset :: "u32 \<rightharpoonup> address"
  kMigrationSeedingLocked :: "bool option"
  ledger :: ledger
  events :: "event list"

type_synonym 'a run = "(error, 'a, dao) prog"

text \<open>
  What one invocation sees of its host: the contract's own address, the ledger timestamp, the
  addresses that authorized the call, and the code outside this repository it calls: which
  addresses answer as tokens, what a token \<open>transfer\<close> does to the balances (\<open>None\<close> when it
  traps), SHA-256 and the XDR encoding of an address.
\<close>

record env =
  env_self :: address
  env_now :: u64
  env_auth :: "address \<Rightarrow> bool"
  env_is_token :: "address \<Rightarrow> bool"
  env_transfer :: "address \<Rightarrow> address \<Rightarrow> address \<Rightarrow> i128 \<Rightarrow> ledger \<Rightarrow> ledger option"
  env_sha256 :: "bytes \<Rightarrow> bytes"
  env_to_xdr :: "address \<Rightarrow> bytes"

definition require_auth :: "env \<Rightarrow> address \<Rightarrow> unit run" where
  [storage_defs]: "require_auth env who = assert_that (env_auth env who)"

definition publish :: "event \<Rightarrow> unit run" where
  [storage_defs]: "publish e = modify (\<lambda>s. s\<lparr>events := events s @ [e]\<rparr>)"

definition token_balance :: "env \<Rightarrow> address \<Rightarrow> address \<Rightarrow> i128 run" where
  "token_balance env asset who =
     seq (assert_that (env_is_token env asset)) (reads (\<lambda>s. ledger s asset who))"

definition token_transfer :: "env \<Rightarrow> address \<Rightarrow> address \<Rightarrow> address \<Rightarrow> i128 \<Rightarrow> unit run" where
  "token_transfer env asset sender receiver amount =
     and_then (reads ledger) (\<lambda>l.
     and_then (unwrap (env_transfer env asset sender receiver amount l)) (\<lambda>l'.
     modify (\<lambda>s. s\<lparr>ledger := l'\<rparr>)))"

text \<open>\<open>get(key).unwrap()\<close>.\<close>

definition load :: "(dao \<Rightarrow> 'a option) \<Rightarrow> 'a run" where
  "load f = and_then (reads f) unwrap"

section \<open>Singleton accessors\<close>

definition is_initialized :: "dao \<Rightarrow> bool" where
  "is_initialized s = (kAdmins s \<noteq> None)"

definition get_admins :: "address list run" where [storage_defs]: "get_admins = load kAdmins"

definition set_admins :: "address list \<Rightarrow> unit run" where
  [storage_defs]: "set_admins admins = modify (\<lambda>s. s\<lparr>kAdmins := Some admins\<rparr>)"

definition get_pauser :: "dao \<Rightarrow> address option" where [storage_defs]: "get_pauser s = kPauser s"

definition set_pauser :: "address \<Rightarrow> unit run" where
  [storage_defs]: "set_pauser pauser = modify (\<lambda>s. s\<lparr>kPauser := Some pauser\<rparr>)"

definition remove_pauser :: "unit run" where
  [storage_defs]: "remove_pauser = modify (\<lambda>s. s\<lparr>kPauser := None\<rparr>)"

definition get_threshold :: "u32 run" where [storage_defs]: "get_threshold = load kThreshold"

definition set_threshold :: "u32 \<Rightarrow> unit run" where
  [storage_defs]: "set_threshold t = modify (\<lambda>s. s\<lparr>kThreshold := Some t\<rparr>)"

definition get_membership_fee :: "i128 run" where [storage_defs]: "get_membership_fee = load kMembershipFee"

definition set_membership_fee :: "i128 \<Rightarrow> unit run" where
  [storage_defs]: "set_membership_fee fee = modify (\<lambda>s. s\<lparr>kMembershipFee := Some fee\<rparr>)"

definition get_token :: "address run" where [storage_defs]: "get_token = load kToken"

definition set_token :: "address \<Rightarrow> unit run" where
  [storage_defs]: "set_token token = modify (\<lambda>s. s\<lparr>kToken := Some token\<rparr>)"

definition get_policy :: "loan_policy run" where [storage_defs]: "get_policy = load kPolicy"

definition set_policy :: "loan_policy \<Rightarrow> unit run" where
  [storage_defs]: "set_policy policy = modify (\<lambda>s. s\<lparr>kPolicy := Some policy\<rparr>)"

definition get_pending_policy_update :: "dao \<Rightarrow> pending_policy_update option" where
  [storage_defs]: "get_pending_policy_update s = kPendingPolicyUpdate s"

definition set_pending_policy_update :: "pending_policy_update \<Rightarrow> unit run" where
  [storage_defs]: "set_pending_policy_update upd = modify (\<lambda>s. s\<lparr>kPendingPolicyUpdate := Some upd\<rparr>)"

definition remove_pending_policy_update :: "unit run" where
  [storage_defs]: "remove_pending_policy_update = modify (\<lambda>s. s\<lparr>kPendingPolicyUpdate := None\<rparr>)"

definition is_paused :: "dao \<Rightarrow> bool" where [storage_defs]: "is_paused s = unwrap_or (kPaused s) False"

definition set_paused :: "bool \<Rightarrow> unit run" where
  [storage_defs]: "set_paused paused = modify (\<lambda>s. s\<lparr>kPaused := Some paused\<rparr>)"

definition get_members :: "dao \<Rightarrow> address list" where [storage_defs]: "get_members s = unwrap_or (kMembers s) []"

definition set_members :: "address list \<Rightarrow> unit run" where
  [storage_defs]: "set_members members = modify (\<lambda>s. s\<lparr>kMembers := Some members\<rparr>)"

definition get_total_members :: "dao \<Rightarrow> u32" where
  [storage_defs]: "get_total_members s = unwrap_or (kTotalMembers s) 0"

definition set_total_members :: "u32 \<Rightarrow> unit run" where
  [storage_defs]: "set_total_members n = modify (\<lambda>s. s\<lparr>kTotalMembers := Some n\<rparr>)"

definition get_total_contributions :: "dao \<Rightarrow> i128" where
  [storage_defs]: "get_total_contributions s = unwrap_or (kTotalContributions s) 0"

definition set_total_contributions :: "i128 \<Rightarrow> unit run" where
  [storage_defs]: "set_total_contributions amount = modify (\<lambda>s. s\<lparr>kTotalContributions := Some amount\<rparr>)"

definition get_active_contributions :: "dao \<Rightarrow> i128" where
  [storage_defs]: "get_active_contributions s = unwrap_or (kActiveContributions s) 0"

definition set_active_contributions :: "i128 \<Rightarrow> unit run" where
  [storage_defs]: "set_active_contributions amount = modify (\<lambda>s. s\<lparr>kActiveContributions := Some amount\<rparr>)"

definition get_active_members :: "dao \<Rightarrow> u32" where
  [storage_defs]: "get_active_members s = unwrap_or (kActiveMembers s) 0"

definition set_active_members :: "u32 \<Rightarrow> unit run" where
  [storage_defs]: "set_active_members n = modify (\<lambda>s. s\<lparr>kActiveMembers := Some n\<rparr>)"

text \<open>The two id counters, the only keys the counter functions are called with.\<close>

datatype counter = NextProposalId | NextTreasuryId

definition get_proposal_count :: "counter \<Rightarrow> dao \<Rightarrow> u32" where
  [storage_defs]: "get_proposal_count key s =
     unwrap_or (case key of NextProposalId \<Rightarrow> kNextProposalId s | NextTreasuryId \<Rightarrow> kNextTreasuryId s) 0"

definition set_counter :: "counter \<Rightarrow> u32 \<Rightarrow> unit run" where
  [storage_defs]: "set_counter key n = modify (\<lambda>s.
     case key of
       NextProposalId \<Rightarrow> s\<lparr>kNextProposalId := Some n\<rparr>
     | NextTreasuryId \<Rightarrow> s\<lparr>kNextTreasuryId := Some n\<rparr>)"

definition next_id :: "counter \<Rightarrow> u32 run" where
  "next_id key =
     and_then (reads (get_proposal_count key)) (\<lambda>current.
     and_then (u32_add current 1) (\<lambda>n.
     seq (set_counter key n) (ret current)))"

definition get_total_staked :: "dao \<Rightarrow> i128" where
  [storage_defs]: "get_total_staked s = unwrap_or (kTotalStaked s) 0"

definition set_total_staked :: "i128 \<Rightarrow> unit run" where
  [storage_defs]: "set_total_staked amount = modify (\<lambda>s. s\<lparr>kTotalStaked := Some amount\<rparr>)"

section \<open>Per-entity accessors\<close>

definition get_member :: "address \<Rightarrow> dao \<Rightarrow> member option" where
  [storage_defs]: "get_member addr s = kMember s addr"

definition set_member :: "member \<Rightarrow> unit run" where
  [storage_defs]: "set_member m = modify (\<lambda>s. s\<lparr>kMember := (kMember s)(m_address m \<mapsto> m)\<rparr>)"

definition MAX_OPEN_PROPOSALS_PER_MEMBER :: u32 where
  [simp]: "MAX_OPEN_PROPOSALS_PER_MEMBER = 3"

definition get_loan_proposal :: "u32 \<Rightarrow> dao \<Rightarrow> loan_proposal option" where
  [storage_defs]: "get_loan_proposal i s = kLoanProposal s i"

definition get_treasury_proposal :: "u32 \<Rightarrow> dao \<Rightarrow> treasury_proposal option" where
  [storage_defs]: "get_treasury_proposal i s = kTreasuryProposal s i"

text \<open>
  The two scans of \<open>get_open_proposals\<close>: a loan proposal counts until its voting deadline, a
  treasury proposal until the end of its (for a private one, doubled) voting period.
\<close>

definition open_loan_proposal :: "u64 \<Rightarrow> address \<Rightarrow> loan_proposal \<Rightarrow> bool" where
  "open_loan_proposal now who p \<longleftrightarrow>
     p_borrower p = who \<and> p_status p = Pending
     \<and> now \<le> u64_saturating_add (p_editing_period_end p) (p_voting_period p)"

definition treasury_voting_end :: "treasury_proposal \<Rightarrow> u64" where
  "treasury_voting_end p =
     u64_saturating_add (t_created_at p)
       (u64_saturating_mul (t_voting_period p) (if t_private p then 2 else 1))"

definition open_treasury_proposal :: "u64 \<Rightarrow> address \<Rightarrow> treasury_proposal \<Rightarrow> bool" where
  "open_treasury_proposal now who p \<longleftrightarrow>
     t_proposer p = who \<and> t_status p = Pending \<and> now \<le> treasury_voting_end p"

definition count_if :: "('p \<Rightarrow> bool) \<Rightarrow> (u32 \<Rightarrow> 'p option) \<Rightarrow> u32 \<Rightarrow> u32 \<Rightarrow> u32" where
  "count_if ok look i c =
     (case look i of None \<Rightarrow> c | Some p \<Rightarrow> if ok p then u32_saturating_add c 1 else c)"

definition count_open_proposals :: "env \<Rightarrow> address \<Rightarrow> dao \<Rightarrow> u32" where
  "count_open_proposals env who s =
     fold (count_if (open_treasury_proposal (env_now env) who) (\<lambda>i. get_treasury_proposal i s))
       [0..<get_proposal_count NextTreasuryId s]
       (fold (count_if (open_loan_proposal (env_now env) who) (\<lambda>i. get_loan_proposal i s))
          [0..<get_proposal_count NextProposalId s] 0)"

definition get_open_proposals :: "env \<Rightarrow> address \<Rightarrow> u32 run" where
  "get_open_proposals env who =
     and_then (reads (count_open_proposals env who)) (\<lambda>count.
     seq (modify (\<lambda>s. s\<lparr>kOpenProposals := (kOpenProposals s)(who \<mapsto> count)\<rparr>)) (ret count))"

definition set_loan_proposal :: "env \<Rightarrow> loan_proposal \<Rightarrow> unit run" where
  [storage_defs]: "set_loan_proposal env p =
     seq (modify (\<lambda>s. s\<lparr>kLoanProposal := (kLoanProposal s)(p_id p \<mapsto> p)\<rparr>))
     (and_then (get_open_proposals env (p_borrower p)) (\<lambda>_. ret ()))"

definition get_loan :: "u32 \<Rightarrow> dao \<Rightarrow> loan option" where
  [storage_defs]: "get_loan i s = kLoan s i"

definition set_loan :: "loan \<Rightarrow> unit run" where
  [storage_defs]: "set_loan l = modify (\<lambda>s. s\<lparr>kLoan := (kLoan s)(l_id l \<mapsto> l)\<rparr>)"

definition set_treasury_proposal :: "env \<Rightarrow> treasury_proposal \<Rightarrow> unit run" where
  [storage_defs]: "set_treasury_proposal env p =
     seq (modify (\<lambda>s. s\<lparr>kTreasuryProposal := (kTreasuryProposal s)(t_id p \<mapsto> p)\<rparr>))
     (and_then (get_open_proposals env (t_proposer p)) (\<lambda>_. ret ()))"

definition has_loan_voted :: "u32 \<Rightarrow> address \<Rightarrow> dao \<Rightarrow> bool" where
  [storage_defs]: "has_loan_voted i voter s = (kLoanVoted s (i, voter) \<noteq> None)"

definition set_loan_voted :: "u32 \<Rightarrow> address \<Rightarrow> unit run" where
  [storage_defs]: "set_loan_voted i voter = modify (\<lambda>s. s\<lparr>kLoanVoted := (kLoanVoted s)((i, voter) \<mapsto> True)\<rparr>)"

definition has_treasury_voted :: "u32 \<Rightarrow> address \<Rightarrow> dao \<Rightarrow> bool" where
  [storage_defs]: "has_treasury_voted i voter s = (kTreasuryVoted s (i, voter) \<noteq> None)"

definition set_treasury_voted :: "u32 \<Rightarrow> address \<Rightarrow> unit run" where
  [storage_defs]: "set_treasury_voted i voter =
     modify (\<lambda>s. s\<lparr>kTreasuryVoted := (kTreasuryVoted s)((i, voter) \<mapsto> True)\<rparr>)"

definition get_stake :: "address \<Rightarrow> dao \<Rightarrow> i128" where
  [storage_defs]: "get_stake addr s = unwrap_or (kStake s addr) 0"

definition set_stake :: "address \<Rightarrow> i128 \<Rightarrow> unit run" where
  [storage_defs]: "set_stake addr amount = modify (\<lambda>s. s\<lparr>kStake := (kStake s)(addr \<mapsto> amount)\<rparr>)"

definition get_stake_time :: "address \<Rightarrow> dao \<Rightarrow> u64" where
  [storage_defs]: "get_stake_time addr s = unwrap_or (kStakeTime s addr) 0"

definition set_stake_time :: "address \<Rightarrow> u64 \<Rightarrow> unit run" where
  [storage_defs]: "set_stake_time addr t = modify (\<lambda>s. s\<lparr>kStakeTime := (kStakeTime s)(addr \<mapsto> t)\<rparr>)"

section \<open>Yield accrual, names, documents, commitments, delegations\<close>

definition get_yield_accumulator :: "dao \<Rightarrow> i128" where
  [storage_defs]: "get_yield_accumulator s = unwrap_or (kYieldAccumulator s) 0"

definition set_yield_accumulator :: "i128 \<Rightarrow> unit run" where
  [storage_defs]: "set_yield_accumulator v = modify (\<lambda>s. s\<lparr>kYieldAccumulator := Some v\<rparr>)"

definition get_yield_snapshot :: "address \<Rightarrow> dao \<Rightarrow> i128" where
  [storage_defs]: "get_yield_snapshot addr s = unwrap_or (kMemberYieldSnapshot s addr) 0"

definition set_yield_snapshot :: "address \<Rightarrow> i128 \<Rightarrow> unit run" where
  [storage_defs]: "set_yield_snapshot addr v =
     modify (\<lambda>s. s\<lparr>kMemberYieldSnapshot := (kMemberYieldSnapshot s)(addr \<mapsto> v)\<rparr>)"

definition get_doc :: "proposal_kind \<Rightarrow> u32 \<Rightarrow> dao \<Rightarrow> bytes option" where
  [storage_defs]: "get_doc kind i s = kDoc s (kind, i)"

definition set_doc :: "proposal_kind \<Rightarrow> u32 \<Rightarrow> bytes \<Rightarrow> unit run" where
  [storage_defs]: "set_doc kind i hash = modify (\<lambda>s. s\<lparr>kDoc := (kDoc s)((kind, i) \<mapsto> hash)\<rparr>)"

definition get_name_owner :: "string \<Rightarrow> dao \<Rightarrow> address option" where
  [storage_defs]: "get_name_owner name s = kName s name"

definition set_name :: "string \<Rightarrow> address \<Rightarrow> unit run" where
  [storage_defs]: "set_name name owner =
     modify (\<lambda>s. s\<lparr>kName := (kName s)(name \<mapsto> owner), kNameOf := (kNameOf s)(owner \<mapsto> name)\<rparr>)"

definition get_name_of :: "address \<Rightarrow> dao \<Rightarrow> string option" where
  [storage_defs]: "get_name_of owner s = kNameOf s owner"

definition remove_name :: "string \<Rightarrow> unit run" where
  [storage_defs]: "remove_name name = modify (\<lambda>s. s\<lparr>kName := (kName s)(name := None)\<rparr>)"

definition remove_name_of :: "address \<Rightarrow> unit run" where
  [storage_defs]: "remove_name_of owner = modify (\<lambda>s. s\<lparr>kNameOf := (kNameOf s)(owner := None)\<rparr>)"

definition get_commit :: "u32 \<Rightarrow> address \<Rightarrow> dao \<Rightarrow> bytes option" where
  [storage_defs]: "get_commit i voter s = kCommit s (i, voter)"

definition set_commit :: "u32 \<Rightarrow> address \<Rightarrow> bytes \<Rightarrow> unit run" where
  [storage_defs]: "set_commit i voter commitment = modify (\<lambda>s. s\<lparr>kCommit := (kCommit s)((i, voter) \<mapsto> commitment)\<rparr>)"

definition remove_commit :: "u32 \<Rightarrow> address \<Rightarrow> unit run" where
  [storage_defs]: "remove_commit i voter = modify (\<lambda>s. s\<lparr>kCommit := (kCommit s)((i, voter) := None)\<rparr>)"

definition get_yield_remainder :: "dao \<Rightarrow> i128" where
  [storage_defs]: "get_yield_remainder s = unwrap_or (kYieldRemainder s) 0"

definition set_yield_remainder :: "i128 \<Rightarrow> unit run" where
  [storage_defs]: "set_yield_remainder v = modify (\<lambda>s. s\<lparr>kYieldRemainder := Some v\<rparr>)"

definition get_delegation :: "address \<Rightarrow> dao \<Rightarrow> address option" where
  [storage_defs]: "get_delegation who s = kDelegation s who"

definition set_delegation :: "address \<Rightarrow> address \<Rightarrow> unit run" where
  [storage_defs]: "set_delegation who delegatee = modify (\<lambda>s. s\<lparr>kDelegation := (kDelegation s)(who \<mapsto> delegatee)\<rparr>)"

section \<open>Multi-token treasury\<close>

definition is_token_whitelisted :: "address \<Rightarrow> dao \<Rightarrow> bool" where
  "is_token_whitelisted token s \<longleftrightarrow>
     (if kToken s = Some token then True else kTokenWhitelisted s token \<noteq> None)"

definition set_token_whitelisted :: "address \<Rightarrow> bool \<Rightarrow> unit run" where
  "set_token_whitelisted token whitelisted = modify (\<lambda>s.
     let tokens = unwrap_or (kWhitelistedTokens s) [] in
     if whitelisted
     then s\<lparr>kTokenWhitelisted := (kTokenWhitelisted s)(token \<mapsto> True),
            kWhitelistedTokens := Some (if token \<in> set tokens then tokens else tokens @ [token])\<rparr>
     else s\<lparr>kTokenWhitelisted := (kTokenWhitelisted s)(token := None),
            kWhitelistedTokens := Some (case first_index_of token tokens of
                                        Some i \<Rightarrow> remove_at i tokens | None \<Rightarrow> tokens)\<rparr>)"

definition get_whitelisted_tokens :: "dao \<Rightarrow> address list" where
  "get_whitelisted_tokens s =
     (case kToken s of None \<Rightarrow> [] | Some base \<Rightarrow> [base]) @ unwrap_or (kWhitelistedTokens s) []"

definition get_pending_token_addition :: "address \<Rightarrow> dao \<Rightarrow> u64 option" where
  [storage_defs]: "get_pending_token_addition token s = kPendingTokenAddition s token"

definition set_pending_token_addition :: "address \<Rightarrow> u64 \<Rightarrow> unit run" where
  [storage_defs]: "set_pending_token_addition token execution_time =
     modify (\<lambda>s. s\<lparr>kPendingTokenAddition := (kPendingTokenAddition s)(token \<mapsto> execution_time)\<rparr>)"

definition remove_pending_token_addition :: "address \<Rightarrow> unit run" where
  [storage_defs]: "remove_pending_token_addition token =
     modify (\<lambda>s. s\<lparr>kPendingTokenAddition := (kPendingTokenAddition s)(token := None)\<rparr>)"

definition get_loan_asset :: "u32 \<Rightarrow> address run" where
  [storage_defs]: "get_loan_asset i =
     and_then (reads (\<lambda>s. kLoanAsset s i)) (\<lambda>v. case v of Some asset \<Rightarrow> ret asset | None \<Rightarrow> get_token)"

definition set_loan_asset :: "u32 \<Rightarrow> address \<Rightarrow> unit run" where
  [storage_defs]: "set_loan_asset i asset = modify (\<lambda>s. s\<lparr>kLoanAsset := (kLoanAsset s)(i \<mapsto> asset)\<rparr>)"

definition get_treasury_asset :: "u32 \<Rightarrow> address run" where
  [storage_defs]: "get_treasury_asset i =
     and_then (reads (\<lambda>s. kTreasuryAsset s i)) (\<lambda>v. case v of Some asset \<Rightarrow> ret asset | None \<Rightarrow> get_token)"

definition set_treasury_asset :: "u32 \<Rightarrow> address \<Rightarrow> unit run" where
  [storage_defs]: "set_treasury_asset i asset = modify (\<lambda>s. s\<lparr>kTreasuryAsset := (kTreasuryAsset s)(i \<mapsto> asset)\<rparr>)"

section \<open>The migration lock\<close>

definition is_seeding_locked :: "dao \<Rightarrow> bool" where
  [storage_defs]: "is_seeding_locked s = unwrap_or (kMigrationSeedingLocked s) False"

definition set_seeding_locked :: "unit run" where
  [storage_defs]: "set_seeding_locked = modify (\<lambda>s. s\<lparr>kMigrationSeedingLocked := Some True\<rparr>)"

definition set_next_proposal_id_at_least :: "u32 \<Rightarrow> unit run" where
  [storage_defs]: "set_next_proposal_id_at_least m =
     and_then (reads (get_proposal_count NextProposalId)) (\<lambda>current.
     when_do (m > current) (set_counter NextProposalId m))"

definition set_next_treasury_id_at_least :: "u32 \<Rightarrow> unit run" where
  [storage_defs]: "set_next_treasury_id_at_least m =
     and_then (reads (get_proposal_count NextTreasuryId)) (\<lambda>current.
     when_do (m > current) (set_counter NextTreasuryId m))"

section \<open>Runs of the compound accessors\<close>

lemma ok_load [ok_simps]: "load f s = Ok x t \<longleftrightarrow> f s = Some x \<and> t = s"
  by (auto simp: load_def ok_simps)

lemma err_load [err_simps]: "load f s = Err e t \<longleftrightarrow> False"
  by (auto simp: load_def err_simps)

lemma run_load [run_simps]: "load f s = (case f s of None \<Rightarrow> Panic | Some x \<Rightarrow> Ok x s)"
  by (simp add: load_def run_simps)

lemma ok_get_singletons [ok_simps]:
  "get_admins s = Ok a t \<longleftrightarrow> kAdmins s = Some a \<and> t = s"
  "get_threshold s = Ok n t \<longleftrightarrow> kThreshold s = Some n \<and> t = s"
  "get_membership_fee s = Ok x t \<longleftrightarrow> kMembershipFee s = Some x \<and> t = s"
  "get_token s = Ok b t \<longleftrightarrow> kToken s = Some b \<and> t = s"
  "get_policy s = Ok p t \<longleftrightarrow> kPolicy s = Some p \<and> t = s"
  by (auto simp: get_admins_def get_threshold_def get_membership_fee_def get_token_def
      get_policy_def ok_load)

lemma err_get_singletons [err_simps]:
  "get_admins s = Err e t \<longleftrightarrow> False" "get_threshold s = Err e t \<longleftrightarrow> False"
  "get_membership_fee s = Err e t \<longleftrightarrow> False" "get_token s = Err e t \<longleftrightarrow> False"
  "get_policy s = Err e t \<longleftrightarrow> False"
  by (auto simp: get_admins_def get_threshold_def get_membership_fee_def get_token_def
      get_policy_def err_load)

lemma keeps_load [keeps_intros]: "keeps P (load f)"
  by (simp add: load_def keeps_intros)

lemma ok_get_open_proposals [ok_simps]:
  "get_open_proposals env who s = Ok n t \<longleftrightarrow>
     n = count_open_proposals env who s \<and> t = s\<lparr>kOpenProposals := (kOpenProposals s)(who \<mapsto> n)\<rparr>"
  by (auto simp: get_open_proposals_def ok_simps)

lemma err_get_open_proposals [err_simps]: "get_open_proposals env who s = Err e t \<longleftrightarrow> False"
  by (simp add: get_open_proposals_def err_simps)

lemma ok_next_id [ok_simps]:
  "next_id key s = Ok i t \<longleftrightarrow>
     i = get_proposal_count key s \<and> i + 1 \<le> u32_MAX \<and> set_counter key (i + 1) s = Ok () t"
  by (auto simp: next_id_def ok_simps)

lemma err_next_id [err_simps]: "next_id key s = Err e t \<longleftrightarrow> False"
  by (simp add: next_id_def err_simps set_counter_def)

lemma ok_token_ops [ok_simps]:
  "token_balance env asset who s = Ok b t \<longleftrightarrow> env_is_token env asset \<and> b = ledger s asset who \<and> t = s"
  "token_transfer env asset a c n s = Ok u t \<longleftrightarrow>
     (\<exists>l. env_transfer env asset a c n (ledger s) = Some l \<and> t = s\<lparr>ledger := l\<rparr>)"
  by (auto simp: token_balance_def token_transfer_def ok_simps)

lemma err_token_ops [err_simps]:
  "token_balance env asset who s = Err e t \<longleftrightarrow> False"
  "token_transfer env asset a b n s = Err e t \<longleftrightarrow> False"
  by (auto simp: token_balance_def token_transfer_def err_simps)

lemma run_token_ops [run_simps]:
  "token_balance env asset who s = (if env_is_token env asset then Ok (ledger s asset who) s else Panic)"
  "token_transfer env asset a b n s =
     (case env_transfer env asset a b n (ledger s) of None \<Rightarrow> Panic | Some l \<Rightarrow> Ok () (s\<lparr>ledger := l\<rparr>))"
  by (simp_all add: token_balance_def token_transfer_def run_simps split: option.splits)

end
