(* ===== verification/Util.thy ===== *)
theory Util
  imports Storage
begin

text \<open>
  \<^verbatim>\<open>util.rs\<close>: the guards every entrypoint starts with, the treasury balances, the integer
  square root and the voting weight it feeds, ceiling division, the quorum bar, and the funds
  reserved for approved loans. The lemmas show that the square root is exact on every \<open>i128\<close>
  and never overflows its \<open>u128\<close> arithmetic, that the staking curve is the documented one, and
  that the quorum bar is the ceiling it is meant to be.
\<close>

section \<open>Guards\<close>

definition require_initialized :: "unit run" where
  "require_initialized = and_then (reads is_initialized) (\<lambda>b. reject_if (\<not> b) NotInitialized)"

definition require_not_paused :: "unit run" where
  "require_not_paused = and_then (reads is_paused) (\<lambda>b. reject_if b Paused)"

definition is_admin :: "address \<Rightarrow> bool run" where
  "is_admin who = and_then get_admins (\<lambda>admins. ret (who \<in> set admins))"

definition is_pauser :: "address \<Rightarrow> dao \<Rightarrow> bool" where
  "is_pauser who s = (get_pauser s = Some who)"

definition require_admin :: "env \<Rightarrow> address \<Rightarrow> unit run" where
  "require_admin env caller =
     seq (require_auth env caller)
     (and_then (is_admin caller) (\<lambda>b. reject_if (\<not> b) NotAdmin))"

definition active_member :: "address \<Rightarrow> member run" where
  "active_member who =
     and_then (reads (get_member who)) (\<lambda>v.
     case v of
       Some m \<Rightarrow> if m_status m = ActiveMember then ret m else throw MemberNotActive
     | None \<Rightarrow> throw NotMember)"

definition require_active_member :: "env \<Rightarrow> address \<Rightarrow> member run" where
  "require_active_member env caller = seq (require_auth env caller) (active_member caller)"

section \<open>Treasury balances\<close>

definition treasury_balance_for :: "env \<Rightarrow> address \<Rightarrow> i128 run" where
  "treasury_balance_for env asset = token_balance env asset (env_self env)"

definition treasury_balance_in_asset :: "env \<Rightarrow> address \<Rightarrow> i128 run" where
  "treasury_balance_in_asset env asset =
     and_then (treasury_balance_for env asset) (\<lambda>bal.
     and_then get_token (\<lambda>base.
     if asset = base
     then and_then (reads get_total_staked) (\<lambda>staked. i128_sub bal staked)
     else ret bal))"

definition treasury_balance :: "env \<Rightarrow> i128 run" where
  "treasury_balance env = and_then get_token (treasury_balance_in_asset env)"

section \<open>Square root and voting weight\<close>

definition STAKE_WEIGHT_UNIT :: i128 where [simp]: "STAKE_WEIGHT_UNIT = 100"
definition MAX_STAKE_BONUS :: i128 where [simp]: "MAX_STAKE_BONUS = 5"
definition BASE_VOTE_WEIGHT :: i128 where [simp]: "BASE_VOTE_WEIGHT = 1"

text \<open>\<open>u128\<close> values are natural numbers; the operators trap outside 128 bits.\<close>

type_synonym u128 = nat

definition u128_MAX :: u128 where "u128_MAX = 2 ^ 128 - 1"

definition u128_add :: "u128 \<Rightarrow> u128 \<Rightarrow> u128 run" where
  "u128_add a b = (if a + b \<le> u128_MAX then ret (a + b) else panic)"

definition u128_sub :: "u128 \<Rightarrow> u128 \<Rightarrow> u128 run" where
  "u128_sub a b = (if b \<le> a then ret (a - b) else panic)"

definition u128_as_i128 :: "u128 \<Rightarrow> i128" where
  "u128_as_i128 r = (if r < 2 ^ 127 then int r else int r - 2 ^ 128)"

text \<open>\<open>while bit > remainder { bit >>= 2 }\<close>\<close>

function isqrt_first_bit :: "u128 \<Rightarrow> u128 \<Rightarrow> u128" where
  "isqrt_first_bit remainder bt =
     (if bt > remainder then isqrt_first_bit remainder (bt div 4) else bt)"
  by pat_completeness auto
termination
  by (relation "measure snd") auto

declare isqrt_first_bit.simps [simp del]

text \<open>\<open>while bit != 0 { ... }\<close>\<close>

function isqrt_loop :: "u128 \<Rightarrow> u128 \<Rightarrow> u128 \<Rightarrow> u128 run" where
  "isqrt_loop remainder root bt =
     (if bt \<noteq> 0 then
        and_then (u128_add root bt) (\<lambda>t.
        if remainder \<ge> t
        then and_then (u128_sub remainder t) (\<lambda>r.
             and_then (u128_add (root div 2) bt) (\<lambda>root'.
             isqrt_loop r root' (bt div 4)))
        else isqrt_loop remainder (root div 2) (bt div 4))
      else ret root)"
  by pat_completeness auto
termination
  by (relation "measure (\<lambda>(remainder, root, bt). bt)") auto

declare isqrt_loop.simps [simp del]

definition isqrt :: "i128 \<Rightarrow> i128 run" where
  "isqrt n =
     (if n \<le> 0 then ret 0
      else and_then (isqrt_loop (nat n) 0 (isqrt_first_bit (nat n) (2 ^ 126))) (\<lambda>root.
           ret (u128_as_i128 root)))"

definition stake_boost :: "i128 \<Rightarrow> i128 run" where
  "stake_boost staked =
     (if staked \<le> 0 then ret 0
      else and_then (isqrt (staked sdiv STAKE_WEIGHT_UNIT)) (\<lambda>r. ret (min r MAX_STAKE_BONUS)))"

definition own_weight :: "address \<Rightarrow> i128 run" where
  "own_weight who =
     and_then (reads (get_stake who)) (\<lambda>staked.
     and_then (stake_boost staked) (\<lambda>boost. i128_add BASE_VOTE_WEIGHT boost))"

definition add_delegated :: "address \<Rightarrow> address \<Rightarrow> i128 \<Rightarrow> i128 run" where
  "add_delegated who m acc =
     and_then (reads (get_delegation m)) (\<lambda>d.
     if d = Some who then and_then (own_weight m) (\<lambda>w. i128_add acc w) else ret acc)"

definition voting_weight :: "address \<Rightarrow> i128 run" where
  "voting_weight who =
     and_then (reads (get_delegation who)) (\<lambda>d.
     if d \<noteq> None then ret 0
     else and_then (own_weight who) (\<lambda>acc.
          and_then (reads get_members) (\<lambda>members. fold_prog (add_delegated who) members acc)))"

text \<open>The readings of the voting weight and its two constants for clients.\<close>

definition get_voting_weight :: "address \<Rightarrow> i128 run" where
  "get_voting_weight who = voting_weight who"

definition get_stake_weight_unit :: i128 where
  "get_stake_weight_unit = STAKE_WEIGHT_UNIT"

definition get_max_stake_bonus :: i128 where
  "get_max_stake_bonus = MAX_STAKE_BONUS"

section \<open>Division, quorum, reservations\<close>

definition ceil_div_nonnegative :: "i128 \<Rightarrow> i128 \<Rightarrow> i128 run" where
  "ceil_div_nonnegative v divisor =
     seq (assert_that (v \<ge> 0 \<and> divisor > 0))
     (i128_add (v sdiv divisor) (if v smod divisor \<noteq> 0 then 1 else 0))"

definition required_votes :: "u32 \<Rightarrow> u32 \<Rightarrow> i128 run" where
  "required_votes active_members threshold_bps =
     and_then (i128_mul (int active_members) (int threshold_bps)) (\<lambda>x.
     and_then (i128_add x BASIS_POINTS) (\<lambda>y.
     and_then (i128_sub y 1) (\<lambda>z. ret (z sdiv BASIS_POINTS))))"

definition add_reserved :: "address \<Rightarrow> u32 \<Rightarrow> i128 \<Rightarrow> i128 run" where
  "add_reserved asset i acc =
     and_then (reads (get_loan_proposal i)) (\<lambda>v.
     case v of
       None \<Rightarrow> ret acc
     | Some p \<Rightarrow>
         if p_status p = ApprovedPendingDisbursement
         then and_then (get_loan_asset i) (\<lambda>a. if a = asset then i128_add acc (p_amount p) else ret acc)
         else ret acc)"

definition reserved_loan_commitments :: "address \<Rightarrow> i128 run" where
  "reserved_loan_commitments asset =
     and_then (reads (get_proposal_count NextProposalId)) (\<lambda>count.
     fold_prog (add_reserved asset) [0..<count] 0)"

section \<open>The square root is exact\<close>

lemma ok_u128_ops [ok_simps]:
  "u128_add a b s = Ok z t \<longleftrightarrow> a + b \<le> u128_MAX \<and> z = a + b \<and> t = s"
  "u128_sub a b s = Ok z t \<longleftrightarrow> b \<le> a \<and> z = a - b \<and> t = s"
  by (auto simp: u128_add_def u128_sub_def ok_simps)

lemma run_u128_ops [run_simps]:
  "u128_add a b s = (if a + b \<le> u128_MAX then Ok (a + b) s else Panic)"
  "u128_sub a b s = (if b \<le> a then Ok (a - b) s else Panic)"
  by (simp_all add: u128_add_def u128_sub_def run_simps)

text \<open>
  The scan for the first bit starts at \<open>2 ^ 126 = 4 ^ 63\<close> and stops at the largest power of
  four that is at most the radicand.
\<close>

lemma isqrt_first_bit_power:
  "0 < n \<Longrightarrow> n < 4 ^ (k + 1) \<Longrightarrow>
   \<exists>j \<le> k. isqrt_first_bit n (4 ^ k) = 4 ^ j \<and> 4 ^ j \<le> n \<and> n < 4 ^ (j + 1)"
proof (induction k)
  case 0
  then show ?case by (simp add: isqrt_first_bit.simps [of n "Suc 0"])
next
  case (Suc k)
  show ?case
  proof (cases "4 ^ Suc k > n")
    case True
    with Suc show ?thesis
      by (auto simp: isqrt_first_bit.simps [of n "4 * 4 ^ k"] intro: le_SucI)
  next
    case False
    with Suc.prems show ?thesis
      by (intro exI [of _ "Suc k"]) (simp add: isqrt_first_bit.simps [of n "4 * 4 ^ k"])
  qed
qed

text \<open>
  The invariant of the main loop, with \<open>R\<close> the part of the root found so far: \<open>root\<close> holds
  \<open>2 R 2^k\<close>, \<open>remainder\<close> holds \<open>n - R^2\<close>, and the true root lies in \<open>[R, R + 2^(k+1))\<close>.
\<close>

lemma four_power: "(4::nat) ^ k = 2 ^ k * 2 ^ k"
  by (induction k) simp_all

lemma isqrt_sum_bound:
  fixes n R k :: nat
  assumes "R * R \<le> n" and "R = 0 \<or> 4 ^ (k + 1) \<le> n" and "4 ^ k \<le> n" and "n < 2 ^ 127"
  shows "R * 2 ^ (k + 1) + 4 ^ k \<le> u128_MAX"
proof -
  have "R * 2 ^ (k + 1) \<le> n"
  proof (cases "R = 0")
    case False
    from False assms(2) have "4 ^ (k + 1) \<le> n" by blast
    then have "2 ^ (k + 1) * 2 ^ (k + 1) \<le> n" by (simp only: four_power)
    with assms(1) have "(R * R) * (2 ^ (k + 1) * 2 ^ (k + 1)) \<le> n * n"
      by (rule mult_le_mono)
    then have "(R * 2 ^ (k + 1)) ^ 2 \<le> n ^ 2"
      by (simp add: power2_eq_square mult.commute mult.left_commute)
    then show ?thesis by (rule power2_le_imp_le) simp
  qed simp
  with assms(3,4) show ?thesis by (simp add: u128_MAX_def)
qed

lemma isqrt_loop_correct:
  fixes n R k :: nat
  assumes "R * R \<le> n" and "n < (R + 2 ^ (k + 1)) * (R + 2 ^ (k + 1))"
    and "R = 0 \<or> 4 ^ (k + 1) \<le> n" and "4 ^ k \<le> n" and "n < 2 ^ 127"
  shows "\<exists>r. isqrt_loop (n - R * R) (R * 2 ^ (k + 1)) (4 ^ k) s = Ok r s
             \<and> r * r \<le> n \<and> n < (r + 1) * (r + 1)"
  using assms
proof (induction k arbitrary: R)
  case 0
  have b: "R * 2 + 1 \<le> u128_MAX" using isqrt_sum_bound [OF 0(1,3,4,5)] by simp
  have fin: "isqrt_loop m r 0 s = Ok r s" for m r
    by (simp add: isqrt_loop.simps run_simps)
  show ?case
  proof (cases "R * 2 + 1 \<le> n - R * R")
    case True
    then have "(R + 1) * (R + 1) \<le> n" using 0(1) by (simp add: algebra_simps)
    with True b 0 show ?thesis
      by (subst isqrt_loop.simps) (simp add: run_simps fin)
  next
    case False
    then have "n < (R + 1) * (R + 1)" using 0(1) by (simp add: algebra_simps)
    with False b 0 show ?thesis
      by (subst isqrt_loop.simps) (simp add: run_simps fin)
  qed
next
  case (Suc k)
  let ?b = "2 ^ Suc k :: nat"
  have b: "R * 2 ^ (Suc k + 1) + 4 ^ Suc k \<le> u128_MAX"
    using isqrt_sum_bound [OF Suc.prems(1,3,4,5)] .
  have sq: "(4::nat) ^ Suc k = ?b * ?b" by (rule four_power)
  have half: "R * 2 ^ Suc (Suc k) div 2 = R * ?b" "(4::nat) ^ Suc k div 4 = 4 ^ k" by simp_all
  have k4: "4 ^ k \<le> n" using Suc.prems(4) by simp
  show ?case
  proof (cases "R * 2 ^ (Suc k + 1) + 4 ^ Suc k \<le> n - R * R")
    case True
    define Q where "Q = R + ?b"
    have QQ: "Q * Q = R * R + (R * 2 ^ (Suc k + 1) + 4 ^ Suc k)"
      by (simp add: Q_def four_power [of k] algebra_simps)
    have Q1: "Q * Q \<le> n" using True Suc.prems(1) QQ by linarith
    have Q2: "n < (Q + 2 ^ (k + 1)) * (Q + 2 ^ (k + 1))"
      using Suc.prems(2) by (simp add: Q_def algebra_simps)
    have rest: "n - R * R - (R * 2 ^ (Suc k + 1) + 4 ^ Suc k) = n - Q * Q" using QQ by simp
    have root: "R * ?b + 4 ^ Suc k = Q * 2 ^ (k + 1)" by (simp add: Q_def four_power [of k] algebra_simps)
    have le: "R * ?b + 4 ^ Suc k \<le> u128_MAX" using b by (simp add: algebra_simps)
    have big: "Q = 0 \<or> 4 ^ (k + 1) \<le> n" using Suc.prems(4) by simp
    from Suc.IH [OF Q1 Q2 big k4 Suc.prems(5)]
    obtain r where r: "isqrt_loop (n - Q * Q) (Q * 2 ^ (k + 1)) (4 ^ k) s = Ok r s"
      "r * r \<le> n" "n < (r + 1) * (r + 1)" by blast
    have "isqrt_loop (n - R * R) (R * 2 ^ (Suc k + 1)) (4 ^ Suc k) s = Ok r s"
      using True b le r(1) unfolding root [symmetric] rest [symmetric]
      by (subst isqrt_loop.simps) (simp add: run_simps half del: power_Suc)
    with r show ?thesis by blast
  next
    case False
    have R2: "n < (R + 2 ^ (k + 1)) * (R + 2 ^ (k + 1))"
      using False Suc.prems(1) by (simp add: four_power [of k] algebra_simps)
    have big: "R = 0 \<or> 4 ^ (k + 1) \<le> n" using Suc.prems(4) by simp
    from Suc.IH [OF Suc.prems(1) R2 big k4 Suc.prems(5)]
    obtain r where r: "isqrt_loop (n - R * R) (R * 2 ^ (k + 1)) (4 ^ k) s = Ok r s"
      "r * r \<le> n" "n < (r + 1) * (r + 1)" by blast
    have "isqrt_loop (n - R * R) (R * 2 ^ (Suc k + 1)) (4 ^ Suc k) s = Ok r s"
      using False b r(1)
      by (subst isqrt_loop.simps) (simp add: run_simps half del: power_Suc)
    with r show ?thesis by blast
  qed
qed

lemma isqrt_exact:
  assumes "in_i128 n"
  shows "\<exists>r. isqrt n s = Ok r s \<and> 0 \<le> r \<and> (n \<le> 0 \<longrightarrow> r = 0) \<and>
              (0 \<le> n \<longrightarrow> r * r \<le> n \<and> n < (r + 1) * (r + 1))"
proof (cases "n \<le> 0")
  case True
  then show ?thesis by (simp add: isqrt_def run_simps)
next
  case False
  define m where "m = nat n"
  have m: "0 < m" "m < 2 ^ 127" "int m = n"
    using False assms by (auto simp: m_def int_bounds)
  have "\<exists>j \<le> 63. isqrt_first_bit m (4 ^ 63) = 4 ^ j \<and> 4 ^ j \<le> m \<and> m < 4 ^ (j + 1)"
    using m by (intro isqrt_first_bit_power) simp_all
  then obtain j where j: "isqrt_first_bit m (4 ^ 63) = 4 ^ j" "4 ^ j \<le> m" "m < 4 ^ (j + 1)"
    by blast
  from j(3) have "m < (0 + 2 ^ (j + 1)) * (0 + 2 ^ (j + 1))" by (simp add: four_power)
  from isqrt_loop_correct [of 0 m j s] this j(2) m(2)
  obtain r where r: "isqrt_loop m 0 (4 ^ j) s = Ok r s" "r * r \<le> m" "m < (r + 1) * (r + 1)"
    by auto
  have "r < 2 ^ 127"
  proof (rule ccontr)
    assume "\<not> r < 2 ^ 127"
    then have "2 ^ 127 * 2 ^ 127 \<le> r * r" by (intro mult_le_mono) simp_all
    with r(2) m(2) show False by simp
  qed
  then have run: "isqrt n s = Ok (int r) s"
    using False j(1) r(1) by (simp add: isqrt_def run_simps m_def u128_as_i128_def)
  have "int (r * r) \<le> int m" "int m < int ((r + 1) * (r + 1))"
    using r(2,3) by (simp_all only: of_nat_le_iff of_nat_less_iff)
  then have "int r * int r \<le> n" "n < (int r + 1) * (int r + 1)"
    using m(3) by (simp_all add: algebra_simps)
  with run False show ?thesis by auto
qed

section \<open>The staking curve\<close>

text \<open>
  The curve as the README tabulates it: \<open>k\<close> bonus votes from \<open>100 k^2\<close> staked tokens on, at
  most five.
\<close>

definition boost_table :: "i128 \<Rightarrow> i128" where
  "boost_table staked =
     (if staked < 100 then 0 else if staked < 400 then 1 else if staked < 900 then 2
      else if staked < 1600 then 3 else if staked < 2500 then 4 else 5)"

lemma boost_table_bounds: "0 \<le> boost_table x" "boost_table x \<le> 5"
  by (simp_all add: boost_table_def)

lemma boost_table_mono: "x \<le> y \<Longrightarrow> boost_table x \<le> boost_table y"
  by (simp add: boost_table_def)

text \<open>An integer with \<open>r^2 \<le> q < (r + 1)^2\<close> is the square root band of \<open>q\<close>.\<close>

lemma sqrt_band:
  fixes r q :: int
  assumes "0 \<le> r" "r * r \<le> q" "q < (r + 1) * (r + 1)" "0 \<le> k"
  shows "k \<le> r \<longleftrightarrow> k * k \<le> q"
proof
  assume "k \<le> r"
  then have "k * k \<le> r * r" using assms by (intro mult_mono) auto
  with assms show "k * k \<le> q" by linarith
next
  assume "k * k \<le> q"
  show "k \<le> r"
  proof (rule ccontr)
    assume "\<not> k \<le> r"
    then have "(r + 1) * (r + 1) \<le> k * k" using assms by (intro mult_mono) auto
    with \<open>k * k \<le> q\<close> assms show False by linarith
  qed
qed

lemma stake_boost_table:
  assumes "in_i128 staked"
  shows "stake_boost staked s = Ok (boost_table staked) s"
proof (cases "staked \<le> 0")
  case True
  then show ?thesis by (simp add: stake_boost_def boost_table_def run_simps)
next
  case False
  define q where "q = staked div 100"
  have q: "0 \<le> q" "staked sdiv 100 = q" "in_i128 q"
    using False assms by (auto simp: q_def sdiv_nonneg int_bounds)
  from isqrt_exact [OF q(3)] q(1)
  obtain r where r: "isqrt q s = Ok r s" "0 \<le> r" "r * r \<le> q" "q < (r + 1) * (r + 1)" by blast
  have band: "k \<le> r \<longleftrightarrow> k * k \<le> q" if "0 \<le> k" for k
    using sqrt_band [OF r(2,3,4) that] .
  have "min r 5 = boost_table staked"
    using band [of 1] band [of 2] band [of 3] band [of 4] band [of 5] r(2)
    by (auto simp: boost_table_def q_def)
  with False r(1) q(2) show ?thesis by (simp add: stake_boost_def run_simps)
qed

section \<open>Runs of the guards\<close>

named_theorems dao_defs \<open>the component definitions, for evaluation\<close>

lemmas util_defs [dao_defs] =
  require_initialized_def require_not_paused_def is_admin_def is_pauser_def require_admin_def
  active_member_def require_active_member_def treasury_balance_for_def
  treasury_balance_in_asset_def treasury_balance_def own_weight_def add_delegated_def
  voting_weight_def ceil_div_nonnegative_def required_votes_def add_reserved_def
  reserved_loan_commitments_def require_auth_def publish_def

lemma ok_guards [ok_simps]:
  "require_initialized s = Ok u t \<longleftrightarrow> is_initialized s \<and> t = s"
  "require_not_paused s = Ok u t \<longleftrightarrow> \<not> is_paused s \<and> t = s"
  "require_auth env who s = Ok u t \<longleftrightarrow> env_auth env who \<and> t = s"
  "is_admin who s = Ok b t \<longleftrightarrow> (\<exists>admins. kAdmins s = Some admins \<and> b = (who \<in> set admins)) \<and> t = s"
  "require_admin env who s = Ok u t \<longleftrightarrow>
     env_auth env who \<and> (\<exists>admins. kAdmins s = Some admins \<and> who \<in> set admins) \<and> t = s"
  by (auto simp: util_defs ok_simps storage_defs)

lemma ok_active_member [ok_simps]:
  "active_member who s = Ok m t \<longleftrightarrow> kMember s who = Some m \<and> m_status m = ActiveMember \<and> t = s"
  by (auto simp: util_defs ok_simps storage_defs split: option.splits if_splits)

lemma ok_require_active_member [ok_simps]:
  "require_active_member env who s = Ok m t \<longleftrightarrow>
     env_auth env who \<and> kMember s who = Some m \<and> m_status m = ActiveMember \<and> t = s"
  by (auto simp: require_active_member_def ok_simps)

lemma err_guards [err_simps]:
  "require_initialized s = Err e t \<longleftrightarrow> \<not> is_initialized s \<and> e = NotInitialized \<and> t = s"
  "require_not_paused s = Err e t \<longleftrightarrow> is_paused s \<and> e = Paused \<and> t = s"
  "require_auth env who s = Err e t \<longleftrightarrow> False"
  "is_admin who s = Err e t \<longleftrightarrow> False"
  "require_admin env who s = Err e t \<longleftrightarrow>
     env_auth env who \<and> (\<exists>admins. kAdmins s = Some admins \<and> who \<notin> set admins) \<and> e = NotAdmin \<and> t = s"
  by (auto simp: util_defs ok_simps err_simps storage_defs)

lemma err_active_member [err_simps]:
  "active_member who s = Err e t \<longleftrightarrow>
     t = s \<and> (case kMember s who of
               None \<Rightarrow> e = NotMember
             | Some m \<Rightarrow> m_status m \<noteq> ActiveMember \<and> e = MemberNotActive)"
  by (auto simp: util_defs ok_simps err_simps storage_defs split: option.splits)

lemma err_require_active_member [err_simps]:
  "require_active_member env who s = Err e t \<longleftrightarrow> env_auth env who \<and> active_member who s = Err e t"
  by (auto simp: require_active_member_def ok_simps err_simps)

lemma keeps_guards [keeps_intros]:
  "keeps P require_initialized" "keeps P require_not_paused" "keeps P (require_auth env who)"
  "keeps P (is_admin who)" "keeps P (require_admin env who)" "keeps P (active_member who)"
  "keeps P (require_active_member env who)"
  by (auto intro!: keepsI simp: ok_simps err_simps)

section \<open>Runs of the balances, quorum and reservations\<close>

text \<open>What the treasury can spend of an asset: the base token less the staked amount.\<close>

definition spendable :: "env \<Rightarrow> address \<Rightarrow> dao \<Rightarrow> i128" where
  "spendable env asset s =
     ledger s asset (env_self env) - (if kToken s = Some asset then get_total_staked s else 0)"

text \<open>The asset of a proposal: its own entry, or the base token.\<close>

definition asset_of :: "(u32 \<rightharpoonup> address) \<Rightarrow> u32 \<Rightarrow> dao \<Rightarrow> address" where
  "asset_of assets i s = (case assets i of Some a \<Rightarrow> a | None \<Rightarrow> the (kToken s))"

lemma ok_treasury_balance_in_asset [ok_simps]:
  "treasury_balance_in_asset env asset s = Ok b t \<longleftrightarrow>
     t = s \<and> env_is_token env asset \<and> kToken s \<noteq> None \<and> b = spendable env asset s \<and>
     (kToken s = Some asset \<longrightarrow> in_i128 b)"
  by (auto simp: util_defs ok_simps storage_defs spendable_def)

lemma err_treasury_balance_in_asset [err_simps]:
  "treasury_balance_in_asset env asset s = Err e t \<longleftrightarrow> False"
  by (auto simp: util_defs err_simps ok_simps storage_defs)

lemma ok_treasury_balance [ok_simps]:
  "treasury_balance env s = Ok b t \<longleftrightarrow>
     t = s \<and> (\<exists>base. kToken s = Some base \<and> env_is_token env base \<and>
       b = spendable env base s \<and> in_i128 b)"
  by (auto simp: treasury_balance_def get_token_def ok_simps)

lemma err_treasury_balance [err_simps]: "treasury_balance env s = Err e t \<longleftrightarrow> False"
  by (auto simp: treasury_balance_def get_token_def err_simps)

lemma ok_get_assets [ok_simps]:
  "get_loan_asset i s = Ok a t \<longleftrightarrow>
     t = s \<and> (kLoanAsset s i = None \<longrightarrow> kToken s \<noteq> None) \<and> a = asset_of (kLoanAsset s) i s"
  "get_treasury_asset i s = Ok a t \<longleftrightarrow>
     t = s \<and> (kTreasuryAsset s i = None \<longrightarrow> kToken s \<noteq> None) \<and> a = asset_of (kTreasuryAsset s) i s"
  by (auto simp: storage_defs ok_simps asset_of_def split: option.splits)

lemma err_get_assets [err_simps]:
  "get_loan_asset i s = Err e t \<longleftrightarrow> False"
  "get_treasury_asset i s = Err e t \<longleftrightarrow> False"
  by (auto simp: storage_defs err_simps split: option.splits)

lemma ok_ceil_div [ok_simps]:
  "ceil_div_nonnegative v d s = Ok r t \<longleftrightarrow>
     0 \<le> v \<and> 0 < d \<and> in_i128 r \<and> r = v div d + (if v mod d = 0 then 0 else 1) \<and> t = s"
  by (auto simp: ceil_div_nonnegative_def ok_simps sdiv_nonneg smod_nonneg)

lemma err_ceil_div [err_simps]: "ceil_div_nonnegative v d s = Err e t \<longleftrightarrow> False"
  by (simp add: ceil_div_nonnegative_def err_simps)

text \<open>The mathematical ceiling: the least integer whose multiple reaches the numerator.\<close>

lemma ceil_div_le_iff:
  fixes v d k :: int
  assumes "0 < d"
  shows "v div d + (if v mod d = 0 then 0 else 1) \<le> k \<longleftrightarrow> v \<le> k * d"
proof -
  have v: "v = v div d * d + v mod d" by simp
  have m: "0 \<le> v mod d" "v mod d < d" using assms by simp_all
  show ?thesis
  proof (cases "v mod d = 0")
    case True
    with v have "v \<le> k * d \<longleftrightarrow> v div d * d \<le> k * d" by simp
    with True assms show ?thesis by (simp add: mult_le_cancel_right)
  next
    case False
    have "v \<le> k * d" if "v div d + 1 \<le> k"
    proof -
      have "(v div d + 1) * d \<le> k * d" using that assms by (intro mult_right_mono) auto
      then have "v div d * d + d \<le> k * d" by (simp add: distrib_right)
      then show ?thesis using v m(2) by linarith
    qed
    moreover have "v div d + 1 \<le> k" if "v \<le> k * d"
    proof (rule ccontr)
      assume "\<not> v div d + 1 \<le> k"
      then have "k * d \<le> v div d * d" using assms by (intro mult_right_mono) auto
      with that v False m(1) show False by linarith
    qed
    ultimately show ?thesis using False by auto
  qed
qed

lemma required_votes_eq:
  "required_votes n bps s = Ok r t \<longleftrightarrow>
     in_i128 (int n * int bps) \<and> in_i128 (int n * int bps + 10000) \<and> in_i128 (int n * int bps + 9999) \<and>
     r = (int n * int bps + 9999) div 10000 \<and> t = s"
proof -
  define x where "x = int n * int bps"
  have "(x + 9999) sdiv 10000 = (x + 9999) div 10000" by (rule sdiv_nonneg) (simp_all add: x_def)
  moreover have "x + 10000 - 1 = x + 9999" by simp
  ultimately show ?thesis
    unfolding required_votes_def ok_simps BASIS_POINTS_def x_def [symmetric] by metis
qed

text \<open>The ceiling with the \<open>(x + 9999) / 10000\<close> idiom: the bar is met exactly when the votes reach the share.\<close>

lemma ceil_bps_le_iff: "(x + 9999) div 10000 \<le> v \<longleftrightarrow> x \<le> v * (10000::int)"
  by linarith

lemma required_votes_runs:
  assumes "n \<le> u32_MAX" "bps \<le> u32_MAX"
  shows "required_votes n bps s = Ok ((int n * int bps + 9999) div 10000) s"
proof -
  define x where "x = int n * int bps"
  have "x \<le> (2 ^ 32 - 1) * (2 ^ 32 - 1)" unfolding x_def
    using assms by (intro mult_mono) (auto simp: u32_MAX_def)
  moreover have "0 \<le> x" by (simp add: x_def)
  ultimately have "in_i128 x \<and> in_i128 (x + 10000) \<and> in_i128 (x + 9999)"
    by (simp add: int_bounds)
  then show ?thesis unfolding x_def required_votes_eq by simp
qed

lemma err_required_votes [err_simps]: "required_votes n bps s = Err e t \<longleftrightarrow> False"
  by (simp add: required_votes_def err_simps)

lemma keeps_util [keeps_intros]:
  "keeps P (treasury_balance_in_asset env asset)" "keeps P (treasury_balance env)"
  "keeps P (get_loan_asset i)" "keeps P (get_treasury_asset i)"
  "keeps P (ceil_div_nonnegative v d)" "keeps P (token_balance env asset who)"
  by (auto intro!: keepsI simp: ok_simps err_simps)

lemma keeps_required_votes [keeps_intros]: "keeps P (required_votes n bps)"
  by (auto simp: required_votes_def intro!: keeps_intros)

section \<open>Runs of the voting weight\<close>

definition stakes_typed :: "dao \<Rightarrow> bool" where
  "stakes_typed s \<longleftrightarrow> (\<forall>a n. kStake s a = Some n \<longrightarrow> in_i128 n)"

definition member_weight :: "address \<Rightarrow> dao \<Rightarrow> i128" where
  "member_weight who s = 1 + boost_table (get_stake who s)"

definition weight_of :: "address \<Rightarrow> dao \<Rightarrow> i128" where
  "weight_of who s =
     (if kDelegation s who \<noteq> None then 0
      else member_weight who s +
           (\<Sum>m\<leftarrow>get_members s. if kDelegation s m = Some who then member_weight m s else 0))"

lemma isqrt_loop_pure [keeps_intros, no_err_intros]:
  "keeps P (isqrt_loop m r b)" "no_err (isqrt_loop m r b)"
proof (induction m r b rule: isqrt_loop.induct)
  case (1 m r b)
  note u128_ops = u128_add_def u128_sub_def
  {
    case 1
    show ?case by (subst isqrt_loop.simps) (auto intro!: keeps_intros "1.IH" simp: u128_ops)
  next
    case 2
    show ?case by (subst isqrt_loop.simps) (auto intro!: no_err_intros "1.IH" simp: u128_ops)
  }
qed

lemma weights_pure [keeps_intros, no_err_intros]:
  "keeps P (own_weight who)" "no_err (own_weight who)"
  "keeps P (voting_weight who)" "no_err (voting_weight who)"
  by (auto simp: util_defs stake_boost_def isqrt_def intro!: keeps_intros no_err_intros)

lemmas err_weights [err_simps] = weights_pure(2) [THEN no_errD] weights_pure(4) [THEN no_errD]

lemma own_weight_runs:
  assumes "stakes_typed s"
  shows "own_weight who s = Ok (member_weight who s) s"
proof -
  have "in_i128 (get_stake who s)"
    using assms by (auto simp: stakes_typed_def storage_defs unwrap_or_def int_bounds split: option.splits)
  then show ?thesis
    using boost_table_bounds [of "get_stake who s"]
    by (simp add: own_weight_def run_simps stake_boost_table member_weight_def int_bounds)
qed

lemma member_weight_bounds: "1 \<le> member_weight who s" "member_weight who s \<le> 6"
  using boost_table_bounds [of "get_stake who s"] by (simp_all add: member_weight_def)

lemma ok_voting_weight:
  assumes "stakes_typed s" and "voting_weight who s = Ok w t"
  shows "t = s" and "w = weight_of who s"
proof -
  let ?f = "\<lambda>m. if kDelegation s m = Some who then member_weight m s else 0"
  have step: "add_delegated who m acc s = Ok v u \<longleftrightarrow> (?f m \<noteq> 0 \<longrightarrow> in_i128 v) \<and> v = acc + ?f m \<and> u = s"
    for m acc v u
    using member_weight_bounds [of m s]
    by (auto simp: add_delegated_def ok_simps storage_defs own_weight_runs [OF assms(1)])
  have fold: "fold_prog (add_delegated who) ms acc s = Ok w t \<Longrightarrow> t = s \<and> w = acc + sum_list (map ?f ms)"
    for ms acc
    by (induction ms arbitrary: acc) (fastforce simp: ok_simps step)+
  have "t = s \<and> w = weight_of who s"
  proof (cases "kDelegation s who")
    case None
    with assms(2) have "fold_prog (add_delegated who) (get_members s) (member_weight who s) s = Ok w t"
      by (simp add: voting_weight_def ok_simps get_delegation_def own_weight_runs [OF assms(1)])
    with None fold show ?thesis by (simp add: weight_of_def)
  qed (use assms(2) in \<open>auto simp: voting_weight_def ok_simps get_delegation_def weight_of_def\<close>)
  then show "t = s" "w = weight_of who s" by auto
qed

lemma voting_weight_runs:
  assumes "stakes_typed s" and "length (get_members s) \<le> u32_MAX"
  shows "voting_weight who s = Ok (weight_of who s) s"
proof -
  let ?f = "\<lambda>m. if kDelegation s m = Some who then member_weight m s else 0"
  have fold: "fold_prog (add_delegated who) ms acc s = Ok (acc + sum_list (map ?f ms)) s"
    if "0 \<le> acc" "acc + 6 * int (length ms) \<le> i128_MAX" for ms acc
    using that
  proof (induction ms arbitrary: acc)
    case (Cons m ms)
    have f: "0 \<le> ?f m" "?f m \<le> 6" using member_weight_bounds [of m s] by auto
    have step: "add_delegated who m acc s = Ok (acc + ?f m) s"
      using Cons.prems f
      by (auto simp: add_delegated_def run_simps storage_defs own_weight_runs [OF assms(1)] int_bounds)
    have "fold_prog (add_delegated who) ms (acc + ?f m) s = Ok (acc + ?f m + sum_list (map ?f ms)) s"
      using Cons.prems f by (intro Cons.IH) auto
    with step show ?case by (simp add: run_simps algebra_simps)
  qed (simp add: run_simps)
  show ?thesis
  proof (cases "kDelegation s who")
    case None
    have "fold_prog (add_delegated who) (get_members s) (member_weight who s) s = Ok (weight_of who s) s"
      using fold [of "member_weight who s" "get_members s"] assms(2) None member_weight_bounds [of who s]
      by (simp add: weight_of_def u32_MAX_def i128_MAX_def)
    with None show ?thesis
      by (simp add: voting_weight_def run_simps get_delegation_def own_weight_runs [OF assms(1)])
  qed (simp add: voting_weight_def run_simps get_delegation_def weight_of_def)
qed

end
