(* ===== verification/Frame.thy ===== *)
theory Frame
  imports Util
begin

text \<open>
  The frame calculus: which storage keys a program may write. \<open>writes F m\<close> says that every
  state \<open>m\<close> hands back agrees with the state it started from outside the keys \<open>F\<close>. The
  footprint of an entrypoint is computed once; a predicate that only reads keys outside a
  footprint is then kept without opening the definition of the entrypoint again.
\<close>

section \<open>Storage keys\<close>

datatype field =
    FAdmins
  | FThreshold
  | FMembershipFee
  | FToken
  | FPolicy
  | FPaused
  | FPauser
  | FMembers
  | FTotalMembers
  | FActiveMembers
  | FNextProposalId
  | FNextTreasuryId
  | FTotalStaked
  | FPendingPolicyUpdate
  | FMember
  | FLoanProposal
  | FLoan
  | FTreasuryProposal
  | FLoanVoted
  | FStakeTime
  | FTreasuryVoted
  | FStake
  | FOpenProposals
  | FYieldAccumulator
  | FYieldRemainder
  | FMemberYieldSnapshot
  | FDoc
  | FName
  | FNameOf
  | FCommit
  | FTotalContributions
  | FActiveContributions
  | FDelegation
  | FTokenWhitelisted
  | FWhitelistedTokens
  | FPendingTokenAddition
  | FLoanAsset
  | FTreasuryAsset
  | FMigrationSeedingLocked
  | FLedger
  | FEvents

text \<open>Two states have the same value under a key.\<close>

primrec same :: "field \<Rightarrow> dao \<Rightarrow> dao \<Rightarrow> bool" where
  "same FAdmins s t = (kAdmins t = kAdmins s)"
| "same FThreshold s t = (kThreshold t = kThreshold s)"
| "same FMembershipFee s t = (kMembershipFee t = kMembershipFee s)"
| "same FToken s t = (kToken t = kToken s)"
| "same FPolicy s t = (kPolicy t = kPolicy s)"
| "same FPaused s t = (kPaused t = kPaused s)"
| "same FPauser s t = (kPauser t = kPauser s)"
| "same FMembers s t = (kMembers t = kMembers s)"
| "same FTotalMembers s t = (kTotalMembers t = kTotalMembers s)"
| "same FActiveMembers s t = (kActiveMembers t = kActiveMembers s)"
| "same FNextProposalId s t = (kNextProposalId t = kNextProposalId s)"
| "same FNextTreasuryId s t = (kNextTreasuryId t = kNextTreasuryId s)"
| "same FTotalStaked s t = (kTotalStaked t = kTotalStaked s)"
| "same FPendingPolicyUpdate s t = (kPendingPolicyUpdate t = kPendingPolicyUpdate s)"
| "same FMember s t = (kMember t = kMember s)"
| "same FLoanProposal s t = (kLoanProposal t = kLoanProposal s)"
| "same FLoan s t = (kLoan t = kLoan s)"
| "same FTreasuryProposal s t = (kTreasuryProposal t = kTreasuryProposal s)"
| "same FLoanVoted s t = (kLoanVoted t = kLoanVoted s)"
| "same FStakeTime s t = (kStakeTime t = kStakeTime s)"
| "same FTreasuryVoted s t = (kTreasuryVoted t = kTreasuryVoted s)"
| "same FStake s t = (kStake t = kStake s)"
| "same FOpenProposals s t = (kOpenProposals t = kOpenProposals s)"
| "same FYieldAccumulator s t = (kYieldAccumulator t = kYieldAccumulator s)"
| "same FYieldRemainder s t = (kYieldRemainder t = kYieldRemainder s)"
| "same FMemberYieldSnapshot s t = (kMemberYieldSnapshot t = kMemberYieldSnapshot s)"
| "same FDoc s t = (kDoc t = kDoc s)"
| "same FName s t = (kName t = kName s)"
| "same FNameOf s t = (kNameOf t = kNameOf s)"
| "same FCommit s t = (kCommit t = kCommit s)"
| "same FTotalContributions s t = (kTotalContributions t = kTotalContributions s)"
| "same FActiveContributions s t = (kActiveContributions t = kActiveContributions s)"
| "same FDelegation s t = (kDelegation t = kDelegation s)"
| "same FTokenWhitelisted s t = (kTokenWhitelisted t = kTokenWhitelisted s)"
| "same FWhitelistedTokens s t = (kWhitelistedTokens t = kWhitelistedTokens s)"
| "same FPendingTokenAddition s t = (kPendingTokenAddition t = kPendingTokenAddition s)"
| "same FLoanAsset s t = (kLoanAsset t = kLoanAsset s)"
| "same FTreasuryAsset s t = (kTreasuryAsset t = kTreasuryAsset s)"
| "same FMigrationSeedingLocked s t = (kMigrationSeedingLocked t = kMigrationSeedingLocked s)"
| "same FLedger s t = (ledger t = ledger s)"
| "same FEvents s t = (events t = events s)"

lemma same_refl [simp]: "same f s s"
  by (cases f) simp_all

lemma same_trans: "same f s t \<Longrightarrow> same f t u \<Longrightarrow> same f s u"
  by (cases f) simp_all

definition agree :: "field set \<Rightarrow> dao \<Rightarrow> dao \<Rightarrow> bool" where
  "agree F s t \<longleftrightarrow> (\<forall>f. f \<notin> F \<longrightarrow> same f s t)"

lemma agree_refl [simp]: "agree F s s"
  by (simp add: agree_def)

lemma agree_trans: "agree F s t \<Longrightarrow> agree F t u \<Longrightarrow> agree F s u"
  by (meson agree_def same_trans)

lemma agreeD: "agree F s t \<Longrightarrow> f \<notin> F \<Longrightarrow> same f s t"
  by (simp add: agree_def)

section \<open>The judgement\<close>

named_theorems writes_intros \<open>rules for the keys a program may write\<close>

definition writes :: "field set \<Rightarrow> 'a run \<Rightarrow> bool" where
  "writes F m \<longleftrightarrow> (\<forall>s. (\<forall>x t. m s = Ok x t \<longrightarrow> agree F s t) \<and> (\<forall>e t. m s = Err e t \<longrightarrow> agree F s t))"

lemma writesI:
  "(\<And>s x t. m s = Ok x t \<Longrightarrow> agree F s t) \<Longrightarrow> (\<And>s e t. m s = Err e t \<Longrightarrow> agree F s t) \<Longrightarrow> writes F m"
  by (simp add: writes_def)

lemma writes_Ok: "writes F m \<Longrightarrow> m s = Ok x t \<Longrightarrow> agree F s t"
  by (simp add: writes_def)

lemma writes_Err: "writes F m \<Longrightarrow> m s = Err e t \<Longrightarrow> agree F s t"
  by (simp add: writes_def)

lemma agree_mono: "agree F s t \<Longrightarrow> F \<subseteq> G \<Longrightarrow> agree G s t"
  by (auto simp: agree_def)

lemma writes_mono: "writes F m \<Longrightarrow> F \<subseteq> G \<Longrightarrow> writes G m"
  unfolding writes_def using agree_mono [of F _ _ G] by blast

lemma writes_of_keeps: "(\<And>P. keeps P m) \<Longrightarrow> writes F m"
proof (rule writesI)
  fix s x t assume k: "\<And>P. keeps P m" and "m s = Ok x t"
  then have "t = s" using keepsD_Ok [OF k [of "\<lambda>u. u = s"]] by blast
  then show "agree F s t" by simp
next
  fix s e t assume k: "\<And>P. keeps P m" and "m s = Err e t"
  then have "t = s" using keepsD_Err [OF k [of "\<lambda>u. u = s"]] by blast
  then show "agree F s t" by simp
qed

lemma writes_and_then [writes_intros]:
  "writes F m \<Longrightarrow> (\<And>x. writes F (f x)) \<Longrightarrow> writes F (and_then m f)"
  by (rule writesI) (auto simp: ok_simps err_simps intro: agree_trans dest: writes_Ok writes_Err)

lemma writes_seq [writes_intros]: "writes F m \<Longrightarrow> writes F k \<Longrightarrow> writes F (seq m k)"
  by (simp add: seq_def writes_and_then)

lemma writes_pure [writes_intros]:
  "writes F (ret x)" "writes F (throw e)" "writes F panic" "writes F (reads g)"
  "writes F (reject_if c e)" "writes F (unwrap v)" "writes F (ok_or v e)" "writes F (assert_that c)"
  "writes F (i128_add a b)" "writes F (i128_sub a b)" "writes F (i128_mul a b)"
  "writes F (u32_add m n)" "writes F (u32_sub m n)" "writes F (u64_add m n)"
  "writes F (load h)"
  by (auto intro!: writes_of_keeps keeps_intros)

lemma writes_is_ok [writes_intros]: "writes F m \<Longrightarrow> writes F (is_ok m)"
  by (rule writesI) (auto simp: ok_simps err_simps dest: writes_Ok writes_Err)

lemma writes_when_do [writes_intros]: "(c \<Longrightarrow> writes F m) \<Longrightarrow> writes F (when_do c m)"
  by (auto intro: writes_intros simp: when_do_def)

lemma writes_if [writes_intros]:
  "(c \<Longrightarrow> writes F m) \<Longrightarrow> (\<not> c \<Longrightarrow> writes F k) \<Longrightarrow> writes F (if c then m else k)"
  by simp

lemma writes_option [writes_intros]:
  "(v = None \<Longrightarrow> writes F m) \<Longrightarrow> (\<And>x. v = Some x \<Longrightarrow> writes F (f x)) \<Longrightarrow>
   writes F (case v of None \<Rightarrow> m | Some x \<Rightarrow> f x)"
  by (cases v) simp_all

lemma writes_prod [writes_intros]:
  "(\<And>a b. v = (a, b) \<Longrightarrow> writes F (f a b)) \<Longrightarrow> writes F (case v of (a, b) \<Rightarrow> f a b)"
  by (cases v) simp

lemma writes_kind [writes_intros]:
  "(k = LoanKind \<Longrightarrow> writes F m) \<Longrightarrow> (k = TreasuryKind \<Longrightarrow> writes F n) \<Longrightarrow>
   writes F (case k of LoanKind \<Rightarrow> m | TreasuryKind \<Rightarrow> n)"
  by (cases k) simp_all

lemma writes_let [writes_intros]: "(\<And>x. writes F (f x)) \<Longrightarrow> writes F (let x = v in f x)"
  by simp

lemma writes_for_each [writes_intros]: "(\<And>x. writes F (body x)) \<Longrightarrow> writes F (for_each xs body)"
  by (induction xs) (auto intro: writes_intros)

lemma writes_fold_prog [writes_intros]:
  "(\<And>x a. writes F (body x a)) \<Longrightarrow> writes F (fold_prog body xs a)"
  by (induction xs arbitrary: a) (auto intro: writes_intros)

lemma writes_modify: "(\<And>s. agree F s (g s)) \<Longrightarrow> writes F (modify g)"
  by (auto simp: writes_def ok_simps err_simps)

section \<open>The accessors\<close>

lemma all_fields:
  "(\<forall>f. Q f) \<longleftrightarrow>
   Q FAdmins \<and> Q FThreshold \<and> Q FMembershipFee \<and> Q FToken \<and> Q FPolicy \<and> Q FPaused \<and> Q FPauser \<and> Q FMembers
   \<and> Q FTotalMembers \<and> Q FActiveMembers \<and> Q FNextProposalId \<and> Q FNextTreasuryId \<and> Q FTotalStaked \<and> Q FPendingPolicyUpdate \<and> Q FMember \<and> Q FLoanProposal
   \<and> Q FLoan \<and> Q FTreasuryProposal \<and> Q FLoanVoted \<and> Q FStakeTime \<and> Q FTreasuryVoted \<and> Q FStake \<and> Q FOpenProposals \<and> Q FYieldAccumulator
   \<and> Q FYieldRemainder \<and> Q FMemberYieldSnapshot \<and> Q FDoc \<and> Q FName \<and> Q FNameOf \<and> Q FCommit \<and> Q FTotalContributions \<and> Q FActiveContributions
   \<and> Q FDelegation \<and> Q FTokenWhitelisted \<and> Q FWhitelistedTokens \<and> Q FPendingTokenAddition \<and> Q FLoanAsset \<and> Q FTreasuryAsset \<and> Q FMigrationSeedingLocked \<and> Q FLedger
   \<and> Q FEvents"
  (is "?l \<longleftrightarrow> ?r")
proof
  assume ?r then show ?l by (intro allI, case_tac f) simp_all
qed simp

lemma agree_update [writes_intros]:
  "FAdmins \<in> F \<Longrightarrow> agree F s (s\<lparr>kAdmins := vFAdmins\<rparr>)"
  "FThreshold \<in> F \<Longrightarrow> agree F s (s\<lparr>kThreshold := vFThreshold\<rparr>)"
  "FMembershipFee \<in> F \<Longrightarrow> agree F s (s\<lparr>kMembershipFee := vFMembershipFee\<rparr>)"
  "FToken \<in> F \<Longrightarrow> agree F s (s\<lparr>kToken := vFToken\<rparr>)"
  "FPolicy \<in> F \<Longrightarrow> agree F s (s\<lparr>kPolicy := vFPolicy\<rparr>)"
  "FPaused \<in> F \<Longrightarrow> agree F s (s\<lparr>kPaused := vFPaused\<rparr>)"
  "FPauser \<in> F \<Longrightarrow> agree F s (s\<lparr>kPauser := vFPauser\<rparr>)"
  "FMembers \<in> F \<Longrightarrow> agree F s (s\<lparr>kMembers := vFMembers\<rparr>)"
  "FTotalMembers \<in> F \<Longrightarrow> agree F s (s\<lparr>kTotalMembers := vFTotalMembers\<rparr>)"
  "FActiveMembers \<in> F \<Longrightarrow> agree F s (s\<lparr>kActiveMembers := vFActiveMembers\<rparr>)"
  "FNextProposalId \<in> F \<Longrightarrow> agree F s (s\<lparr>kNextProposalId := vFNextProposalId\<rparr>)"
  "FNextTreasuryId \<in> F \<Longrightarrow> agree F s (s\<lparr>kNextTreasuryId := vFNextTreasuryId\<rparr>)"
  "FTotalStaked \<in> F \<Longrightarrow> agree F s (s\<lparr>kTotalStaked := vFTotalStaked\<rparr>)"
  "FPendingPolicyUpdate \<in> F \<Longrightarrow> agree F s (s\<lparr>kPendingPolicyUpdate := vFPendingPolicyUpdate\<rparr>)"
  "FMember \<in> F \<Longrightarrow> agree F s (s\<lparr>kMember := vFMember\<rparr>)"
  "FLoanProposal \<in> F \<Longrightarrow> agree F s (s\<lparr>kLoanProposal := vFLoanProposal\<rparr>)"
  "FLoan \<in> F \<Longrightarrow> agree F s (s\<lparr>kLoan := vFLoan\<rparr>)"
  "FTreasuryProposal \<in> F \<Longrightarrow> agree F s (s\<lparr>kTreasuryProposal := vFTreasuryProposal\<rparr>)"
  "FLoanVoted \<in> F \<Longrightarrow> agree F s (s\<lparr>kLoanVoted := vFLoanVoted\<rparr>)"
  "FStakeTime \<in> F \<Longrightarrow> agree F s (s\<lparr>kStakeTime := vFStakeTime\<rparr>)"
  "FTreasuryVoted \<in> F \<Longrightarrow> agree F s (s\<lparr>kTreasuryVoted := vFTreasuryVoted\<rparr>)"
  "FStake \<in> F \<Longrightarrow> agree F s (s\<lparr>kStake := vFStake\<rparr>)"
  "FOpenProposals \<in> F \<Longrightarrow> agree F s (s\<lparr>kOpenProposals := vFOpenProposals\<rparr>)"
  "FYieldAccumulator \<in> F \<Longrightarrow> agree F s (s\<lparr>kYieldAccumulator := vFYieldAccumulator\<rparr>)"
  "FYieldRemainder \<in> F \<Longrightarrow> agree F s (s\<lparr>kYieldRemainder := vFYieldRemainder\<rparr>)"
  "FMemberYieldSnapshot \<in> F \<Longrightarrow> agree F s (s\<lparr>kMemberYieldSnapshot := vFMemberYieldSnapshot\<rparr>)"
  "FDoc \<in> F \<Longrightarrow> agree F s (s\<lparr>kDoc := vFDoc\<rparr>)"
  "FName \<in> F \<Longrightarrow> agree F s (s\<lparr>kName := vFName\<rparr>)"
  "FNameOf \<in> F \<Longrightarrow> agree F s (s\<lparr>kNameOf := vFNameOf\<rparr>)"
  "FCommit \<in> F \<Longrightarrow> agree F s (s\<lparr>kCommit := vFCommit\<rparr>)"
  "FTotalContributions \<in> F \<Longrightarrow> agree F s (s\<lparr>kTotalContributions := vFTotalContributions\<rparr>)"
  "FActiveContributions \<in> F \<Longrightarrow> agree F s (s\<lparr>kActiveContributions := vFActiveContributions\<rparr>)"
  "FDelegation \<in> F \<Longrightarrow> agree F s (s\<lparr>kDelegation := vFDelegation\<rparr>)"
  "FTokenWhitelisted \<in> F \<Longrightarrow> agree F s (s\<lparr>kTokenWhitelisted := vFTokenWhitelisted\<rparr>)"
  "FWhitelistedTokens \<in> F \<Longrightarrow> agree F s (s\<lparr>kWhitelistedTokens := vFWhitelistedTokens\<rparr>)"
  "FPendingTokenAddition \<in> F \<Longrightarrow> agree F s (s\<lparr>kPendingTokenAddition := vFPendingTokenAddition\<rparr>)"
  "FLoanAsset \<in> F \<Longrightarrow> agree F s (s\<lparr>kLoanAsset := vFLoanAsset\<rparr>)"
  "FTreasuryAsset \<in> F \<Longrightarrow> agree F s (s\<lparr>kTreasuryAsset := vFTreasuryAsset\<rparr>)"
  "FMigrationSeedingLocked \<in> F \<Longrightarrow> agree F s (s\<lparr>kMigrationSeedingLocked := vFMigrationSeedingLocked\<rparr>)"
  "FLedger \<in> F \<Longrightarrow> agree F s (s\<lparr>ledger := vFLedger\<rparr>)"
  "FEvents \<in> F \<Longrightarrow> agree F s (s\<lparr>events := vFEvents\<rparr>)"
  by (simp_all add: agree_def all_fields)

lemma writes_next_id [writes_intros]:
  "FNextProposalId \<in> F \<Longrightarrow> writes F (next_id NextProposalId)"
  "FNextTreasuryId \<in> F \<Longrightarrow> writes F (next_id NextTreasuryId)"
  by (auto simp: next_id_def set_counter_def intro!: writes_intros writes_modify)

lemma writes_at_least [writes_intros]:
  "FNextProposalId \<in> F \<Longrightarrow> writes F (set_next_proposal_id_at_least n)"
  "FNextTreasuryId \<in> F \<Longrightarrow> writes F (set_next_treasury_id_at_least n)"
  by (auto simp: storage_defs intro!: writes_intros writes_modify)

lemma writes_singletons [writes_intros]:
  "FAdmins \<in> F \<Longrightarrow> writes F (set_admins v)"
  "FPauser \<in> F \<Longrightarrow> writes F (set_pauser p)"
  "FPauser \<in> F \<Longrightarrow> writes F (remove_pauser)"
  "FThreshold \<in> F \<Longrightarrow> writes F (set_threshold n)"
  "FMembershipFee \<in> F \<Longrightarrow> writes F (set_membership_fee i)"
  "FToken \<in> F \<Longrightarrow> writes F (set_token p)"
  "FPolicy \<in> F \<Longrightarrow> writes F (set_policy pol)"
  "FPendingPolicyUpdate \<in> F \<Longrightarrow> writes F (set_pending_policy_update upd)"
  "FPendingPolicyUpdate \<in> F \<Longrightarrow> writes F (remove_pending_policy_update)"
  "FPaused \<in> F \<Longrightarrow> writes F (set_paused b)"
  "FMembers \<in> F \<Longrightarrow> writes F (set_members v)"
  "FTotalMembers \<in> F \<Longrightarrow> writes F (set_total_members n)"
  "FActiveMembers \<in> F \<Longrightarrow> writes F (set_active_members n)"
  "FTotalContributions \<in> F \<Longrightarrow> writes F (set_total_contributions i)"
  "FActiveContributions \<in> F \<Longrightarrow> writes F (set_active_contributions i)"
  "FTotalStaked \<in> F \<Longrightarrow> writes F (set_total_staked i)"
  "FYieldAccumulator \<in> F \<Longrightarrow> writes F (set_yield_accumulator i)"
  "FYieldRemainder \<in> F \<Longrightarrow> writes F (set_yield_remainder i)"
  "FMigrationSeedingLocked \<in> F \<Longrightarrow> writes F (set_seeding_locked)"
  "FEvents \<in> F \<Longrightarrow> writes F (publish e)"
  by (auto simp: storage_defs intro!: writes_modify agree_update)

lemma writes_keyed [writes_intros]:
  "FMember \<in> F \<Longrightarrow> writes F (set_member m)"
  "FOpenProposals \<in> F \<Longrightarrow> writes F (get_open_proposals env who)"
  "FLoan \<in> F \<Longrightarrow> writes F (set_loan l)"
  "FLoanVoted \<in> F \<Longrightarrow> writes F (set_loan_voted i who)"
  "FTreasuryVoted \<in> F \<Longrightarrow> writes F (set_treasury_voted i who)"
  "FStake \<in> F \<Longrightarrow> writes F (set_stake who x)"
  "FStakeTime \<in> F \<Longrightarrow> writes F (set_stake_time who i)"
  "FMemberYieldSnapshot \<in> F \<Longrightarrow> writes F (set_yield_snapshot who x)"
  "FDoc \<in> F \<Longrightarrow> writes F (set_doc kind i h)"
  "FName \<in> F \<Longrightarrow> writes F (remove_name nm)"
  "FNameOf \<in> F \<Longrightarrow> writes F (remove_name_of who)"
  "FCommit \<in> F \<Longrightarrow> writes F (set_commit i who h)"
  "FCommit \<in> F \<Longrightarrow> writes F (remove_commit i who)"
  "FDelegation \<in> F \<Longrightarrow> writes F (set_delegation who who')"
  "FPendingTokenAddition \<in> F \<Longrightarrow> writes F (set_pending_token_addition who i)"
  "FPendingTokenAddition \<in> F \<Longrightarrow> writes F (remove_pending_token_addition who)"
  "FLoanAsset \<in> F \<Longrightarrow> writes F (set_loan_asset i who)"
  "FTreasuryAsset \<in> F \<Longrightarrow> writes F (set_treasury_asset i who)"
  "FLedger \<in> F \<Longrightarrow> writes F (token_transfer env who a b x)"
  by (auto simp: storage_defs get_open_proposals_def token_transfer_def
      intro!: writes_intros writes_modify agree_update)

lemma writes_pairs [writes_intros]:
  "FName \<in> F \<Longrightarrow> FNameOf \<in> F \<Longrightarrow> writes F (set_name nm who)"
  "FTokenWhitelisted \<in> F \<Longrightarrow> FWhitelistedTokens \<in> F \<Longrightarrow> writes F (set_token_whitelisted who b)"
  "FLoanProposal \<in> F \<Longrightarrow> FOpenProposals \<in> F \<Longrightarrow> writes F (set_loan_proposal env p)"
  "FTreasuryProposal \<in> F \<Longrightarrow> FOpenProposals \<in> F \<Longrightarrow> writes F (set_treasury_proposal env q)"
  by (auto simp: storage_defs set_token_whitelisted_def agree_def all_fields Let_def
      intro!: writes_intros writes_modify)

text \<open>Programs that write nothing.\<close>

lemma writes_readers [writes_intros]:
  "writes F require_initialized" "writes F require_not_paused" "writes F (require_auth env who)"
  "writes F (is_admin who)" "writes F (require_admin env who)" "writes F (active_member who)"
  "writes F (require_active_member env who)" "writes F (treasury_balance_in_asset env asset)"
  "writes F (treasury_balance env)" "writes F (get_loan_asset i)" "writes F (get_treasury_asset i)"
  "writes F (ceil_div_nonnegative v d)" "writes F (token_balance env asset who)"
  "writes F (required_votes n bps)" "writes F (voting_weight who)" "writes F (own_weight who)"
  "writes F get_admins" "writes F get_threshold" "writes F get_membership_fee" "writes F get_token"
  "writes F get_policy"
  by (auto intro!: writes_of_keeps keeps_intros simp: storage_defs)

lemma reserved_reads [keeps_intros]: "keeps P (reserved_loan_commitments asset)"
  by (auto simp: reserved_loan_commitments_def add_reserved_def intro!: keeps_intros)

lemma writes_reserved [writes_intros]: "writes F (reserved_loan_commitments asset)"
  by (rule writes_of_keeps) (rule reserved_reads)

section \<open>Predicates that read only some keys\<close>

definition depends :: "field set \<Rightarrow> (dao \<Rightarrow> bool) \<Rightarrow> bool" where
  "depends D P \<longleftrightarrow> (\<forall>s t. (\<forall>f \<in> D. same f s t) \<longrightarrow> P s \<longrightarrow> P t)"

lemma dependsI: "(\<And>s t. (\<forall>f \<in> D. same f s t) \<Longrightarrow> P s \<Longrightarrow> P t) \<Longrightarrow> depends D P"
  by (simp add: depends_def)

lemma keeps_frame:
  assumes "writes F m" and "depends D P" and "D \<inter> F = {}"
  shows "keeps P m"
proof -
  have "P t" if "agree F s t" "P s" for s t
    using that assms(2,3) unfolding depends_def by (metis agreeD disjoint_iff)
  then show ?thesis by (blast intro: keepsI dest: writes_Ok [OF assms(1)] writes_Err [OF assms(1)])
qed

section \<open>Programs that write nothing\<close>

text \<open>\<open>returns m s x\<close>: the program returns \<open>x\<close> and leaves the state as it is.\<close>

definition returns :: "'a run \<Rightarrow> dao \<Rightarrow> 'a \<Rightarrow> bool" where
  "returns m s x \<longleftrightarrow> m s = Ok x s"

lemma agree_nothing: "agree {} s t \<longleftrightarrow> t = s"
  by (auto simp: agree_def all_fields intro: dao.equality)

lemma pure_ok: "writes {} m \<Longrightarrow> m s = Ok x t \<longleftrightarrow> t = s \<and> returns m s x"
  by (auto simp: returns_def agree_nothing dest: writes_Ok)

lemma pure_err: "writes {} m \<Longrightarrow> m s = Err e t \<Longrightarrow> t = s"
  by (auto simp: agree_nothing dest: writes_Err)

lemma ok_weights [ok_simps]:
  "voting_weight who s = Ok w t \<longleftrightarrow> t = s \<and> returns (voting_weight who) s w"
  "own_weight who s = Ok w t \<longleftrightarrow> t = s \<and> returns (own_weight who) s w"
  "reserved_loan_commitments a s = Ok w t \<longleftrightarrow> t = s \<and> returns (reserved_loan_commitments a) s w"
  by (intro pure_ok writes_intros)+

text \<open>The accessors that are plain reads and updates of the record.\<close>

lemmas accessor_defs =
  set_admins_def get_pauser_def set_pauser_def remove_pauser_def set_threshold_def
  set_membership_fee_def set_token_def set_policy_def get_pending_policy_update_def
  set_pending_policy_update_def remove_pending_policy_update_def is_paused_def set_paused_def
  get_members_def set_members_def get_total_members_def set_total_members_def
  get_total_contributions_def set_total_contributions_def get_active_contributions_def
  set_active_contributions_def get_active_members_def set_active_members_def
  get_proposal_count_def set_counter_def get_total_staked_def set_total_staked_def
  get_member_def set_member_def get_loan_proposal_def get_treasury_proposal_def
  set_loan_proposal_def get_loan_def set_loan_def set_treasury_proposal_def has_loan_voted_def
  set_loan_voted_def has_treasury_voted_def set_treasury_voted_def get_stake_def set_stake_def
  get_stake_time_def set_stake_time_def get_yield_accumulator_def set_yield_accumulator_def
  get_yield_snapshot_def set_yield_snapshot_def get_doc_def set_doc_def get_name_owner_def
  set_name_def get_name_of_def remove_name_def remove_name_of_def get_commit_def set_commit_def
  remove_commit_def get_yield_remainder_def set_yield_remainder_def get_delegation_def
  set_delegation_def get_pending_token_addition_def set_pending_token_addition_def
  remove_pending_token_addition_def set_loan_asset_def set_treasury_asset_def
  is_seeding_locked_def set_seeding_locked_def set_next_proposal_id_at_least_def
  set_next_treasury_id_at_least_def

end
