(* ===== verification/Admin.thy ===== *)
theory Admin
  imports Frame
begin

text \<open>
  \<^verbatim>\<open>admin.rs\<close>: initialization, the admin set, the pauser, the consensus threshold, the
  timelocked policy update, pause and unpause, and the timelocked token whitelist. The lemmas
  say what each operation requires and what it leaves behind.
\<close>

definition TIMELOCK_DURATION :: u64 where [simp]: "TIMELOCK_DURATION = 48 * 60 * 60"

definition THIRTY_DAYS :: u64 where [simp]: "THIRTY_DAYS = 30 * 24 * 60 * 60"

definition invalid_policy :: "loan_policy \<Rightarrow> bool" where
  "invalid_policy policy \<longleftrightarrow>
     pol_membership_contribution policy \<le> 0
   \<or> pol_max_loan_duration policy = 0
   \<or> int (pol_min_interest_rate policy) > BASIS_POINTS
   \<or> int (pol_max_interest_rate policy) > BASIS_POINTS
   \<or> pol_min_interest_rate policy > pol_max_interest_rate policy
   \<or> pol_max_loan_to_treasury_ratio policy = 0
   \<or> int (pol_max_loan_to_treasury_ratio policy) > BASIS_POINTS
   \<or> int (pol_default_penalty_bps policy) > BASIS_POINTS
   \<or> pol_editing_period policy = 0
   \<or> pol_voting_period policy = 0
   \<or> pol_editing_period policy > THIRTY_DAYS
   \<or> pol_voting_period policy > THIRTY_DAYS
   \<or> pol_min_membership_duration policy > THIRTY_DAYS
   \<or> pol_cooldown_period policy > THIRTY_DAYS
   \<or> pol_default_grace_period policy > THIRTY_DAYS
   \<or> pol_treasury_threshold policy = 0
   \<or> int (pol_treasury_threshold policy) > BASIS_POINTS
   \<or> int (pol_quorum_bps policy) > BASIS_POINTS"

definition validate_policy :: "loan_policy \<Rightarrow> unit run" where
  "validate_policy policy = reject_if (invalid_policy policy) InvalidLoanPolicy"

definition validate_token :: "env \<Rightarrow> address \<Rightarrow> unit run" where
  "validate_token env token = reject_if (\<not> env_is_token env token) InvalidToken"

definition initialize :: "env \<Rightarrow> address list \<Rightarrow> u32 \<Rightarrow> i128 \<Rightarrow> address \<Rightarrow> loan_policy \<Rightarrow> unit run" where
  "initialize env admins consensus_threshold membership_fee token policy =
     and_then (reads is_initialized) (\<lambda>init.
     seq (reject_if init AlreadyInitialized) (
     seq (reject_if (consensus_threshold = 0 \<or> int consensus_threshold > BASIS_POINTS) InvalidThreshold) (
     seq (reject_if (membership_fee \<le> 0) InvalidAmount) (
     seq (reject_if (admins = []) NotAuthorized) (
     seq (for_each (enumerate 0 admins) (\<lambda>ia.
            reject_if (first_index_of (snd ia) admins \<noteq> Some (fst ia)) AlreadyAdmin)) (
     seq (validate_policy policy) (
     seq (validate_token env token) (
     seq (set_admins admins) (
     seq (set_threshold consensus_threshold) (
     seq (set_membership_fee membership_fee) (
     seq (set_token token) (
     seq (set_policy policy) (
     seq (set_paused False) (
     seq (set_members []) (
     seq (set_total_members 0) (
     seq (set_active_members 0) (
     publish (Ev_init admins consensus_threshold membership_fee token))))))))))))))))))"

definition add_admin :: "env \<Rightarrow> address \<Rightarrow> address \<Rightarrow> unit run" where
  "add_admin env caller admin =
     seq (require_admin env caller) (
     and_then get_admins (\<lambda>admins.
     seq (reject_if (admin \<in> set admins) AlreadyAdmin) (
     seq (set_admins (admins @ [admin])) (
     publish (Ev_admin_add admin)))))"

definition remove_admin :: "env \<Rightarrow> address \<Rightarrow> address \<Rightarrow> unit run" where
  "remove_admin env caller admin =
     seq (require_admin env caller) (
     and_then get_admins (\<lambda>admins.
     seq (reject_if (length admins \<le> 1) CannotRemoveLastAdmin) (
     and_then (ok_or (first_index_of admin admins) NotAdmin) (\<lambda>i.
     seq (set_admins (remove_at i admins)) (
     publish (Ev_admin_rem admin))))))"

definition admin_set_pauser :: "env \<Rightarrow> address \<Rightarrow> address \<Rightarrow> unit run" where
  "admin_set_pauser env caller pauser =
     seq (require_admin env caller) (
     and_then (reads get_pauser) (\<lambda>old.
     seq (reject_if (old = Some pauser) AlreadyPauser) (
     seq (set_pauser pauser) (
     publish (Ev_pset pauser)))))"

definition revoke_pauser :: "env \<Rightarrow> address \<Rightarrow> unit run" where
  "revoke_pauser env caller =
     seq (require_admin env caller) (
     and_then (reads get_pauser) (\<lambda>old.
     seq (reject_if (old = None) NotPauser) (
     seq remove_pauser (
     publish (Ev_prev caller)))))"

definition set_consensus_threshold :: "env \<Rightarrow> address \<Rightarrow> u32 \<Rightarrow> unit run" where
  "set_consensus_threshold env caller threshold =
     seq (require_admin env caller) (
     seq (reject_if (threshold = 0 \<or> int threshold > BASIS_POINTS) InvalidThreshold) (
     and_then get_threshold (\<lambda>old_threshold.
     seq (set_threshold threshold) (
     publish (Ev_threshold old_threshold threshold)))))"

definition propose_policy_update :: "env \<Rightarrow> address \<Rightarrow> loan_policy \<Rightarrow> unit run" where
  "propose_policy_update env caller policy =
     seq (require_admin env caller) (
     seq (reject_if (pol_quorum_bps policy = 0) InvalidLoanPolicy) (
     seq (validate_policy policy) (
     seq (reject_if (pol_treasury_threshold policy = 0
                     \<or> int (pol_treasury_threshold policy) > BASIS_POINTS) InvalidLoanPolicy) (
     seq (reject_if (pol_quorum_bps policy = 0
                     \<or> int (pol_quorum_bps policy) > BASIS_POINTS) InvalidLoanPolicy) (
     and_then (u64_add (env_now env) TIMELOCK_DURATION) (\<lambda>execution_time.
     seq (set_pending_policy_update
            \<lparr>ppu_policy = policy, ppu_proposed_at = env_now env, ppu_execution_time = execution_time\<rparr>) (
     publish (Ev_pol_prop caller execution_time))))))))"

definition execute_policy_update :: "env \<Rightarrow> address \<Rightarrow> unit run" where
  "execute_policy_update env caller =
     seq (require_admin env caller) (
     and_then (reads get_pending_policy_update) (\<lambda>v.
     and_then (ok_or v NoPendingPolicy) (\<lambda>upd.
     seq (reject_if (env_now env < ppu_execution_time upd) TimelockNotExpired) (
     and_then get_policy (\<lambda>old_policy.
     seq (set_policy (ppu_policy upd)) (
     seq remove_pending_policy_update (
     publish (Ev_policy old_policy (ppu_policy upd)))))))))"

definition cancel_policy_update :: "env \<Rightarrow> address \<Rightarrow> unit run" where
  "cancel_policy_update env caller =
     seq (require_admin env caller) (
     and_then (reads get_pending_policy_update) (\<lambda>v.
     seq (reject_if (v = None) NoPendingPolicy) (
     seq remove_pending_policy_update (
     publish (Ev_pol_canc caller)))))"

definition admin_pending_policy_update :: "dao \<Rightarrow> pending_policy_update option" where
  "admin_pending_policy_update s = get_pending_policy_update s"

definition admin_set_policy :: "env \<Rightarrow> address \<Rightarrow> loan_policy \<Rightarrow> unit run" where
  "admin_set_policy env caller policy = propose_policy_update env caller policy"

definition pause :: "env \<Rightarrow> address \<Rightarrow> unit run" where
  "pause env caller =
     seq (require_auth env caller) (
     and_then (is_admin caller) (\<lambda>adm.
     and_then (reads (is_pauser caller)) (\<lambda>pau.
     seq (reject_if (\<not> adm \<and> \<not> pau) NotAdmin) (
     and_then (reads is_paused) (\<lambda>paused.
     seq (reject_if paused Paused) (
     seq (set_paused True) (
     publish (Ev_paused caller))))))))"

definition unpause :: "env \<Rightarrow> address \<Rightarrow> unit run" where
  "unpause env caller =
     seq (require_auth env caller) (
     and_then (is_admin caller) (\<lambda>adm.
     seq (reject_if (\<not> adm) NotAdmin) (
     and_then (reads is_paused) (\<lambda>paused.
     seq (reject_if (\<not> paused) NotPaused) (
     seq (set_paused False) (
     publish (Ev_unpaused caller)))))))"

definition propose_token_addition :: "env \<Rightarrow> address \<Rightarrow> address \<Rightarrow> unit run" where
  "propose_token_addition env caller token =
     seq require_initialized (
     seq (require_admin env caller) (
     and_then (reads (is_token_whitelisted token)) (\<lambda>listed.
     seq (reject_if listed TokenAlreadyWhitelisted) (
     seq (validate_token env token) (
     and_then (u64_add (env_now env) TIMELOCK_DURATION) (\<lambda>execution_time.
     seq (set_pending_token_addition token execution_time) (
     publish (Ev_tok_prop caller token execution_time))))))))"

definition execute_token_addition :: "env \<Rightarrow> address \<Rightarrow> address \<Rightarrow> unit run" where
  "execute_token_addition env caller token =
     seq require_initialized (
     seq (require_admin env caller) (
     and_then (reads (get_pending_token_addition token)) (\<lambda>v.
     and_then (ok_or v NoPendingTokenAddition) (\<lambda>execution_time.
     seq (reject_if (env_now env < execution_time) TimelockNotExpired) (
     seq (remove_pending_token_addition token) (
     seq (set_token_whitelisted token True) (
     publish (Ev_tok_add caller token))))))))"

definition remove_token :: "env \<Rightarrow> address \<Rightarrow> address \<Rightarrow> unit run" where
  "remove_token env caller token =
     seq require_initialized (
     seq (require_admin env caller) (
     and_then get_token (\<lambda>base.
     seq (reject_if (token = base) CannotRemoveBaseToken) (
     and_then (reads (is_token_whitelisted token)) (\<lambda>listed.
     seq (reject_if (\<not> listed) TokenNotWhitelisted) (
     seq (set_token_whitelisted token False) (
     publish (Ev_tok_rem caller token))))))))"

lemmas admin_defs [dao_defs] =
  validate_policy_def validate_token_def initialize_def add_admin_def remove_admin_def
  admin_set_pauser_def revoke_pauser_def set_consensus_threshold_def propose_policy_update_def
  execute_policy_update_def cancel_policy_update_def admin_set_policy_def pause_def unpause_def
  propose_token_addition_def execute_token_addition_def remove_token_def

lemma ok_validate [ok_simps]:
  "validate_policy policy s = Ok u t \<longleftrightarrow> \<not> invalid_policy policy \<and> t = s"
  "validate_token env token s = Ok u t \<longleftrightarrow> env_is_token env token \<and> t = s"
  by (auto simp: admin_defs ok_simps)

lemma ok_publish [ok_simps]: "publish e s = Ok u t \<longleftrightarrow> t = s\<lparr>events := events s @ [e]\<rparr>"
  by (auto simp: publish_def ok_simps)

lemma err_publish [err_simps]: "publish e s = Err e' t \<longleftrightarrow> False"
  by (simp add: publish_def err_simps)

text \<open>The uniqueness scan of \<open>initialize\<close> accepts exactly the duplicate-free lists.\<close>

lemma ok_for_each_reject:
  "for_each xs (\<lambda>x. reject_if (c x) e) s = Ok u t \<longleftrightarrow> (\<forall>x \<in> set xs. \<not> c x) \<and> t = s"
  by (induction xs) (auto simp: ok_simps)

lemma ok_unique_admins [ok_simps]:
  "for_each (enumerate 0 admins) (\<lambda>ia. reject_if (first_index_of (snd ia) admins \<noteq> Some (fst ia)) e) s = Ok u t
   \<longleftrightarrow> distinct admins \<and> t = s"
  by (simp add: ok_for_each_reject distinct_first_index all_set_conv_all_nth nth_enumerate_eq)

section \<open>Keys written\<close>

lemma writes_admin [writes_intros]:
  "{FAdmins, FThreshold, FMembershipFee, FToken, FPolicy, FPaused, FMembers, FTotalMembers, FActiveMembers, FEvents} \<subseteq> F \<Longrightarrow> writes F (initialize env admins th fee token policy)"
  "{FAdmins, FEvents} \<subseteq> F \<Longrightarrow> writes F (add_admin env who a)"
  "{FAdmins, FEvents} \<subseteq> F \<Longrightarrow> writes F (remove_admin env who a)"
  "{FPauser, FEvents} \<subseteq> F \<Longrightarrow> writes F (admin_set_pauser env who a)"
  "{FPauser, FEvents} \<subseteq> F \<Longrightarrow> writes F (revoke_pauser env who)"
  "{FThreshold, FEvents} \<subseteq> F \<Longrightarrow> writes F (set_consensus_threshold env who th)"
  "{FPendingPolicyUpdate, FEvents} \<subseteq> F \<Longrightarrow> writes F (propose_policy_update env who policy)"
  "{FPolicy, FPendingPolicyUpdate, FEvents} \<subseteq> F \<Longrightarrow> writes F (execute_policy_update env who)"
  "{FPendingPolicyUpdate, FEvents} \<subseteq> F \<Longrightarrow> writes F (cancel_policy_update env who)"
  "{FPaused, FEvents} \<subseteq> F \<Longrightarrow> writes F (pause env who)"
  "{FPaused, FEvents} \<subseteq> F \<Longrightarrow> writes F (unpause env who)"
  "{FPendingTokenAddition, FEvents} \<subseteq> F \<Longrightarrow> writes F (propose_token_addition env who token)"
  "{FPendingTokenAddition, FTokenWhitelisted, FWhitelistedTokens, FEvents} \<subseteq> F \<Longrightarrow> writes F (execute_token_addition env who token)"
  "{FTokenWhitelisted, FWhitelistedTokens, FEvents} \<subseteq> F \<Longrightarrow> writes F (remove_token env who token)"
  by (auto simp: admin_defs intro!: writes_intros)

lemma writes_set_policy [writes_intros]:
  "{FPendingPolicyUpdate, FEvents} \<subseteq> F \<Longrightarrow> writes F (admin_set_policy env who policy)"
  by (simp add: admin_set_policy_def writes_admin)

end
