(* ===== verification/Loans.thy ===== *)
theory Loans
  imports Admin
begin

text \<open>
  \<^verbatim>\<open>loans.rs\<close>: pricing, eligibility, the proposal life cycle (request, edit, cancel, vote,
  disburse, expire), repayment with its interest-first split, default, and the distribution of
  interest as yield.
\<close>

section \<open>Pricing\<close>

definition quote_ratio :: "i128 \<Rightarrow> i128 \<Rightarrow> i128 run" where
  "quote_ratio amount treasury =
     (if treasury > 0 then
        and_then (case checked_mul amount BASIS_POINTS of
                    Some v \<Rightarrow> ceil_div_nonnegative v treasury
                  | None \<Rightarrow> ret BASIS_POINTS) (\<lambda>r. ret (min r BASIS_POINTS))
      else ret BASIS_POINTS)"

definition quote_rate :: "loan_policy \<Rightarrow> i128 \<Rightarrow> i128 run" where
  "quote_rate policy loan_ratio =
     and_then (u32_sub (pol_max_interest_rate policy) (pol_min_interest_rate policy)) (\<lambda>d.
     and_then (case checked_mul loan_ratio (int d) of
                 Some v \<Rightarrow> ceil_div_nonnegative v BASIS_POINTS
               | None \<Rightarrow> ret (int d)) (\<lambda>added_rate.
     ret (min (unwrap_or (checked_add (int (pol_min_interest_rate policy)) added_rate)
                 (int (pol_max_interest_rate policy)))
              (int (pol_max_interest_rate policy)))))"

text \<open>
  \<open>amount.checked_mul(rate).and_then(+ 9999).and_then(/ 10000)\<close>, with a fallback when an
  operation leaves \<open>i128\<close>; the loan interest, the overdue penalty and the default slash share it.
\<close>

definition ceil_bps :: "i128 \<Rightarrow> i128 \<Rightarrow> i128 option" where
  "ceil_bps amount rate =
     Option.bind (checked_mul amount rate) (\<lambda>v.
     Option.bind (checked_add v (BASIS_POINTS - 1)) (\<lambda>w. checked_div w BASIS_POINTS))"

definition quote_interest :: "i128 \<Rightarrow> i128 \<Rightarrow> i128 run" where
  "quote_interest amount rate =
     (if amount > 0 \<and> rate > 0 then
        and_then (i128_sub i128_MAX amount) (\<lambda>d. ret (unwrap_or (ceil_bps amount rate) d))
      else ret 0)"

definition quote_terms :: "i128 \<Rightarrow> i128 \<Rightarrow> loan_terms run" where
  "quote_terms amount treasury =
     and_then get_policy (\<lambda>policy.
     and_then (quote_ratio amount treasury) (\<lambda>loan_ratio.
     and_then (quote_rate policy loan_ratio) (\<lambda>rate.
     and_then (quote_interest amount rate) (\<lambda>interest.
     ret \<lparr>lt_interest_rate = as_u32 rate,
          lt_total_repayment = unwrap_or (checked_add amount interest) i128_MAX,
          lt_duration = pol_max_loan_duration policy\<rparr>))))"

definition calculate_loan_terms :: "env \<Rightarrow> i128 \<Rightarrow> loan_terms run" where
  "calculate_loan_terms env amount = and_then (treasury_balance env) (quote_terms amount)"

section \<open>Eligibility and requests\<close>

definition is_eligible_for_loan :: "env \<Rightarrow> address \<Rightarrow> unit run" where
  "is_eligible_for_loan env who =
     and_then (reads (get_member who)) (\<lambda>v.
     case v of
       None \<Rightarrow> throw MemberNotActive
     | Some m \<Rightarrow>
         seq (reject_if (m_status m \<noteq> ActiveMember) MemberNotActive) (
         seq (reject_if (m_has_active_loan m) HasActiveLoan) (
         and_then get_policy (\<lambda>policy.
         seq (reject_if (u64_saturating_sub (env_now env) (m_join_time m)
                         < pol_min_membership_duration policy) NotEligibleForLoan)
         (reject_if (m_last_loan_time m \<noteq> 0 \<and>
             u64_saturating_sub (env_now env) (m_last_loan_time m) < pol_cooldown_period policy)
             CooldownActive)))))"

definition check_metadata_cid :: "string option \<Rightarrow> unit run" where
  "check_metadata_cid metadata_cid =
     (case metadata_cid of
        None \<Rightarrow> ret ()
      | Some cid \<Rightarrow>
          seq (reject_if (cid = []) InvalidMetadataCid)
          (reject_if (length cid > 64) DocumentTooLarge))"

definition request_loan_in_asset ::
  "env \<Rightarrow> address \<Rightarrow> i128 \<Rightarrow> address \<Rightarrow> string option \<Rightarrow> u32 run" where
  "request_loan_in_asset env borrower amount asset metadata_cid =
     seq require_initialized (
     seq require_not_paused (
     and_then (require_active_member env borrower) (\<lambda>_.
     and_then (reads (is_token_whitelisted asset)) (\<lambda>listed.
     seq (reject_if (\<not> listed) TokenNotWhitelisted) (
     seq (reject_if (amount \<le> 0) InvalidAmount) (
     seq (check_metadata_cid metadata_cid) (
     seq (is_eligible_for_loan env borrower) (
     and_then (get_open_proposals env borrower) (\<lambda>open_now.
     seq (reject_if (open_now \<ge> MAX_OPEN_PROPOSALS_PER_MEMBER) TooManyOpenProposals) (
     and_then get_policy (\<lambda>policy.
     and_then (treasury_balance_in_asset env asset) (\<lambda>treasury.
     and_then (ret (unwrap_or
        (Option.bind (checked_mul treasury (int (pol_max_loan_to_treasury_ratio policy)))
           (\<lambda>v. checked_div v BASIS_POINTS)) 0)) (\<lambda>max_loan.
     seq (reject_if (amount > max_loan) ExceedsTreasuryRatio) (
     and_then (quote_terms amount treasury) (\<lambda>terms.
     and_then (next_id NextProposalId) (\<lambda>i.
     and_then (u64_add (env_now env) (pol_editing_period policy)) (\<lambda>editing_end.
     seq (set_loan_proposal env
       \<lparr>p_id = i, p_borrower = borrower, p_amount = amount,
        p_interest_rate = lt_interest_rate terms, p_duration = lt_duration terms,
        p_total_repayment = lt_total_repayment terms, p_created_at = env_now env,
        p_editing_period_end = editing_end, p_phase = Editing, p_status = Pending,
        p_for_votes = 0, p_against_votes = 0, p_votes_cast = 0,
        p_voting_period = pol_voting_period policy, p_metadata_cid = metadata_cid,
        p_last_edited_at = None\<rparr>) (
     and_then get_token (\<lambda>base.
     seq (when_do (asset \<noteq> base) (seq (set_loan_asset i asset) (publish (Ev_loan_asst i asset)))) (
     seq (publish (Ev_loan_req i borrower amount (lt_total_repayment terms) asset)) (
     ret i)))))))))))))))))))))"

definition request_loan :: "env \<Rightarrow> address \<Rightarrow> i128 \<Rightarrow> string option \<Rightarrow> u32 run" where
  "request_loan env borrower amount metadata_cid =
     seq require_initialized (
     and_then get_token (\<lambda>base. request_loan_in_asset env borrower amount base metadata_cid))"

section \<open>Editing and cancelling\<close>

definition load_loan_proposal :: "u32 \<Rightarrow> loan_proposal run" where
  "load_loan_proposal i = and_then (reads (get_loan_proposal i)) (\<lambda>v. ok_or v ProposalNotFound)"

definition edit_loan_proposal :: "env \<Rightarrow> address \<Rightarrow> u32 \<Rightarrow> i128 \<Rightarrow> unit run" where
  "edit_loan_proposal env borrower proposal_id new_amount =
     seq require_initialized (
     seq require_not_paused (
     and_then (require_active_member env borrower) (\<lambda>_.
     and_then (load_loan_proposal proposal_id) (\<lambda>p.
     seq (reject_if (p_borrower p \<noteq> borrower) NotBorrower) (
     seq (reject_if (p_phase p \<noteq> Editing \<or> env_now env \<ge> p_editing_period_end p) NotInEditingPhase) (
     seq (reject_if (new_amount \<le> 0) InvalidAmount) (
     and_then (get_loan_asset proposal_id) (\<lambda>asset.
     and_then (treasury_balance_in_asset env asset) (\<lambda>treasury.
     and_then (quote_terms new_amount treasury) (\<lambda>terms.
     seq (set_loan_proposal env
       (p\<lparr>p_amount := new_amount, p_interest_rate := lt_interest_rate terms,
          p_duration := lt_duration terms, p_total_repayment := lt_total_repayment terms,
          p_last_edited_at := Some (env_now env)\<rparr>)) (
     publish (Ev_loan_edit proposal_id borrower new_amount (lt_total_repayment terms)))))))))))))"

definition cancel_loan_proposal :: "env \<Rightarrow> address \<Rightarrow> u32 \<Rightarrow> unit run" where
  "cancel_loan_proposal env borrower proposal_id =
     seq require_initialized (
     seq require_not_paused (
     and_then (require_active_member env borrower) (\<lambda>_.
     and_then (load_loan_proposal proposal_id) (\<lambda>p.
     seq (reject_if (p_borrower p \<noteq> borrower) NotBorrower) (
     seq (reject_if (p_phase p \<noteq> Editing \<or> env_now env \<ge> p_editing_period_end p) NotInEditingPhase) (
     seq (reject_if (p_status p \<noteq> Pending) NotInEditingPhase) (
     seq (set_loan_proposal env (p\<lparr>p_status := Cancelled, p_phase := PhExpired\<rparr>)) (
     publish (Ev_prop_canc proposal_id (env_now env))))))))))"

section \<open>Voting and disbursement\<close>

definition refresh_phase :: "env \<Rightarrow> loan_proposal \<Rightarrow> loan_proposal run" where
  "refresh_phase env p0 =
     (let p = (if p_phase p0 = Editing \<and> env_now env \<ge> p_editing_period_end p0
               then p0\<lparr>p_phase := Voting\<rparr> else p0) in
      if p_phase p = Voting then
        and_then (u64_add (p_editing_period_end p) (p_voting_period p)) (\<lambda>voting_end.
        ret (if env_now env > voting_end \<and> p_status p = Pending
             then p\<lparr>p_phase := PhExpired, p_status := StExpired\<rparr> else p))
      else ret p)"

definition approve_and_disburse :: "env \<Rightarrow> loan_proposal \<Rightarrow> unit run" where
  "approve_and_disburse env p =
     and_then (get_loan_asset (p_id p)) (\<lambda>asset.
     and_then (treasury_balance_in_asset env asset) (\<lambda>treasury.
     seq (reject_if (treasury < p_amount p) InsufficientTreasury) (
     and_then get_policy (\<lambda>policy.
     and_then (ok_or (checked_mul treasury (int (pol_max_loan_to_treasury_ratio policy)))
                 ExceedsTreasuryRatio) (\<lambda>v.
     seq (reject_if (p_amount p > v sdiv BASIS_POINTS) ExceedsTreasuryRatio) (
     and_then (quote_terms (p_amount p) treasury) (\<lambda>terms.
     and_then (u64_add (env_now env) (lt_duration terms)) (\<lambda>due.
     seq (set_loan
       \<lparr>l_id = p_id p, l_borrower = p_borrower p, l_principal = p_amount p,
        l_interest_rate = lt_interest_rate terms, l_total_repayment = lt_total_repayment terms,
        l_start_time = env_now env, l_due_time = due, l_status = LoanActive, l_amount_repaid = 0\<rparr>) (
     and_then (reads (get_member (p_borrower p))) (\<lambda>mv.
     and_then (ok_or mv NotMember) (\<lambda>b.
     and_then (u32_add (m_total_loans b) 1) (\<lambda>total_loans.
     and_then (u32_add (m_active_loans b) 1) (\<lambda>active_loans.
     seq (set_member (b\<lparr>m_has_active_loan := True, m_last_loan_time := env_now env,
                         m_total_loans := total_loans, m_active_loans := active_loans\<rparr>)) (
     seq (token_transfer env asset (env_self env) (p_borrower p) (p_amount p)) (
     publish (Ev_loan_appr (p_id p) (p_borrower p) (p_amount p) due asset))))))))))))))))"

text \<open>The ballot itself: the vote is added to the proposal and the voter is marked.\<close>

definition cast_loan_vote :: "env \<Rightarrow> address \<Rightarrow> u32 \<Rightarrow> bool \<Rightarrow> loan_proposal \<Rightarrow> loan_proposal run" where
  "cast_loan_vote env voter proposal_id support p =
     and_then (voting_weight voter) (\<lambda>weight.
     and_then (if support
               then and_then (i128_add (p_for_votes p) weight) (\<lambda>v. ret (p\<lparr>p_for_votes := v\<rparr>))
               else and_then (i128_add (p_against_votes p) weight) (\<lambda>v. ret (p\<lparr>p_against_votes := v\<rparr>))) (\<lambda>p.
     and_then (u32_add (p_votes_cast p) 1) (\<lambda>n.
     seq (set_loan_voted proposal_id voter) (
     seq (publish (Ev_loan_vote proposal_id voter support)) (
     ret (p\<lparr>p_votes_cast := n\<rparr>))))))"

definition loan_quorum :: "u32 \<Rightarrow> i128 run" where
  "loan_quorum active_members =
     and_then get_policy (\<lambda>policy.
     and_then (if pol_quorum_bps policy > 0 then ret (pol_quorum_bps policy) else get_threshold) (\<lambda>threshold.
     required_votes active_members threshold))"

definition max_remaining_votes :: "u32 \<Rightarrow> u32 \<Rightarrow> i128 run" where
  "max_remaining_votes active_members votes_cast =
     i128_mul (int (u32_saturating_sub active_members votes_cast)) (1 + MAX_STAKE_BONUS)"

text \<open>What follows the ballot: approval with an attempted disbursement, or early rejection.\<close>

definition conclude_loan_vote :: "env \<Rightarrow> u32 \<Rightarrow> i128 \<Rightarrow> loan_proposal \<Rightarrow> loan_proposal run" where
  "conclude_loan_vote env active_members required p =
     (if p_for_votes p \<ge> required \<and> p_status p = Pending then
        (let p = p\<lparr>p_status := ApprovedPendingDisbursement, p_phase := PhExecuted\<rparr> in
         seq (set_loan_proposal env p) (
         and_then (is_ok (approve_and_disburse env p)) (\<lambda>ok.
         if ok then ret (p\<lparr>p_status := Approved\<rparr>)
         else seq (publish (Ev_loan_wait (p_id p) (p_amount p))) (ret p))))
      else if p_status p = Pending then
        and_then (max_remaining_votes active_members (p_votes_cast p)) (\<lambda>max_remaining.
        and_then (i128_add (p_for_votes p) max_remaining) (\<lambda>reachable.
        if reachable < required then
          (let p = p\<lparr>p_status := Rejected, p_phase := PhExpired\<rparr> in
           seq (publish (Ev_loan_rej (p_id p) (p_for_votes p) (p_against_votes p))) (ret p))
        else ret p))
      else ret p)"

definition vote_on_loan_proposal_internal :: "env \<Rightarrow> address \<Rightarrow> u32 \<Rightarrow> bool \<Rightarrow> unit run" where
  "vote_on_loan_proposal_internal env voter proposal_id support =
     and_then (load_loan_proposal proposal_id) (\<lambda>p0.
     and_then (refresh_phase env p0) (\<lambda>p.
     seq (reject_if (p_phase p = Editing) NotInVotingPhase) (
     seq (reject_if (p_phase p \<noteq> Voting) VotingEnded) (
     and_then (u64_add (p_editing_period_end p) (p_voting_period p)) (\<lambda>voting_end.
     seq (reject_if (env_now env \<ge> voting_end) VotingEnded) (
     seq (reject_if (voter = p_borrower p) BorrowerCannotVote) (
     and_then (reads (has_loan_voted proposal_id voter)) (\<lambda>voted.
     seq (reject_if voted AlreadyVoted) (
     and_then (cast_loan_vote env voter proposal_id support p) (\<lambda>p.
     and_then (reads get_active_members) (\<lambda>active_members.
     and_then (loan_quorum active_members) (\<lambda>required.
     and_then (conclude_loan_vote env active_members required p) (\<lambda>p.
     set_loan_proposal env p)))))))))))))"

definition vote_on_loan_proposal :: "env \<Rightarrow> address \<Rightarrow> u32 \<Rightarrow> bool \<Rightarrow> unit run" where
  "vote_on_loan_proposal env voter proposal_id support =
     seq require_initialized (
     seq require_not_paused (
     and_then (require_active_member env voter) (\<lambda>_.
     vote_on_loan_proposal_internal env voter proposal_id support)))"

definition vote_batch :: "env \<Rightarrow> address \<Rightarrow> proposal_vote list \<Rightarrow> unit run" where
  "vote_batch env voter votes =
     seq require_initialized (
     seq require_not_paused (
     and_then (require_active_member env voter) (\<lambda>_.
     for_each votes (\<lambda>v. vote_on_loan_proposal_internal env voter (pv_proposal_id v) (pv_vote v)))))"

definition disburse_approved_loan :: "env \<Rightarrow> u32 \<Rightarrow> unit run" where
  "disburse_approved_loan env proposal_id =
     seq require_initialized (
     seq require_not_paused (
     and_then (load_loan_proposal proposal_id) (\<lambda>p.
     seq (reject_if (p_status p \<noteq> ApprovedPendingDisbursement) NotInVotingPhase) (
     seq (approve_and_disburse env p) (
     set_loan_proposal env (p\<lparr>p_status := Approved\<rparr>))))))"

definition expire_loan_proposal :: "env \<Rightarrow> u32 \<Rightarrow> unit run" where
  "expire_loan_proposal env proposal_id =
     seq require_initialized (
     seq require_not_paused (
     and_then (load_loan_proposal proposal_id) (\<lambda>p0.
     and_then (refresh_phase env p0) (\<lambda>p.
     seq (reject_if (p_phase p \<noteq> PhExpired) ProposalNotExpired) (
     and_then (reads (get_loan_proposal proposal_id)) (\<lambda>original.
     if (case original of None \<Rightarrow> False | Some q \<Rightarrow> p_phase q = PhExpired) then ret ()
     else seq (set_loan_proposal env p) (publish (Ev_loan_exp proposal_id (p_borrower p)))))))))"

section \<open>Yield\<close>

definition distribute_interest :: "i128 \<Rightarrow> address \<Rightarrow> unit run" where
  "distribute_interest interest asset =
     and_then (reads get_active_members) (\<lambda>n.
     let active = int n in
     if interest \<le> 0 \<or> active = 0 then ret ()
     else
       and_then (reads get_yield_remainder) (\<lambda>carried.
       and_then (i128_add interest carried) (\<lambda>total_interest.
       let per_member = total_interest sdiv active; remainder = total_interest smod active in
       seq (set_yield_remainder remainder) (
       seq (when_do (per_member > 0)
              (and_then (reads get_yield_accumulator) (\<lambda>current.
               and_then (i128_add current per_member) set_yield_accumulator))) (
       publish (Ev_interest interest active asset))))))"

section \<open>Repayment and default\<close>

definition overdue_penalty :: "loan_policy \<Rightarrow> i128 \<Rightarrow> i128" where
  "overdue_penalty policy outstanding =
     (if outstanding > 0 \<and> pol_default_penalty_bps policy > 0
      then unwrap_or (ceil_bps outstanding (int (pol_default_penalty_bps policy))) 0 else 0)"

text \<open>The balance owed now, and the loan with an overdue penalty added to its terms.\<close>

definition settle_overdue :: "env \<Rightarrow> loan \<Rightarrow> (i128 \<times> loan) run" where
  "settle_overdue env l =
     and_then (i128_sub (l_total_repayment l) (l_amount_repaid l)) (\<lambda>outstanding.
     if env_now env > l_due_time l then
       and_then get_policy (\<lambda>policy.
       let penalty = overdue_penalty policy outstanding in
       and_then (i128_add outstanding penalty) (\<lambda>owed.
       and_then (i128_add (l_total_repayment l) penalty) (\<lambda>total_repayment.
       and_then (i128_add (l_principal l) penalty) (\<lambda>principal.
       ret (owed, l\<lparr>l_total_repayment := total_repayment, l_principal := principal\<rparr>)))))
     else ret (outstanding, l))"

definition close_if_repaid :: "address \<Rightarrow> i128 \<Rightarrow> loan \<Rightarrow> loan run" where
  "close_if_repaid borrower remaining l =
     (if remaining = 0 then
        and_then (reads (get_member borrower)) (\<lambda>mv.
        seq (case mv of
               None \<Rightarrow> ret ()
             | Some m \<Rightarrow>
                 and_then (u32_add (m_repaid_loans m) 1) (\<lambda>repaid.
                 set_member (m\<lparr>m_has_active_loan := False, m_repaid_loans := repaid,
                   m_active_loans := u32_saturating_sub (m_active_loans m) 1\<rparr>)))
          (ret (l\<lparr>l_status := Repaid\<rparr>)))
      else ret l)"

definition repay_loan_internal :: "env \<Rightarrow> address \<Rightarrow> u32 \<Rightarrow> i128 option \<Rightarrow> unit run" where
  "repay_loan_internal env borrower loan_id amount_opt =
     seq require_initialized (
     seq require_not_paused (
     seq (require_auth env borrower) (
     and_then (reads (get_loan loan_id)) (\<lambda>lv.
     and_then (ok_or lv LoanNotFound) (\<lambda>l0.
     seq (reject_if (l_borrower l0 \<noteq> borrower) NotBorrower) (
     seq (reject_if (l_status l0 \<noteq> LoanActive) LoanNotActive) (
     and_then (settle_overdue env l0) (\<lambda>(outstanding, l1).
     let amount = unwrap_or amount_opt outstanding in
     seq (reject_if (amount \<le> 0 \<or> amount > outstanding) InvalidAmount) (
     and_then (get_loan_asset loan_id) (\<lambda>asset.
     and_then (i128_sub (l_total_repayment l1) (l_principal l1)) (\<lambda>interest_total.
     and_then (i128_add (l_amount_repaid l1) amount) (\<lambda>repaid.
     and_then (i128_sub (min repaid interest_total)
                        (min (l_amount_repaid l1) interest_total)) (\<lambda>interest_component.
     and_then (i128_sub (l_total_repayment l1) repaid) (\<lambda>remaining.
     and_then (close_if_repaid borrower remaining (l1\<lparr>l_amount_repaid := repaid\<rparr>)) (\<lambda>l2.
     seq (set_loan l2) (
     and_then get_token (\<lambda>base.
     seq (when_do (asset = base) (distribute_interest interest_component asset)) (
     seq (token_transfer env asset borrower (env_self env) amount) (
     publish (Ev_loan_rpy loan_id borrower remaining asset))))))))))))))))))))"

definition repay_loan :: "env \<Rightarrow> address \<Rightarrow> u32 \<Rightarrow> unit run" where
  "repay_loan env borrower loan_id = repay_loan_internal env borrower loan_id None"

definition repay_loan_in_asset :: "env \<Rightarrow> address \<Rightarrow> u32 \<Rightarrow> address \<Rightarrow> unit run" where
  "repay_loan_in_asset env borrower loan_id asset =
     seq require_initialized (
     and_then (reads (get_loan loan_id)) (\<lambda>lv.
     seq (reject_if (lv = None) LoanNotFound) (
     and_then (get_loan_asset loan_id) (\<lambda>a.
     seq (reject_if (a \<noteq> asset) AssetMismatch) (
     repay_loan_internal env borrower loan_id None)))))"

definition repay_loan_partial :: "env \<Rightarrow> address \<Rightarrow> u32 \<Rightarrow> i128 \<Rightarrow> unit run" where
  "repay_loan_partial env borrower loan_id amount = repay_loan_internal env borrower loan_id (Some amount)"

text \<open>\<open>repay_partial\<close> is dead code: no entrypoint calls it. It draws a fresh id as a side effect.\<close>

definition repay_partial :: "env \<Rightarrow> address \<Rightarrow> i128 \<Rightarrow> unit run" where
  "repay_partial env borrower amount =
     and_then (next_id NextProposalId) (\<lambda>n.
     and_then (reads (\<lambda>s. List.find (\<lambda>i. case get_loan i s of
                 None \<Rightarrow> False
               | Some l \<Rightarrow> l_borrower l = borrower \<and> l_status l = LoanActive) [1..<n])) (\<lambda>found.
     and_then (ok_or found LoanNotFound) (\<lambda>loan_id.
     seq (repay_loan_internal env borrower loan_id (Some amount)) (
     publish (Ev_loan_partial_repaid borrower amount)))))"

definition default_slash :: "loan_policy \<Rightarrow> member \<Rightarrow> i128" where
  "default_slash policy m =
     (if m_contribution m > 0 \<and> pol_default_penalty_bps policy > 0
      then min (unwrap_or (ceil_bps (m_contribution m) (int (pol_default_penalty_bps policy)))
                  (m_contribution m)) (m_contribution m)
      else 0)"

definition slash_borrower :: "loan_policy \<Rightarrow> address \<Rightarrow> i128 run" where
  "slash_borrower policy borrower =
     and_then (reads (get_member borrower)) (\<lambda>mv.
     case mv of
       None \<Rightarrow> ret 0
     | Some m \<Rightarrow>
         let penalty = default_slash policy m in
         and_then (i128_sub (m_contribution m) penalty) (\<lambda>contribution.
         seq (set_member (m\<lparr>m_contribution := contribution, m_has_active_loan := False,
                m_active_loans := u32_saturating_sub (m_active_loans m) 1\<rparr>)) (
         seq (when_do (penalty > 0)
                (and_then (reads get_active_contributions) (\<lambda>c.
                 and_then (i128_sub c penalty) set_active_contributions))) (
         and_then (reads get_yield_accumulator) (\<lambda>acc.
         seq (set_yield_snapshot borrower acc) (ret penalty))))))"

definition mark_loan_defaulted :: "env \<Rightarrow> u32 \<Rightarrow> unit run" where
  "mark_loan_defaulted env loan_id =
     seq require_initialized (
     seq require_not_paused (
     and_then (reads (get_loan loan_id)) (\<lambda>lv.
     and_then (ok_or lv LoanNotFound) (\<lambda>l.
     seq (reject_if (l_status l \<noteq> LoanActive) LoanNotActive) (
     and_then get_policy (\<lambda>policy.
     and_then (u64_add (l_due_time l) (pol_default_grace_period policy)) (\<lambda>overdue_at.
     seq (reject_if (env_now env < overdue_at) LoanNotOverdue) (
     seq (set_loan (l\<lparr>l_status := Defaulted\<rparr>)) (
     and_then (slash_borrower policy (l_borrower l)) (\<lambda>penalty.
     publish (Ev_loan_dflt loan_id (l_borrower l) penalty)))))))))))"

section \<open>Keys written\<close>

lemma writes_pricing [writes_intros]:
  "writes F (quote_ratio a b)"
  "writes F (quote_rate policy r)"
  "writes F (quote_interest a b)"
  "writes F (quote_terms a b)"
  "writes F (calculate_loan_terms env a)"
  "writes F (is_eligible_for_loan env who)"
  "writes F (check_metadata_cid cid)"
  "writes F (load_loan_proposal i)"
  "writes F (refresh_phase env p)"
  "writes F (loan_quorum n)"
  "writes F (max_remaining_votes n m)"
  "writes F (settle_overdue env l)"
  by (auto simp: quote_ratio_def quote_rate_def quote_interest_def quote_terms_def
      calculate_loan_terms_def is_eligible_for_loan_def check_metadata_cid_def
      load_loan_proposal_def refresh_phase_def loan_quorum_def max_remaining_votes_def
      settle_overdue_def
      intro!: writes_intros)

lemma writes_loan_proposals [writes_intros]:
  "{FNextProposalId, FLoanProposal, FOpenProposals, FLoanAsset, FEvents} \<subseteq> F \<Longrightarrow> writes F (request_loan_in_asset env who a asset cid)"
  "{FLoanProposal, FOpenProposals, FEvents} \<subseteq> F \<Longrightarrow> writes F (edit_loan_proposal env who i a)"
  "{FLoanProposal, FOpenProposals, FEvents} \<subseteq> F \<Longrightarrow> writes F (cancel_loan_proposal env who i)"
  "{FLoanProposal, FOpenProposals, FEvents} \<subseteq> F \<Longrightarrow> writes F (expire_loan_proposal env i)"
  by (auto simp: request_loan_in_asset_def edit_loan_proposal_def cancel_loan_proposal_def
      expire_loan_proposal_def
      intro!: writes_intros)

lemma writes_request_loan [writes_intros]:
  "{FNextProposalId, FLoanProposal, FOpenProposals, FLoanAsset, FEvents} \<subseteq> F \<Longrightarrow> writes F (request_loan env who a cid)"
  by (auto simp: request_loan_def
      intro!: writes_intros)

lemma writes_approve [writes_intros]:
  "{FLoan, FMember, FLedger, FEvents} \<subseteq> F \<Longrightarrow> writes F (approve_and_disburse env p)"
  by (auto simp: approve_and_disburse_def
      intro!: writes_intros)

lemma writes_ballot [writes_intros]:
  "{FLoanVoted, FEvents} \<subseteq> F \<Longrightarrow> writes F (cast_loan_vote env who i b p)"
  "{FLoanProposal, FOpenProposals, FLoan, FMember, FLedger, FEvents} \<subseteq> F \<Longrightarrow> writes F (conclude_loan_vote env n r p)"
  by (auto simp: cast_loan_vote_def conclude_loan_vote_def
      intro!: writes_intros)

lemma writes_loan_vote [writes_intros]:
  "{FLoanVoted, FLoanProposal, FOpenProposals, FLoan, FMember, FLedger, FEvents} \<subseteq> F \<Longrightarrow> writes F (vote_on_loan_proposal_internal env who i b)"
  by (auto simp: vote_on_loan_proposal_internal_def
      intro!: writes_intros)

lemma writes_loan_votes [writes_intros]:
  "{FLoanVoted, FLoanProposal, FOpenProposals, FLoan, FMember, FLedger, FEvents} \<subseteq> F \<Longrightarrow> writes F (vote_on_loan_proposal env who i b)"
  "{FLoanVoted, FLoanProposal, FOpenProposals, FLoan, FMember, FLedger, FEvents} \<subseteq> F \<Longrightarrow> writes F (vote_batch env who votes)"
  "{FLoanProposal, FOpenProposals, FLoan, FMember, FLedger, FEvents} \<subseteq> F \<Longrightarrow> writes F (disburse_approved_loan env i)"
  by (auto simp: vote_on_loan_proposal_def vote_batch_def disburse_approved_loan_def
      intro!: writes_intros)

lemma writes_interest [writes_intros]:
  "{FYieldAccumulator, FYieldRemainder, FEvents} \<subseteq> F \<Longrightarrow> writes F (distribute_interest i asset)"
  "{FMember} \<subseteq> F \<Longrightarrow> writes F (close_if_repaid who r l)"
  "{FMember, FActiveContributions, FMemberYieldSnapshot} \<subseteq> F \<Longrightarrow> writes F (slash_borrower policy who)"
  by (auto simp: distribute_interest_def close_if_repaid_def slash_borrower_def
      intro!: writes_intros)

lemma writes_repay_internal [writes_intros]:
  "{FMember, FLoan, FYieldAccumulator, FYieldRemainder, FLedger, FEvents} \<subseteq> F \<Longrightarrow> writes F (repay_loan_internal env who i a)"
  "{FLoan, FMember, FActiveContributions, FMemberYieldSnapshot, FEvents} \<subseteq> F \<Longrightarrow> writes F (mark_loan_defaulted env i)"
  by (auto simp: repay_loan_internal_def mark_loan_defaulted_def
      intro!: writes_intros)

lemma writes_repay [writes_intros]:
  "{FMember, FLoan, FYieldAccumulator, FYieldRemainder, FLedger, FEvents} \<subseteq> F \<Longrightarrow> writes F (repay_loan env who i)"
  "{FMember, FLoan, FYieldAccumulator, FYieldRemainder, FLedger, FEvents} \<subseteq> F \<Longrightarrow> writes F (repay_loan_in_asset env who i asset)"
  "{FMember, FLoan, FYieldAccumulator, FYieldRemainder, FLedger, FEvents} \<subseteq> F \<Longrightarrow> writes F (repay_loan_partial env who i x)"
  by (auto simp: repay_loan_def repay_loan_in_asset_def repay_loan_partial_def
      intro!: writes_intros)

section \<open>Runs\<close>

definition eligible :: "env \<Rightarrow> loan_policy \<Rightarrow> member \<Rightarrow> bool" where
  "eligible env policy m \<longleftrightarrow>
     m_status m = ActiveMember \<and> \<not> m_has_active_loan m \<and>
     pol_min_membership_duration policy \<le> env_now env - m_join_time m \<and>
     (m_last_loan_time m \<noteq> 0 \<longrightarrow> pol_cooldown_period policy \<le> env_now env - m_last_loan_time m)"

text \<open>The phase a proposal has at the current time.\<close>

definition refreshed :: "env \<Rightarrow> loan_proposal \<Rightarrow> loan_proposal" where
  "refreshed env p0 =
     (let p = (if p_phase p0 = Editing \<and> env_now env \<ge> p_editing_period_end p0
               then p0\<lparr>p_phase := Voting\<rparr> else p0) in
      if p_phase p = Voting \<and> env_now env > p_editing_period_end p + p_voting_period p \<and> p_status p = Pending
      then p\<lparr>p_phase := PhExpired, p_status := StExpired\<rparr> else p)"

lemma ok_loan_checks [ok_simps]:
  "check_metadata_cid cid s = Ok u t \<longleftrightarrow>
     (case cid of None \<Rightarrow> True | Some x \<Rightarrow> x \<noteq> [] \<and> length x \<le> 64) \<and> t = s"
  "is_eligible_for_loan env who s = Ok u t \<longleftrightarrow>
     t = s \<and> (\<exists>m policy. kMember s who = Some m \<and> kPolicy s = Some policy \<and> eligible env policy m)"
  "load_loan_proposal i s = Ok p t \<longleftrightarrow> kLoanProposal s i = Some p \<and> t = s"
  "max_remaining_votes n m s = Ok x t \<longleftrightarrow> in_i128 (int (n - m) * 6) \<and> x = int (n - m) * 6 \<and> t = s"
  by (auto simp: check_metadata_cid_def is_eligible_for_loan_def eligible_def load_loan_proposal_def
      max_remaining_votes_def u32_saturating_sub_def u64_saturating_sub_def storage_defs ok_simps
      split: option.splits)

lemma ok_refresh_phase [ok_simps]:
  "refresh_phase env p0 s = Ok p t \<longleftrightarrow>
     t = s \<and> p = refreshed env p0 \<and>
     (p_phase p0 = Voting \<or> p_phase p0 = Editing \<and> env_now env \<ge> p_editing_period_end p0 \<longrightarrow>
      p_editing_period_end p0 + p_voting_period p0 \<le> u64_MAX)"
  by (auto simp: refresh_phase_def refreshed_def ok_simps Let_def)

lemma ok_loan_pricing [ok_simps]:
  "quote_terms a b s = Ok x t \<longleftrightarrow> t = s \<and> returns (quote_terms a b) s x"
  "loan_quorum n s = Ok q t \<longleftrightarrow> t = s \<and> returns (loan_quorum n) s q"
  by (intro pure_ok writes_intros)+

section \<open>The disbursement\<close>

definition disbursed_loan :: "env \<Rightarrow> loan_proposal \<Rightarrow> loan_terms \<Rightarrow> loan" where
  "disbursed_loan env p terms =
     \<lparr>l_id = p_id p, l_borrower = p_borrower p, l_principal = p_amount p,
      l_interest_rate = lt_interest_rate terms, l_total_repayment = lt_total_repayment terms,
      l_start_time = env_now env, l_due_time = env_now env + lt_duration terms,
      l_status = LoanActive, l_amount_repaid = 0\<rparr>"

definition indebted :: "u64 \<Rightarrow> member \<Rightarrow> member" where
  "indebted now b = b\<lparr>m_has_active_loan := True, m_last_loan_time := now,
                     m_total_loans := m_total_loans b + 1, m_active_loans := m_active_loans b + 1\<rparr>"

definition disburses :: "env \<Rightarrow> loan_proposal \<Rightarrow> loan_policy \<Rightarrow> loan_terms \<Rightarrow> member \<Rightarrow> ledger \<Rightarrow> dao \<Rightarrow> dao \<Rightarrow> bool" where
  "disburses env p policy terms b l s t \<longleftrightarrow>
    (let asset = asset_of (kLoanAsset s) (p_id p) s; treasury = spendable env asset s in
    kPolicy s = Some policy \<and> p_amount p \<le> treasury \<and>
    in_i128 (treasury * int (pol_max_loan_to_treasury_ratio policy)) \<and>
    p_amount p \<le> (treasury * int (pol_max_loan_to_treasury_ratio policy)) sdiv 10000 \<and>
    returns (quote_terms (p_amount p) treasury) s terms \<and>
    kMember s (p_borrower p) = Some b \<and>
    env_transfer env asset (env_self env) (p_borrower p) (p_amount p) (ledger s) = Some l \<and>
    t = s\<lparr>kLoan := (kLoan s)(p_id p \<mapsto> disbursed_loan env p terms),
          kMember := (kMember s)(m_address b \<mapsto> indebted (env_now env) b),
          ledger := l,
          events := events s @ [Ev_loan_appr (p_id p) (p_borrower p) (p_amount p)
                                  (env_now env + lt_duration terms) asset]\<rparr>)"

lemma no_err_pricing [no_err_intros]:
  "no_err (ceil_div_nonnegative v d)" "no_err get_policy"
  by (auto simp: no_err_def err_simps)

lemma no_err_pricing2 [no_err_intros]:
  "no_err (quote_ratio a b)" "no_err (quote_rate policy r)" "no_err (quote_interest a r)" "no_err (quote_terms a b)"
  by (auto simp: quote_ratio_def quote_rate_def quote_interest_def quote_terms_def intro!: no_err_intros)

lemma err_quote [err_simps]: "quote_terms a b s = Err e t \<longleftrightarrow> False"
  by (rule no_errD) (rule no_err_pricing2)

lemma err_approve:
  "approve_and_disburse env p s = Err e t \<Longrightarrow> t = s \<or> kMember s (p_borrower p) = None \<and> (\<exists>l. t = s\<lparr>kLoan := (kLoan s)(p_id p \<mapsto> l)\<rparr>)"
  by (auto simp: approve_and_disburse_def ok_simps err_simps accessor_defs)

lemma ok_approve:
  "approve_and_disburse env p s = Ok u t \<Longrightarrow> \<exists>policy terms b l. disburses env p policy terms b l s t"
  by (auto simp: approve_and_disburse_def ok_simps accessor_defs checked_Some not_less disburses_def
      disbursed_loan_def indebted_def Let_def)

section \<open>The repayment\<close>

text \<open>The penalty a payment at the current time incurs, and the loan with it added.\<close>

definition penalty_due :: "env \<Rightarrow> dao \<Rightarrow> loan \<Rightarrow> i128" where
  "penalty_due env s l =
     (if env_now env > l_due_time l
      then overdue_penalty (the (kPolicy s)) (l_total_repayment l - l_amount_repaid l) else 0)"

definition settled :: "env \<Rightarrow> dao \<Rightarrow> loan \<Rightarrow> loan" where
  "settled env s l =
     l\<lparr>l_total_repayment := l_total_repayment l + penalty_due env s l,
       l_principal := l_principal l + penalty_due env s l\<rparr>"

definition owed :: "loan \<Rightarrow> i128" where
  "owed l = l_total_repayment l - l_amount_repaid l"

definition interest_total :: "loan \<Rightarrow> i128" where
  "interest_total l = l_total_repayment l - l_principal l"

definition interest_part :: "loan \<Rightarrow> i128 \<Rightarrow> i128" where
  "interest_part l paid =
     min (l_amount_repaid l + paid) (interest_total l) - min (l_amount_repaid l) (interest_total l)"

definition after_payment :: "loan \<Rightarrow> i128 \<Rightarrow> loan" where
  "after_payment l paid =
     l\<lparr>l_amount_repaid := l_amount_repaid l + paid,
       l_status := (if owed l = paid then Repaid else l_status l)\<rparr>"

definition relieved :: "member \<Rightarrow> member" where
  "relieved m =
     m\<lparr>m_has_active_loan := False, m_repaid_loans := m_repaid_loans m + 1,
       m_active_loans := m_active_loans m - 1\<rparr>"

text \<open>The members after a payment: the borrower of a closed loan is relieved.\<close>

definition relieve :: "address \<Rightarrow> bool \<Rightarrow> (address \<rightharpoonup> member) \<Rightarrow> address \<rightharpoonup> member" where
  "relieve who closed ms =
     (if closed then (case ms who of None \<Rightarrow> ms | Some m \<Rightarrow> ms(m_address m \<mapsto> relieved m)) else ms)"

lemma ok_settle_overdue [ok_simps]:
  "settle_overdue env l s = Ok r t \<longleftrightarrow>
     t = s \<and> r = (owed (settled env s l), settled env s l) \<and> in_i128 (owed l) \<and>
     (env_now env > l_due_time l \<longrightarrow>
        kPolicy s \<noteq> None \<and> in_i128 (owed l + penalty_due env s l) \<and>
        in_i128 (l_total_repayment l + penalty_due env s l) \<and> in_i128 (l_principal l + penalty_due env s l))"
  by (cases "env_now env > l_due_time l")
    (auto simp: settle_overdue_def settled_def penalty_due_def owed_def ok_simps Let_def)

lemma ok_close_if_repaid:
  "close_if_repaid who remaining l s = Ok l' t \<Longrightarrow>
     t = s\<lparr>kMember := relieve who (remaining = 0) (kMember s)\<rparr> \<and>
     l' = (if remaining = 0 then l\<lparr>l_status := Repaid\<rparr> else l)"
  by (auto simp: close_if_repaid_def relieve_def relieved_def ok_simps accessor_defs
      u32_saturating_sub_def split: if_splits option.splits)

text \<open>The yield keys after interest came in.\<close>

definition yield_split :: "i128 \<Rightarrow> dao \<Rightarrow> i128 \<times> i128" where
  "yield_split interest s =
     (let n = int (get_active_members s); pot = interest + get_yield_remainder s in
      if interest \<le> 0 \<or> n = 0 then (get_yield_accumulator s, get_yield_remainder s)
      else (if 0 < pot sdiv n then get_yield_accumulator s + pot sdiv n else get_yield_accumulator s, pot smod n))"

lemma yield_split_frame:
  "yield_split interest (s\<lparr>kMember := ms, kLoan := ls\<rparr>) = yield_split interest s"
  by (simp add: yield_split_def accessor_defs cong: if_cong)

lemma ok_distribute_interest:
  assumes "distribute_interest interest asset s = Ok u t"
  shows "agree {FYieldAccumulator, FYieldRemainder, FEvents} s t"
    and "(get_yield_accumulator t, get_yield_remainder t) = yield_split interest s"
proof -
  show "agree {FYieldAccumulator, FYieldRemainder, FEvents} s t"
    using writes_Ok [of _ "distribute_interest interest asset", OF _ assms] by (simp add: writes_intros)
  show "(get_yield_accumulator t, get_yield_remainder t) = yield_split interest s"
  proof (cases "interest \<le> 0 \<or> get_active_members s = 0")
    case True
    with assms show ?thesis
      by (auto simp: distribute_interest_def yield_split_def ok_simps Let_def)
  next
    case False
    with assms show ?thesis
      by (cases "0 < (interest + get_yield_remainder s) sdiv int (get_active_members s)")
        (simp_all add: distribute_interest_def yield_split_def ok_simps Let_def, simp_all add: accessor_defs ok_simps)
  qed
qed

lemma after_payment_alt:
  "after_payment l paid =
     (if l_total_repayment l - (l_amount_repaid l + paid) = 0
      then l\<lparr>l_amount_repaid := l_amount_repaid l + paid, l_status := Repaid\<rparr>
      else l\<lparr>l_amount_repaid := l_amount_repaid l + paid\<rparr>)"
  by (cases l) (simp add: after_payment_def owed_def)

lemma owed_iff: "owed l = paid \<longleftrightarrow> l_total_repayment l - (l_amount_repaid l + paid) = 0"
  by (auto simp: owed_def)

definition repays :: "env \<Rightarrow> address \<Rightarrow> u32 \<Rightarrow> i128 option \<Rightarrow> loan \<Rightarrow> i128 \<Rightarrow> dao \<Rightarrow> dao \<Rightarrow> bool" where
  "repays env who i amount l paid s t \<longleftrightarrow>
     (let l1 = settled env s l; asset = asset_of (kLoanAsset s) i s in
      kLoan s i = Some l \<and> l_borrower l = who \<and> l_status l = LoanActive \<and>
      paid = unwrap_or amount (owed l1) \<and> 0 < paid \<and> paid \<le> owed l1 \<and>
      kLoan t = (kLoan s)(l_id l \<mapsto> after_payment l1 paid) \<and>
      kMember t = relieve who (owed l1 = paid) (kMember s) \<and>
      env_transfer env asset who (env_self env) paid (ledger s) = Some (ledger t) \<and>
      (get_yield_accumulator t, get_yield_remainder t) =
        (if kToken s = Some asset then yield_split (interest_part l1 paid) s
         else (get_yield_accumulator s, get_yield_remainder s)))"

lemma ok_repay_internal:
  assumes "repay_loan_internal env who i amount s = Ok u t"
  shows "\<exists>l paid. repays env who i amount l paid s t"
proof -
  have side: "repays env w i amount l paid s (ua\<lparr>ledger := la, events := evs\<rparr>)"
    if "kLoan s i = Some l" "l_borrower l = w" "l_status l = LoanActive" "paid = unwrap_or amount (owed (settled env s l))"
      "0 < paid" "paid \<le> owed (settled env s l)"
      "u = s\<lparr>kMember := relieve w (owed (settled env s l) = paid) (kMember s)\<rparr>"
      "x = after_payment (settled env s l) paid"
      "kToken s = Some base"
      "if asset_of (kLoanAsset s) i s = base
       then distribute_interest (interest_part (settled env s l) paid) (asset_of (kLoanAsset s) i s)
              (u\<lparr>kLoan := (kLoan u)(l_id x \<mapsto> x)\<rparr>) = Ok () ua
       else ua = u\<lparr>kLoan := (kLoan u)(l_id x \<mapsto> x)\<rparr>"
      "env_transfer env (asset_of (kLoanAsset s) i s) w (env_self env) paid (ledger ua) = Some la"
    for l paid u x base ua la evs w
  proof -
    let ?v = "u\<lparr>kLoan := (kLoan u)(l_id x \<mapsto> x)\<rparr>"
    have id: "l_id x = l_id l" using that(8) by (simp add: after_payment_def settled_def)
    show ?thesis
    proof (cases "asset_of (kLoanAsset s) i s = base")
      case True
      with that(10) have d: "distribute_interest (interest_part (settled env s l) paid) base ?v = Ok () ua" by simp
      have "agree {FYieldAccumulator, FYieldRemainder, FEvents} ?v ua"
        using ok_distribute_interest(1) [OF d] .
      then have "kLoan ua = kLoan ?v" "kMember ua = kMember ?v" "ledger ua = ledger ?v"
        by (simp_all add: agree_def all_fields)
      moreover have "(get_yield_accumulator ua, get_yield_remainder ua) = yield_split (interest_part (settled env s l) paid) s"
        using ok_distribute_interest(2) [OF d] that(7) by (simp add: yield_split_frame)
      ultimately show ?thesis using that True id by (simp add: repays_def Let_def accessor_defs)
    next
      case False
      with that id show ?thesis by (simp add: repays_def Let_def accessor_defs)
    qed
  qed
  from assms show ?thesis
    apply (clarsimp simp: repay_loan_internal_def ok_simps accessor_defs Let_def)
    apply (drule ok_close_if_repaid)
    subgoal for l x u base ua la
      by (rule exI [of _ l], rule exI [of _ "unwrap_or amount (owed (settled env s l))"],
          rule side [where x = x and u = u and base = base and ua = ua])
        (auto simp: after_payment_alt owed_iff interest_part_def interest_total_def)
    done
qed

section \<open>The default\<close>

definition slashed :: "i128 \<Rightarrow> member \<Rightarrow> member" where
  "slashed penalty m =
     m\<lparr>m_contribution := m_contribution m - penalty, m_has_active_loan := False,
       m_active_loans := m_active_loans m - 1\<rparr>"

definition slash_of :: "loan_policy \<Rightarrow> member option \<Rightarrow> i128" where
  "slash_of policy v = (case v of None \<Rightarrow> 0 | Some m \<Rightarrow> default_slash policy m)"

definition defaults :: "loan_policy \<Rightarrow> address \<Rightarrow> dao \<Rightarrow> dao \<Rightarrow> bool" where
  "defaults policy who s t \<longleftrightarrow>
     (let penalty = slash_of policy (kMember s who) in
      kMember t = (case kMember s who of None \<Rightarrow> kMember s
                   | Some m \<Rightarrow> (kMember s)(m_address m \<mapsto> slashed penalty m)) \<and>
      get_active_contributions t = get_active_contributions s - (if penalty > 0 then penalty else 0) \<and>
      kMemberYieldSnapshot t = (case kMember s who of None \<Rightarrow> kMemberYieldSnapshot s
                   | Some m \<Rightarrow> (kMemberYieldSnapshot s)(who \<mapsto> get_yield_accumulator s)))"

lemma ok_slash_borrower:
  assumes "slash_borrower policy who s = Ok penalty t"
  shows "penalty = slash_of policy (kMember s who)" and "defaults policy who s t"
proof -
  have "penalty = slash_of policy (kMember s who) \<and> defaults policy who s t"
  proof (cases "kMember s who")
    case None
    with assms show ?thesis
      by (simp add: slash_borrower_def slash_of_def defaults_def ok_simps get_member_def Let_def)
  next
    case (Some m)
    with assms show ?thesis
      by (cases "default_slash policy m > 0")
        (auto simp: slash_borrower_def slash_of_def defaults_def slashed_def ok_simps accessor_defs
          u32_saturating_sub_def Let_def)
  qed
  then show "penalty = slash_of policy (kMember s who)" "defaults policy who s t" by auto
qed

lemma defaults_frame:
  "defaults policy who (s\<lparr>kLoan := ls\<rparr>) t = defaults policy who s t"
  "defaults policy who s (t\<lparr>events := es\<rparr>) = defaults policy who s t"
  by (cases "kMember s who"; simp add: defaults_def accessor_defs Let_def)+

lemma ok_mark_loan_defaulted:
  assumes "mark_loan_defaulted env i s = Ok u t"
  shows "\<exists>l policy. kLoan s i = Some l \<and> l_status l = LoanActive \<and> kPolicy s = Some policy \<and>
           l_due_time l + pol_default_grace_period policy \<le> env_now env \<and>
           kLoan t = (kLoan s)(l_id l \<mapsto> l\<lparr>l_status := Defaulted\<rparr>) \<and>
           defaults policy (l_borrower l) s t"
proof -
  from assms obtain l policy pen s1 where
    l: "kLoan s i = Some l" "l_status l = LoanActive" "kPolicy s = Some policy"
      "l_due_time l + pol_default_grace_period policy \<le> env_now env" and
    sl: "slash_borrower policy (l_borrower l) (s\<lparr>kLoan := (kLoan s)(l_id l \<mapsto> l\<lparr>l_status := Defaulted\<rparr>)\<rparr>)
           = Ok pen s1" and
    t: "t = s1\<lparr>events := events s1 @ [Ev_loan_dflt i (l_borrower l) pen]\<rparr>"
    by (auto simp: mark_loan_defaulted_def ok_simps get_loan_def set_loan_def not_less)
  have "kLoan s1 = (kLoan s)(l_id l \<mapsto> l\<lparr>l_status := Defaulted\<rparr>)"
    using writes_Ok [where F = "{FMember, FActiveContributions, FMemberYieldSnapshot}"
        and m = "slash_borrower policy (l_borrower l)", OF _ sl]
    by (simp add: writes_intros agree_def all_fields)
  with l t ok_slash_borrower(2) [OF sl] show ?thesis by (auto simp: defaults_frame)
qed

end
