(* ===== verification/Membership.thy ===== *)
theory Membership
  imports Loans
begin

text \<open>
  \<^verbatim>\<open>membership.rs\<close>: joining and rejoining, leaving with the pro-rata share, the stake and the
  unclaimed yield, claiming yield, delegating the vote, and the member overview.
\<close>

definition loan_counters :: "member option \<Rightarrow> u32 \<times> u32 \<times> u32" where
  "loan_counters existing =
     (case existing of
        Some r \<Rightarrow> (m_total_loans r, m_repaid_loans r, m_active_loans r)
      | None \<Rightarrow> (0, 0, 0))"

definition register_member :: "env \<Rightarrow> address \<Rightarrow> unit run" where
  "register_member env who =
     seq require_initialized (
     seq require_not_paused (
     seq (require_auth env who) (
     and_then (reads (get_member who)) (\<lambda>existing.
     seq (reject_if (case existing of None \<Rightarrow> False | Some r \<Rightarrow> m_status r = ActiveMember) AlreadyMember) (
     and_then get_membership_fee (\<lambda>fee.
     let (total_loans, repaid_loans, active_loans) = loan_counters existing in
     seq (set_member
       \<lparr>m_address = who, m_status = ActiveMember, m_join_time = env_now env, m_contribution = fee,
        m_share_balance = fee, m_has_active_loan = False, m_last_loan_time = 0,
        m_total_loans = total_loans, m_repaid_loans = repaid_loans, m_active_loans = active_loans\<rparr>) (
     and_then (reads get_yield_accumulator) (\<lambda>acc.
     seq (set_yield_snapshot who acc) (
     seq (when_do (existing = None)
       (and_then (reads get_members) (\<lambda>members.
        seq (set_members (members @ [who])) (
        and_then (reads get_total_members) (\<lambda>n.
        and_then (u32_add n 1) set_total_members))))) (
     and_then (reads get_active_members) (\<lambda>a.
     and_then (u32_add a 1) (\<lambda>a'.
     seq (set_active_members a') (
     and_then (reads get_active_contributions) (\<lambda>c.
     and_then (i128_add c fee) (\<lambda>c'.
     seq (set_active_contributions c') (
     and_then get_token (\<lambda>token.
     seq (token_transfer env token who (env_self env) fee) (
     publish (Ev_joined who fee)))))))))))))))))))"

definition share_from_contributions :: "i128 \<Rightarrow> i128 \<Rightarrow> i128 \<Rightarrow> i128" where
  "share_from_contributions treasury contribution total_contributions =
     (if total_contributions \<le> 0 \<or> treasury \<le> 0 \<or> contribution \<le> 0 then 0
      else unwrap_or (Option.bind (checked_mul treasury contribution)
                        (\<lambda>v. checked_div v total_contributions)) 0)"

definition calculate_exit_share :: "env \<Rightarrow> address \<Rightarrow> i128 run" where
  "calculate_exit_share env who =
     and_then (reads (get_member who)) (\<lambda>mv.
     case mv of
       None \<Rightarrow> ret 0
     | Some r \<Rightarrow>
         if m_status r = ActiveMember then
           and_then (reads get_active_contributions) (\<lambda>total_contributions.
           and_then (treasury_balance env) (\<lambda>treasury.
           ret (share_from_contributions treasury (m_contribution r) total_contributions)))
         else ret 0)"

definition compute_pending_yield :: "address \<Rightarrow> i128 run" where
  "compute_pending_yield who =
     and_then (reads get_yield_accumulator) (\<lambda>acc.
     and_then (reads (get_yield_snapshot who)) (\<lambda>snap.
     and_then (i128_sub acc snap) (\<lambda>d. ret (max d 0))))"

text \<open>
  \<open>total_active_contributions\<close>, the scan the maintained counter replaced (dead code). The sum of
  the iterator is a checked addition per member.
\<close>

definition add_active_contribution :: "address \<Rightarrow> i128 \<Rightarrow> i128 run" where
  "add_active_contribution addr acc =
     and_then (reads (get_member addr)) (\<lambda>v.
     case v of
       None \<Rightarrow> ret acc
     | Some m \<Rightarrow> if m_status m = ActiveMember then i128_add acc (m_contribution m) else ret acc)"

definition total_active_contributions :: "i128 run" where
  "total_active_contributions =
     and_then (reads get_members) (\<lambda>members. fold_prog add_active_contribution members 0)"

definition release_name :: "address \<Rightarrow> unit run" where
  "release_name who =
     and_then (reads (get_name_of who)) (\<lambda>v.
     case v of
       None \<Rightarrow> ret ()
     | Some name \<Rightarrow> seq (remove_name name) (seq (remove_name_of who) (publish (Ev_name_rel name who))))"

text \<open>
  The three conditional parts of \<open>exit_dao\<close>: the balance check, the release of the stake, and
  the final transfer.
\<close>

definition check_funds :: "env \<Rightarrow> address \<Rightarrow> i128 \<Rightarrow> unit run" where
  "check_funds env token payout =
     when_do (payout > 0)
       (and_then (token_balance env token (env_self env)) (\<lambda>contract_balance.
        reject_if (contract_balance < payout) InsufficientTreasury))"

definition unlock_stake :: "address \<Rightarrow> i128 \<Rightarrow> unit run" where
  "unlock_stake who staked =
     when_do (staked > 0)
       (seq (set_stake who 0)
        (and_then (reads get_total_staked) (\<lambda>t. and_then (i128_sub t staked) set_total_staked)))"

definition pay_out :: "env \<Rightarrow> address \<Rightarrow> address \<Rightarrow> i128 \<Rightarrow> unit run" where
  "pay_out env token who payout =
     when_do (payout > 0) (token_transfer env token (env_self env) who payout)"

definition exit_dao :: "env \<Rightarrow> address \<Rightarrow> unit run" where
  "exit_dao env who =
     seq require_initialized (
     seq require_not_paused (
     and_then (require_active_member env who) (\<lambda>r.
     seq (reject_if (m_has_active_loan r) HasActiveLoan) (
     and_then (calculate_exit_share env who) (\<lambda>share.
     and_then (reads (get_stake who)) (\<lambda>staked.
     and_then (compute_pending_yield who) (\<lambda>pending.
     and_then (i128_add share staked) (\<lambda>part.
     and_then (i128_add part pending) (\<lambda>payout.
     and_then get_token (\<lambda>token.
     seq (check_funds env token payout) (
     seq (unlock_stake who staked) (
     and_then (reads get_yield_accumulator) (\<lambda>acc.
     seq (set_yield_snapshot who acc) (
     seq (release_name who) (
     seq (set_member (r\<lparr>m_status := Inactive, m_share_balance := 0\<rparr>)) (
     and_then (reads get_active_members) (\<lambda>a.
     and_then (u32_sub a 1) (\<lambda>a'.
     seq (set_active_members a') (
     and_then (reads get_active_contributions) (\<lambda>c.
     and_then (i128_sub c (m_contribution r)) (\<lambda>c'.
     seq (set_active_contributions c') (
     seq (pay_out env token who payout) (
     publish (Ev_exited who share pending))))))))))))))))))))))))"

definition claim_rewards :: "env \<Rightarrow> address \<Rightarrow> i128 run" where
  "claim_rewards env who =
     seq require_initialized (
     seq require_not_paused (
     and_then (require_active_member env who) (\<lambda>_.
     and_then (compute_pending_yield who) (\<lambda>pending.
     seq (reject_if (pending \<le> 0) NothingToClaim) (
     and_then (reads get_yield_accumulator) (\<lambda>acc.
     seq (set_yield_snapshot who acc) (
     and_then get_token (\<lambda>token.
     seq (token_transfer env token (env_self env) who pending) (
     seq (publish (Ev_claimed who pending
            \<lparr>src_member = who, src_amount = pending, src_timestamp = env_now env\<rparr>)) (
     ret pending))))))))))"

definition loan_stats :: "member \<Rightarrow> member_loan_stats" where
  "loan_stats r =
     \<lparr>mls_total_loans = m_total_loans r, mls_repaid_loans = m_repaid_loans r,
      mls_active_loans = m_active_loans r\<rparr>"

definition member_overview :: "address \<Rightarrow> member_overview run" where
  "member_overview who =
     and_then (reads (get_member who)) (\<lambda>mv.
     and_then (ok_or mv NotMember) (\<lambda>r.
     and_then (reads (get_stake who)) (\<lambda>staked.
     and_then (compute_pending_yield who) (\<lambda>pending.
     and_then (reads (get_name_of who)) (\<lambda>name.
     and_then (reads (get_delegation who)) (\<lambda>delegate.
     ret \<lparr>mo_member = r, mo_stake = staked, mo_pending_yield = pending,
          mo_loan_stats = loan_stats r, mo_name = name, mo_delegate = delegate\<rparr>))))))"

definition delegate_vote :: "env \<Rightarrow> address \<Rightarrow> address \<Rightarrow> unit run" where
  "delegate_vote env delegator delegatee =
     seq require_initialized (
     seq require_not_paused (
     and_then (require_active_member env delegator) (\<lambda>_.
     and_then (active_member delegatee) (\<lambda>_.
     seq (reject_if (delegator = delegatee) InvalidDelegation) (
     seq (set_delegation delegator delegatee) (
     publish (Ev_delegate delegator delegatee)))))))"

section \<open>Keys written\<close>

lemma writes_yield [writes_intros]:
  "writes F (compute_pending_yield who)"
  "writes F (calculate_exit_share env who)"
  "writes F (member_overview who)"
  "{FName, FNameOf, FEvents} \<subseteq> F \<Longrightarrow> writes F (release_name who)"
  by (auto simp: compute_pending_yield_def calculate_exit_share_def member_overview_def
      release_name_def
      intro!: writes_intros)

lemma writes_membership [writes_intros]:
  "{FMember, FMemberYieldSnapshot, FMembers, FTotalMembers, FActiveMembers, FActiveContributions, FLedger, FEvents} \<subseteq> F \<Longrightarrow> writes F (register_member env who)"
  "{FStake, FTotalStaked, FMemberYieldSnapshot, FName, FNameOf, FMember, FActiveMembers, FActiveContributions, FLedger, FEvents} \<subseteq> F \<Longrightarrow> writes F (exit_dao env who)"
  "{FMemberYieldSnapshot, FLedger, FEvents} \<subseteq> F \<Longrightarrow> writes F (claim_rewards env who)"
  "{FDelegation, FEvents} \<subseteq> F \<Longrightarrow> writes F (delegate_vote env who who')"
  by (auto simp: register_member_def exit_dao_def claim_rewards_def delegate_vote_def check_funds_def
      unlock_stake_def pay_out_def
      intro!: writes_intros)

section \<open>Runs\<close>

definition unclaimed_yield :: "address \<Rightarrow> dao \<Rightarrow> i128" where
  "unclaimed_yield who s = max (get_yield_accumulator s - get_yield_snapshot who s) 0"

definition exit_share :: "env \<Rightarrow> member \<Rightarrow> dao \<Rightarrow> i128" where
  "exit_share env m s =
     share_from_contributions (spendable env (the (kToken s)) s) (m_contribution m) (get_active_contributions s)"

lemma ok_compute_pending_yield [ok_simps]:
  "compute_pending_yield who s = Ok y t \<longleftrightarrow>
     t = s \<and> in_i128 (get_yield_accumulator s - get_yield_snapshot who s) \<and> y = unclaimed_yield who s"
  by (auto simp: compute_pending_yield_def unclaimed_yield_def ok_simps)

lemma ok_calculate_exit_share [ok_simps]:
  "calculate_exit_share env who s = Ok x t \<longleftrightarrow>
     t = s \<and>
     (case kMember s who of
        None \<Rightarrow> x = 0
      | Some m \<Rightarrow>
          if m_status m = ActiveMember
          then kToken s \<noteq> None \<and> env_is_token env (the (kToken s)) \<and>
               in_i128 (spendable env (the (kToken s)) s) \<and> x = exit_share env m s
          else x = 0)"
  by (auto simp: calculate_exit_share_def exit_share_def ok_simps accessor_defs split: option.splits)

section \<open>Joining and leaving\<close>

definition new_member :: "env \<Rightarrow> address \<Rightarrow> i128 \<Rightarrow> member option \<Rightarrow> member" where
  "new_member env who fee existing =
     \<lparr>m_address = who, m_status = ActiveMember, m_join_time = env_now env, m_contribution = fee,
      m_share_balance = fee, m_has_active_loan = False, m_last_loan_time = 0,
      m_total_loans = fst (loan_counters existing), m_repaid_loans = fst (snd (loan_counters existing)),
      m_active_loans = snd (snd (loan_counters existing))\<rparr>"

definition joins :: "env \<Rightarrow> address \<Rightarrow> i128 \<Rightarrow> dao \<Rightarrow> dao \<Rightarrow> bool" where
  "joins env who fee s t \<longleftrightarrow>
     kAdmins s \<noteq> None \<and> kAdmins t = kAdmins s \<and> kMembershipFee s = Some fee \<and>
     (\<forall>m. kMember s who = Some m \<longrightarrow> m_status m \<noteq> ActiveMember) \<and>
     kMember t = (kMember s)(who \<mapsto> new_member env who fee (kMember s who)) \<and>
     get_members t = (if kMember s who = None then get_members s @ [who] else get_members s) \<and>
     get_total_members t = get_total_members s + (if kMember s who = None then 1 else 0) \<and>
     get_active_members t = get_active_members s + 1 \<and>
     get_active_contributions t = get_active_contributions s + fee \<and>
     in_i128 (get_active_contributions t) \<and>
     kMemberYieldSnapshot t = (kMemberYieldSnapshot s)(who \<mapsto> get_yield_accumulator s) \<and>
     kToken s \<noteq> None \<and>
     env_transfer env (the (kToken s)) who (env_self env) fee (ledger s) = Some (ledger t)"

lemma ok_register_member:
  assumes "register_member env who s = Ok u t"
  shows "\<exists>fee. joins env who fee s t"
proof (cases "kMember s who")
  case None
  with assms show ?thesis
    by (auto simp: register_member_def ok_simps accessor_defs loan_counters_def joins_def new_member_def
        is_initialized_def Let_def)
next
  case (Some m)
  with assms show ?thesis
    by (auto simp: register_member_def ok_simps accessor_defs loan_counters_def joins_def new_member_def
        is_initialized_def Let_def)
qed

text \<open>The name registry, the stake map and the staked total after a departure.\<close>

definition drop_name :: "address \<Rightarrow> (address \<rightharpoonup> string) \<Rightarrow> (string \<rightharpoonup> address) \<Rightarrow> string \<rightharpoonup> address" where
  "drop_name who owners names = (case owners who of None \<Rightarrow> names | Some n \<Rightarrow> names(n := None))"

definition drop_event :: "address \<Rightarrow> (address \<rightharpoonup> string) \<Rightarrow> event list" where
  "drop_event who owners = (case owners who of None \<Rightarrow> [] | Some n \<Rightarrow> [Ev_name_rel n who])"

definition zero_stake :: "address \<Rightarrow> i128 \<Rightarrow> (address \<rightharpoonup> i128) \<Rightarrow> address \<rightharpoonup> i128" where
  "zero_stake who staked stakes = (if staked > 0 then stakes(who \<mapsto> 0) else stakes)"

definition less_staked :: "i128 \<Rightarrow> i128 option \<Rightarrow> i128 option" where
  "less_staked staked v = (if staked > 0 then Some (unwrap_or v 0 - staked) else v)"

definition paid_out :: "env \<Rightarrow> address \<Rightarrow> address \<Rightarrow> i128 \<Rightarrow> ledger \<Rightarrow> ledger option" where
  "paid_out env token who payout l =
     (if payout > 0 then env_transfer env token (env_self env) who payout l else Some l)"

lemma ok_release_name [ok_simps]:
  "release_name who s = Ok u t \<longleftrightarrow>
     t = s\<lparr>kName := drop_name who (kNameOf s) (kName s), kNameOf := (kNameOf s)(who := None),
           events := events s @ drop_event who (kNameOf s)\<rparr>"
proof (cases "kNameOf s who")
  case None
  then have "(kNameOf s)(who := None) = kNameOf s" by auto
  with None show ?thesis by (auto simp: release_name_def ok_simps accessor_defs drop_name_def drop_event_def)
qed (auto simp: release_name_def ok_simps accessor_defs drop_name_def drop_event_def)

lemma ok_exit_parts [ok_simps]:
  "check_funds env token payout s = Ok u t \<longleftrightarrow>
     t = s \<and> (payout > 0 \<longrightarrow> env_is_token env token \<and> payout \<le> ledger s token (env_self env))"
  "unlock_stake who staked s = Ok u t \<longleftrightarrow>
     (staked > 0 \<longrightarrow> in_i128 (get_total_staked s - staked)) \<and>
     t = s\<lparr>kStake := zero_stake who staked (kStake s), kTotalStaked := less_staked staked (kTotalStaked s)\<rparr>"
  "pay_out env token who payout s = Ok u t \<longleftrightarrow>
     (\<exists>l. t = s\<lparr>ledger := l\<rparr> \<and> paid_out env token who payout (ledger s) = Some l)"
  by (auto simp: check_funds_def unlock_stake_def pay_out_def ok_simps accessor_defs zero_stake_def
      less_staked_def paid_out_def)

definition departed :: "member \<Rightarrow> member" where
  "departed m = m\<lparr>m_status := Inactive, m_share_balance := 0\<rparr>"

definition payout_of :: "env \<Rightarrow> address \<Rightarrow> member \<Rightarrow> dao \<Rightarrow> i128" where
  "payout_of env who m s = exit_share env m s + get_stake who s + unclaimed_yield who s"

definition leaves :: "env \<Rightarrow> address \<Rightarrow> member \<Rightarrow> dao \<Rightarrow> dao \<Rightarrow> bool" where
  "leaves env who m s t \<longleftrightarrow>
     kAdmins s \<noteq> None \<and> kAdmins t = kAdmins s \<and> env_auth env who \<and> kToken s \<noteq> None \<and>
     kMember s who = Some m \<and> m_status m = ActiveMember \<and> \<not> m_has_active_loan m \<and>
     kMember t = (kMember s)(m_address m \<mapsto> departed m) \<and>
     get_members t = get_members s \<and> get_total_members t = get_total_members s \<and>
     get_active_members t + 1 = get_active_members s \<and>
     get_active_contributions t = get_active_contributions s - m_contribution m \<and>
     kTotalStaked t = less_staked (get_stake who s) (kTotalStaked s) \<and>
     kStake t = zero_stake who (get_stake who s) (kStake s) \<and>
     kMemberYieldSnapshot t = (kMemberYieldSnapshot s)(who \<mapsto> get_yield_accumulator s) \<and>
     kNameOf t = (kNameOf s)(who := None) \<and> kName t = drop_name who (kNameOf s) (kName s) \<and>
     (payout_of env who m s > 0 \<longrightarrow> payout_of env who m s \<le> ledger s (the (kToken s)) (env_self env)) \<and>
     paid_out env (the (kToken s)) who (payout_of env who m s) (ledger s) = Some (ledger t)"

lemma ok_exit_dao:
  assumes "exit_dao env who s = Ok u t"
  shows "\<exists>m. leaves env who m s t"
proof -
  from assms obtain m where m: "kMember s who = Some m" by (auto simp: exit_dao_def ok_simps)
  from assms have "leaves env who m s t"
    by (clarsimp simp: exit_dao_def ok_simps is_initialized_def m accessor_defs)
      (simp add: leaves_def payout_of_def departed_def accessor_defs m)
  then show ?thesis by blast
qed

end
