(* ===== verification/Staking.thy ===== *)
theory Staking
  imports Membership
begin

text \<open>\<^verbatim>\<open>staking.rs\<close>: the stake ledger behind the voting-weight bonus, and the unstaking locks.\<close>

definition stake :: "env \<Rightarrow> address \<Rightarrow> i128 \<Rightarrow> unit run" where
  "stake env who amount =
     seq require_initialized (
     seq require_not_paused (
     and_then (require_active_member env who) (\<lambda>_.
     seq (reject_if (amount \<le> 0) InvalidAmount) (
     and_then (reads (get_stake who)) (\<lambda>old.
     and_then (i128_add old amount) (\<lambda>new_stake.
     seq (set_stake who new_stake) (
     and_then (reads get_total_staked) (\<lambda>t.
     and_then (i128_add t amount) (\<lambda>t'.
     seq (set_total_staked t') (
     seq (set_stake_time who (env_now env)) (
     and_then (voting_weight who) (\<lambda>weight.
     publish (Ev_staked who amount new_stake weight)))))))))))))"

text \<open>The three scans of \<open>unstake\<close>, each an early return inside a loop over the ids.\<close>

definition own_request_open :: "env \<Rightarrow> address \<Rightarrow> dao \<Rightarrow> u32 \<Rightarrow> bool" where
  "own_request_open env who s i =
     (case get_loan_proposal i s of
        None \<Rightarrow> False
      | Some p \<Rightarrow>
          p_borrower p = who \<and> (p_phase p = Editing \<or> p_phase p = Voting) \<and> p_status p = Pending
          \<and> env_now env \<le> u64_saturating_add (p_editing_period_end p) (p_voting_period p))"

definition treasury_ballot_open :: "env \<Rightarrow> address \<Rightarrow> dao \<Rightarrow> u32 \<Rightarrow> bool" where
  "treasury_ballot_open env who s i =
     (case get_treasury_proposal i s of
        None \<Rightarrow> False
      | Some p \<Rightarrow>
          t_status p = Pending \<and> env_now env \<le> treasury_voting_end p
          \<and> (has_treasury_voted i who s \<or> get_commit i who s \<noteq> None))"

definition loan_ballot_open :: "env \<Rightarrow> address \<Rightarrow> dao \<Rightarrow> u32 \<Rightarrow> bool" where
  "loan_ballot_open env who s i =
     (case get_loan_proposal i s of
        None \<Rightarrow> False
      | Some p \<Rightarrow>
          p_status p = Pending
          \<and> env_now env \<le> u64_saturating_add (p_editing_period_end p) (p_voting_period p)
          \<and> has_loan_voted i who s)"

definition reject_if_any :: "(dao \<Rightarrow> u32 \<Rightarrow> bool) \<Rightarrow> counter \<Rightarrow> error \<Rightarrow> unit run" where
  "reject_if_any c key e =
     and_then (reads (\<lambda>s. \<exists>i \<in> set [0..<get_proposal_count key s]. c s i)) (\<lambda>b. reject_if b e)"

definition unstake :: "env \<Rightarrow> address \<Rightarrow> i128 \<Rightarrow> unit run" where
  "unstake env who amount =
     seq require_initialized (
     seq require_not_paused (
     seq (require_auth env who) (
     seq (reject_if (amount \<le> 0) InvalidAmount) (
     and_then (reads (get_stake who)) (\<lambda>current.
     seq (reject_if (current = 0) NoStake) (
     seq (reject_if (amount > current) InsufficientStake) (
     and_then (reads (get_stake_time who)) (\<lambda>last_stake.
     and_then get_policy (\<lambda>policy.
     and_then (u64_add last_stake (pol_cooldown_period policy)) (\<lambda>unlocked_at.
     seq (reject_if (env_now env < unlocked_at) CooldownActive) (
     seq (reject_if_any (own_request_open env who) NextProposalId HasActiveLoan) (
     seq (reject_if_any (treasury_ballot_open env who) NextTreasuryId HasActiveLoan) (
     seq (reject_if_any (loan_ballot_open env who) NextProposalId HasActiveLoan) (
     and_then (i128_sub current amount) (\<lambda>new_stake.
     seq (set_stake who new_stake) (
     and_then (reads get_total_staked) (\<lambda>t.
     and_then (i128_sub t amount) (\<lambda>t'.
     seq (set_total_staked t') (
     and_then (voting_weight who) (\<lambda>weight.
     publish (Ev_unstaked who amount new_stake weight)))))))))))))))))))))"

section \<open>Keys written\<close>

lemma writes_staking [writes_intros]:
  "{FStake, FTotalStaked, FStakeTime, FEvents} \<subseteq> F \<Longrightarrow> writes F (stake env who x)"
  "{FStake, FTotalStaked, FEvents} \<subseteq> F \<Longrightarrow> writes F (unstake env who x)"
  by (auto simp: stake_def unstake_def reject_if_any_def
      intro!: writes_intros)

end
