(* ===== verification/Treasury.thy ===== *)
theory Treasury
  imports Staking
begin

text \<open>
  \<^verbatim>\<open>treasury.rs\<close>: withdrawal proposals, the tally that public voting and the reveal phase of
  \<^verbatim>\<open>privacy.rs\<close> share, execution, cancellation and expiry.
\<close>

definition propose_withdrawal_in_asset ::
  "env \<Rightarrow> address \<Rightarrow> i128 \<Rightarrow> address \<Rightarrow> address \<Rightarrow> string \<Rightarrow> bool \<Rightarrow> u32 run" where
  "propose_withdrawal_in_asset env proposer amount asset destination reason private =
     seq require_initialized (
     seq require_not_paused (
     and_then (require_active_member env proposer) (\<lambda>_.
     seq (reject_if (amount \<le> 0) InvalidAmount) (
     seq (reject_if (destination = env_self env \<or> reason = [] \<or> length reason > 256) InvalidProposal) (
     and_then (get_open_proposals env proposer) (\<lambda>open_now.
     seq (reject_if (open_now \<ge> MAX_OPEN_PROPOSALS_PER_MEMBER) TooManyOpenProposals) (
     and_then (reads (is_token_whitelisted asset)) (\<lambda>listed.
     seq (reject_if (\<not> listed) TokenNotWhitelisted) (
     and_then (treasury_balance_in_asset env asset) (\<lambda>treasury.
     and_then (reserved_loan_commitments asset) (\<lambda>reserved.
     and_then (i128_sub treasury reserved) (\<lambda>available.
     seq (reject_if (amount > available) InsufficientTreasury) (
     and_then (next_id NextTreasuryId) (\<lambda>i.
     and_then get_policy (\<lambda>policy.
     seq (set_treasury_proposal env
       \<lparr>t_id = i, t_proposer = proposer, t_amount = amount, t_destination = destination,
        t_reason = reason, t_created_at = env_now env, t_status = Pending, t_for_votes = 0,
        t_against_votes = 0, t_votes_cast = 0, t_voting_period = pol_voting_period policy,
        t_treasury_threshold = pol_treasury_threshold policy, t_private = private\<rparr>) (
     and_then get_token (\<lambda>base.
     seq (when_do (asset \<noteq> base) (seq (set_treasury_asset i asset) (publish (Ev_tre_asset i asset)))) (
     seq (publish (Ev_tre_prop i amount destination private)) (
     ret i)))))))))))))))))))"

definition propose_withdrawal ::
  "env \<Rightarrow> address \<Rightarrow> i128 \<Rightarrow> address \<Rightarrow> string \<Rightarrow> bool \<Rightarrow> u32 run" where
  "propose_withdrawal env proposer amount destination reason private =
     seq require_initialized (
     and_then get_token (\<lambda>base.
     propose_withdrawal_in_asset env proposer amount base destination reason private))"

definition load_treasury_proposal :: "u32 \<Rightarrow> treasury_proposal run" where
  "load_treasury_proposal i =
     and_then (reads (get_treasury_proposal i)) (\<lambda>v. ok_or v TreasuryProposalNotFound)"

text \<open>\<open>execute\<close>: the proposal it is handed is the caller's local copy; the result is its new value.\<close>

definition treasury_execute :: "env \<Rightarrow> treasury_proposal \<Rightarrow> treasury_proposal run" where
  "treasury_execute env p =
     and_then (get_treasury_asset (t_id p)) (\<lambda>asset.
     and_then (treasury_balance_in_asset env asset) (\<lambda>treasury.
     seq (reject_if (treasury < t_amount p) InsufficientTreasury) (
     let p = p\<lparr>t_status := StExecuted\<rparr> in
     seq (set_treasury_proposal env p) (
     seq (token_transfer env asset (env_self env) (t_destination p) (t_amount p)) (
     seq (publish (Ev_tre_exec (t_id p) (t_amount p) (t_destination p))) (
     ret p))))))"

definition cast_treasury_vote :: "address \<Rightarrow> bool \<Rightarrow> treasury_proposal \<Rightarrow> treasury_proposal run" where
  "cast_treasury_vote voter support p =
     and_then (voting_weight voter) (\<lambda>weight.
     and_then (if support
               then and_then (i128_add (t_for_votes p) weight) (\<lambda>v. ret (p\<lparr>t_for_votes := v\<rparr>))
               else and_then (i128_add (t_against_votes p) weight) (\<lambda>v. ret (p\<lparr>t_against_votes := v\<rparr>))) (\<lambda>p.
     and_then (u32_add (t_votes_cast p) 1) (\<lambda>n.
     seq (set_treasury_voted (t_id p) voter) (
     seq (publish (Ev_tre_vote (t_id p) voter support)) (
     ret (p\<lparr>t_votes_cast := n\<rparr>))))))"

text \<open>
  The inner call \<open>execute(env, &mut proposal).is_err()\<close>: on success the local proposal is the
  executed one, on an error it keeps its approved status, as \<open>execute\<close> rejects before it writes.
\<close>

definition try_treasury_execute :: "env \<Rightarrow> treasury_proposal \<Rightarrow> treasury_proposal run" where
  "try_treasury_execute env p = (\<lambda>s.
     case treasury_execute env p s of
       Ok q t \<Rightarrow> Ok q t
     | Err e t \<Rightarrow> seq (publish (Ev_tre_wait (t_id p) (t_amount p))) (ret p) t
     | Panic \<Rightarrow> Panic)"

definition conclude_treasury_vote :: "env \<Rightarrow> u32 \<Rightarrow> i128 \<Rightarrow> treasury_proposal \<Rightarrow> treasury_proposal run" where
  "conclude_treasury_vote env active_members required p =
     (if t_for_votes p \<ge> required then
        try_treasury_execute env (p\<lparr>t_status := ApprovedPendingDisbursement\<rparr>)
      else
        and_then (max_remaining_votes active_members (t_votes_cast p)) (\<lambda>max_remaining.
        and_then (i128_add (t_for_votes p) max_remaining) (\<lambda>reachable.
        if reachable < required then
          seq (publish (Ev_tre_rej (t_id p) (t_for_votes p) (t_against_votes p)))
          (ret (p\<lparr>t_status := Rejected\<rparr>))
        else ret p)))"

definition tally :: "env \<Rightarrow> treasury_proposal \<Rightarrow> address \<Rightarrow> bool \<Rightarrow> unit run" where
  "tally env p voter support =
     seq (reject_if (t_status p \<noteq> Pending) NotInVotingPhase) (
     and_then (u64_add (t_created_at p)
                 (if t_private p then u64_saturating_mul (t_voting_period p) 2 else t_voting_period p)) (\<lambda>voting_end.
     seq (reject_if (env_now env > voting_end) NotInVotingPhase) (
     and_then (reads (has_treasury_voted (t_id p) voter)) (\<lambda>voted.
     seq (reject_if voted AlreadyVoted) (
     and_then (cast_treasury_vote voter support p) (\<lambda>p.
     and_then (reads get_active_members) (\<lambda>active_members.
     and_then (required_votes active_members (t_treasury_threshold p)) (\<lambda>required.
     and_then (conclude_treasury_vote env active_members required p) (\<lambda>p.
     set_treasury_proposal env p)))))))))"

definition treasury_vote :: "env \<Rightarrow> address \<Rightarrow> u32 \<Rightarrow> bool \<Rightarrow> unit run" where
  "treasury_vote env voter proposal_id support =
     seq require_initialized (
     seq require_not_paused (
     and_then (require_active_member env voter) (\<lambda>_.
     and_then (load_treasury_proposal proposal_id) (\<lambda>p.
     seq (reject_if (t_private p) NotAuthorized) (
     tally env p voter support)))))"

definition execute_approved :: "env \<Rightarrow> u32 \<Rightarrow> unit run" where
  "execute_approved env proposal_id =
     seq require_initialized (
     seq require_not_paused (
     and_then (load_treasury_proposal proposal_id) (\<lambda>p.
     seq (reject_if (t_status p \<noteq> ApprovedPendingDisbursement) NotInVotingPhase) (
     and_then (treasury_execute env p) (set_treasury_proposal env)))))"

definition cancel_treasury_proposal :: "env \<Rightarrow> address \<Rightarrow> u32 \<Rightarrow> unit run" where
  "cancel_treasury_proposal env proposer proposal_id =
     seq require_initialized (
     seq require_not_paused (
     and_then (require_active_member env proposer) (\<lambda>_.
     and_then (load_treasury_proposal proposal_id) (\<lambda>p.
     seq (reject_if (t_proposer p \<noteq> proposer) NotAuthorized) (
     seq (reject_if (t_status p \<noteq> Pending) NotInVotingPhase) (
     and_then get_policy (\<lambda>policy.
     and_then (u64_add (t_created_at p) (pol_editing_period policy)) (\<lambda>editing_end.
     seq (reject_if (env_now env > editing_end) NotInEditingPhase) (
     seq (set_treasury_proposal env (p\<lparr>t_status := Cancelled\<rparr>)) (
     publish (Ev_prop_canc proposal_id (env_now env))))))))))))"

definition expire_treasury_proposal :: "env \<Rightarrow> u32 \<Rightarrow> unit run" where
  "expire_treasury_proposal env proposal_id =
     seq require_initialized (
     seq require_not_paused (
     and_then (load_treasury_proposal proposal_id) (\<lambda>p.
     seq (reject_if (t_status p \<noteq> Pending) NotInVotingPhase) (
     and_then (u64_add (t_created_at p) (t_voting_period p)) (\<lambda>voting_end.
     if env_now env > voting_end then set_treasury_proposal env (p\<lparr>t_status := StExpired\<rparr>)
     else throw NotInVotingPhase)))))"

section \<open>Keys written\<close>

lemma writes_propose [writes_intros]:
  "{FNextTreasuryId, FTreasuryProposal, FOpenProposals, FTreasuryAsset, FEvents} \<subseteq> F \<Longrightarrow> writes F (propose_withdrawal_in_asset env who x asset dst why pv)"
  "writes F (load_treasury_proposal i)"
  "{FTreasuryProposal, FOpenProposals, FLedger, FEvents} \<subseteq> F \<Longrightarrow> writes F (treasury_execute env p)"
  "{FTreasuryVoted, FEvents} \<subseteq> F \<Longrightarrow> writes F (cast_treasury_vote who b p)"
  by (auto simp: propose_withdrawal_in_asset_def load_treasury_proposal_def treasury_execute_def
      cast_treasury_vote_def
      intro!: writes_intros)

lemma writes_propose_base [writes_intros]:
  "{FNextTreasuryId, FTreasuryProposal, FOpenProposals, FTreasuryAsset, FEvents} \<subseteq> F \<Longrightarrow> writes F (propose_withdrawal env who x dst why pv)"
  by (auto simp: propose_withdrawal_def
      intro!: writes_intros)

lemma writes_try_execute [writes_intros]:
  "{FTreasuryProposal, FOpenProposals, FLedger, FEvents} \<subseteq> F \<Longrightarrow> writes F (try_treasury_execute env p)"
proof -
  assume F: "{FTreasuryProposal, FOpenProposals, FLedger, FEvents} \<subseteq> F"
  have w: "writes F (treasury_execute env p)" using F by (auto intro!: writes_intros)
  have k: "writes F (seq (publish (Ev_tre_wait (t_id p) (t_amount p))) (ret p))"
    using F by (auto intro!: writes_intros)
  show ?thesis
  proof (rule writesI)
    fix s x t assume "try_treasury_execute env p s = Ok x t"
    then show "agree F s t"
      by (auto simp only: try_treasury_execute_def split: outcome.splits
          dest: writes_Ok [OF w] writes_Err [OF w] writes_Ok [OF k] intro: agree_trans)
  next
    fix s e t assume "try_treasury_execute env p s = Err e t"
    then show "agree F s t"
      by (auto simp only: try_treasury_execute_def split: outcome.splits
          dest: writes_Err [OF w] writes_Err [OF k] intro: agree_trans)
  qed
qed

lemma writes_tally [writes_intros]:
  "{FTreasuryProposal, FOpenProposals, FLedger, FEvents} \<subseteq> F \<Longrightarrow> writes F (conclude_treasury_vote env n r p)"
  by (auto simp: conclude_treasury_vote_def max_remaining_votes_def
      intro!: writes_intros)

lemma writes_tally_full [writes_intros]:
  "{FTreasuryVoted, FTreasuryProposal, FOpenProposals, FLedger, FEvents} \<subseteq> F \<Longrightarrow> writes F (tally env p who b)"
  by (auto simp: tally_def
      intro!: writes_intros)

lemma writes_treasury [writes_intros]:
  "{FTreasuryVoted, FTreasuryProposal, FOpenProposals, FLedger, FEvents} \<subseteq> F \<Longrightarrow> writes F (treasury_vote env who i b)"
  "{FTreasuryProposal, FOpenProposals, FLedger, FEvents} \<subseteq> F \<Longrightarrow> writes F (execute_approved env i)"
  "{FTreasuryProposal, FOpenProposals, FEvents} \<subseteq> F \<Longrightarrow> writes F (cancel_treasury_proposal env who i)"
  "{FTreasuryProposal, FOpenProposals} \<subseteq> F \<Longrightarrow> writes F (expire_treasury_proposal env i)"
  by (auto simp: treasury_vote_def execute_approved_def cancel_treasury_proposal_def
      expire_treasury_proposal_def
      intro!: writes_intros)

section \<open>Runs\<close>

lemma ok_load_treasury_proposal [ok_simps]:
  "load_treasury_proposal i s = Ok p t \<longleftrightarrow> kTreasuryProposal s i = Some p \<and> t = s"
  by (auto simp: load_treasury_proposal_def storage_defs ok_simps)

lemma err_load_treasury_proposal [err_simps]:
  "load_treasury_proposal i s = Err e t \<longleftrightarrow>
     kTreasuryProposal s i = None \<and> e = TreasuryProposalNotFound \<and> t = s"
  by (auto simp: load_treasury_proposal_def storage_defs err_simps ok_simps)

end
