(* ===== verification/Privacy.thy ===== *)
theory Privacy
  imports Treasury
begin

text \<open>
  \<^verbatim>\<open>privacy.rs\<close>: commit-reveal voting on private treasury proposals. SHA-256 and the XDR
  encoding of an address belong to the host and are parameters of the environment.
\<close>

text \<open>\<open>u32::to_be_bytes\<close>.\<close>

definition to_be_bytes :: "u32 \<Rightarrow> bytes" where
  "to_be_bytes n = [of_nat (n div 2 ^ 24), of_nat (n div 2 ^ 16), of_nat (n div 2 ^ 8), of_nat n]"

definition commitment_preimage :: "env \<Rightarrow> address \<Rightarrow> u32 \<Rightarrow> bool \<Rightarrow> bytes \<Rightarrow> bytes" where
  "commitment_preimage env voter proposal_id support salt =
     env_to_xdr env voter @ to_be_bytes proposal_id @ [if support then 1 else 0] @ salt"

definition compute_commitment :: "env \<Rightarrow> address \<Rightarrow> u32 \<Rightarrow> bool \<Rightarrow> bytes \<Rightarrow> bytes" where
  "compute_commitment env voter proposal_id support salt =
     env_sha256 env (commitment_preimage env voter proposal_id support salt)"

definition commit_vote :: "env \<Rightarrow> address \<Rightarrow> u32 \<Rightarrow> bytes \<Rightarrow> unit run" where
  "commit_vote env voter proposal_id commitment =
     seq require_initialized (
     seq require_not_paused (
     and_then (require_active_member env voter) (\<lambda>_.
     and_then (load_treasury_proposal proposal_id) (\<lambda>p.
     seq (reject_if (\<not> t_private p) NotAuthorized) (
     seq (reject_if (t_status p \<noteq> Pending) NotInVotingPhase) (
     and_then (u64_add (t_created_at p) (t_voting_period p)) (\<lambda>commit_end.
     seq (reject_if (env_now env > commit_end) VotingEnded) (
     and_then (reads (has_treasury_voted proposal_id voter)) (\<lambda>voted.
     seq (reject_if voted AlreadyVoted) (
     and_then (reads (get_commit proposal_id voter)) (\<lambda>old.
     seq (reject_if (old \<noteq> None) AlreadyVoted) (
     seq (set_commit proposal_id voter commitment) (
     publish (Ev_committed proposal_id voter))))))))))))))"

definition reveal_vote :: "env \<Rightarrow> address \<Rightarrow> u32 \<Rightarrow> bool \<Rightarrow> bytes \<Rightarrow> unit run" where
  "reveal_vote env voter proposal_id support salt =
     seq require_initialized (
     seq require_not_paused (
     and_then (require_active_member env voter) (\<lambda>_.
     and_then (load_treasury_proposal proposal_id) (\<lambda>p.
     seq (reject_if (\<not> t_private p) NotAuthorized) (
     and_then (u64_add (t_created_at p) (t_voting_period p)) (\<lambda>commit_end.
     and_then (u64_add commit_end (t_voting_period p)) (\<lambda>reveal_end.
     seq (reject_if (env_now env \<le> commit_end) NotYetRevealed) (
     seq (reject_if (env_now env > reveal_end) VotingEnded) (
     and_then (reads (has_treasury_voted proposal_id voter)) (\<lambda>voted.
     seq (reject_if voted AlreadyRevealed) (
     and_then (reads (get_commit proposal_id voter)) (\<lambda>cv.
     and_then (ok_or cv NoCommitment) (\<lambda>stored.
     seq (reject_if (stored \<noteq> compute_commitment env voter proposal_id support salt) CommitmentMismatch) (
     seq (remove_commit proposal_id voter) (
     seq (publish (Ev_revealed proposal_id voter support)) (
     tally env p voter support))))))))))))))))"

section \<open>Keys written\<close>

lemma writes_privacy [writes_intros]:
  "{FCommit, FEvents} \<subseteq> F \<Longrightarrow> writes F (commit_vote env who i h)"
  "{FCommit, FTreasuryVoted, FTreasuryProposal, FOpenProposals, FLedger, FEvents} \<subseteq> F \<Longrightarrow> writes F (reveal_vote env who i b salt)"
  by (auto simp: commit_vote_def reveal_vote_def
      intro!: writes_intros)

end
