(* ===== verification/Registry.thy ===== *)
theory Registry
  imports Privacy
begin

text \<open>\<^verbatim>\<open>registry.rs\<close>: the name registry, meant to be a bijection between names and owners.\<close>

definition is_ascii_lowercase :: "char \<Rightarrow> bool" where
  "is_ascii_lowercase b = (of_char b \<ge> (97 :: nat) \<and> of_char b \<le> (122 :: nat))"

definition is_ascii_digit :: "char \<Rightarrow> bool" where
  "is_ascii_digit b = (of_char b \<ge> (48 :: nat) \<and> of_char b \<le> (57 :: nat))"

definition is_separator :: "char \<Rightarrow> bool" where
  "is_separator b = (b = CHR ''-'' \<or> b = CHR ''_'')"

text \<open>\<open>buf[0]\<close> and \<open>buf[len - 1]\<close> are in range: the length test comes first.\<close>

definition validate_name :: "string \<Rightarrow> unit run" where
  "validate_name name =
     seq (reject_if (\<not> (NAME_MIN_LEN \<le> length name \<and> length name \<le> NAME_MAX_LEN)) InvalidName) (
     seq (reject_if (is_separator (hd name) \<or> is_separator (last name)) InvalidName)
     (for_each name (\<lambda>b.
        reject_if (\<not> (is_ascii_lowercase b \<or> is_ascii_digit b \<or> is_separator b)) InvalidName)))"

definition register_name :: "env \<Rightarrow> address \<Rightarrow> string \<Rightarrow> unit run" where
  "register_name env owner name =
     seq require_initialized (
     seq require_not_paused (
     and_then (require_active_member env owner) (\<lambda>_.
     seq (validate_name name) (
     and_then (reads (get_name_owner name)) (\<lambda>existing.
     seq (reject_if (case existing of None \<Rightarrow> False | Some o' \<Rightarrow> o' \<noteq> owner) NameTaken) (
     and_then (reads (get_name_of owner)) (\<lambda>old.
     seq (case old of
            None \<Rightarrow> ret ()
          | Some n \<Rightarrow> when_do (n \<noteq> name) (seq (remove_name n) (publish (Ev_name_rel n owner)))) (
     seq (set_name name owner) (
     publish (Ev_name_reg name owner))))))))))"

definition resolve_name :: "string \<Rightarrow> address option run" where
  "resolve_name name = seq require_initialized (reads (get_name_owner name))"

definition name_of :: "address \<Rightarrow> string option run" where
  "name_of owner = seq require_initialized (reads (get_name_of owner))"

section \<open>Keys written\<close>

lemma writes_registry [writes_intros]:
  "writes F (validate_name nm)"
  "writes F (resolve_name nm)"
  "writes F (name_of who)"
  "{FName, FNameOf, FEvents} \<subseteq> F \<Longrightarrow> writes F (register_name env who nm)"
  by (auto simp: validate_name_def resolve_name_def name_of_def register_name_def
      intro!: writes_intros)

section \<open>Runs\<close>

text \<open>A well-formed name.\<close>

definition wf_name :: "string \<Rightarrow> bool" where
  "wf_name name \<longleftrightarrow>
     3 \<le> length name \<and> length name \<le> 32 \<and> \<not> is_separator (hd name) \<and> \<not> is_separator (last name) \<and>
     (\<forall>b \<in> set name. is_ascii_lowercase b \<or> is_ascii_digit b \<or> is_separator b)"

lemma ok_validate_name [ok_simps]: "validate_name name s = Ok u t \<longleftrightarrow> wf_name name \<and> t = s"
  by (auto simp: validate_name_def wf_name_def ok_simps ok_for_each_reject)

end
