(* ===== verification/Docs.thy ===== *)
theory Docs
  imports Registry
begin

text \<open>\<^verbatim>\<open>docs.rs\<close>: content hashes anchored to proposals.\<close>

definition proposal_exists :: "proposal_kind \<Rightarrow> u32 \<Rightarrow> dao \<Rightarrow> bool" where
  "proposal_exists kind i s =
     (case kind of
        LoanKind \<Rightarrow> get_loan_proposal i s \<noteq> None
      | TreasuryKind \<Rightarrow> get_treasury_proposal i s \<noteq> None)"

definition proposal_owner :: "proposal_kind \<Rightarrow> u32 \<Rightarrow> dao \<Rightarrow> address option" where
  "proposal_owner kind i s =
     (case kind of
        LoanKind \<Rightarrow> map_option p_borrower (get_loan_proposal i s)
      | TreasuryKind \<Rightarrow> map_option t_proposer (get_treasury_proposal i s))"

definition loan_left_editing :: "proposal_kind \<Rightarrow> u32 \<Rightarrow> dao \<Rightarrow> bool" where
  "loan_left_editing kind i s =
     (case kind of
        LoanKind \<Rightarrow> (case get_loan_proposal i s of None \<Rightarrow> False | Some p \<Rightarrow> p_phase p \<noteq> Editing)
      | TreasuryKind \<Rightarrow> False)"

definition attach_document :: "env \<Rightarrow> address \<Rightarrow> proposal_kind \<Rightarrow> u32 \<Rightarrow> bytes \<Rightarrow> unit run" where
  "attach_document env caller kind proposal_id content_hash =
     seq require_initialized (
     seq require_not_paused (
     and_then (require_active_member env caller) (\<lambda>_.
     seq (reject_if (length content_hash > 64) DocumentTooLarge) (
     and_then (reads (proposal_exists kind proposal_id)) (\<lambda>ex.
     seq (reject_if (\<not> ex) ProposalNotFound) (
     and_then (reads (proposal_owner kind proposal_id)) (\<lambda>owner.
     seq (reject_if (owner \<noteq> Some caller) NotProposalOwner) (
     and_then (reads (loan_left_editing kind proposal_id)) (\<lambda>left.
     seq (reject_if left NotInEditingPhase) (
     seq (set_doc kind proposal_id content_hash) (
     publish (Ev_doc_attn kind proposal_id caller))))))))))))"

definition get_document :: "proposal_kind \<Rightarrow> u32 \<Rightarrow> bytes option run" where
  "get_document kind proposal_id = seq require_initialized (reads (get_doc kind proposal_id))"

section \<open>Keys written\<close>

lemma writes_docs [writes_intros]:
  "{FDoc, FEvents} \<subseteq> F \<Longrightarrow> writes F (attach_document env who kind i h)"
  "writes F (get_document kind i)"
  by (auto simp: attach_document_def get_document_def
      intro!: writes_intros)

end
