(* ===== verification/Migration.thy ===== *)
theory Migration
  imports Docs
begin

text \<open>
  \<^verbatim>\<open>migration.rs\<close>: the admin-only seeding of a fresh deployment with migrated records, and the
  lock that closes it for good.
\<close>

definition require_seeding_open :: "unit run" where
  "require_seeding_open = and_then (reads is_seeding_locked) (\<lambda>b. reject_if b SeedingLocked)"

text \<open>The local variables of \<open>seed_members\<close>.\<close>

record seed_acc =
  sa_member_list :: "address list"
  sa_total :: u32
  sa_active :: u32
  sa_contributions :: i128

definition undo_member :: "address \<Rightarrow> member option \<Rightarrow> seed_acc \<Rightarrow> seed_acc" where
  "undo_member who already a =
     (case already of
        Some prev \<Rightarrow>
          (let a = (if m_status prev = ActiveMember
                    then a\<lparr>sa_active := u32_saturating_sub (sa_active a) 1,
                           sa_contributions :=
                             i128_saturating_sub (sa_contributions a) (max (m_contribution prev) 0)\<rparr>
                    else a)
           in a\<lparr>sa_total := u32_saturating_sub (sa_total a) 1\<rparr>)
      | None \<Rightarrow> a\<lparr>sa_member_list := sa_member_list a @ [who]\<rparr>)"

definition seed_member :: "member \<Rightarrow> seed_acc \<Rightarrow> seed_acc run" where
  "seed_member m a =
     and_then (reads (get_member (m_address m))) (\<lambda>already.
     let a1 = undo_member (m_address m) already a in
     and_then (u32_add (sa_total a1) 1) (\<lambda>total.
     and_then (if m_status m = ActiveMember
               then and_then (u32_add (sa_active a1) 1) (\<lambda>active.
                    and_then (i128_add (sa_contributions a1) (max (m_contribution m) 0)) (\<lambda>c.
                    ret (a1\<lparr>sa_total := total, sa_active := active, sa_contributions := c\<rparr>)))
               else ret (a1\<lparr>sa_total := total\<rparr>)) (\<lambda>a2.
     seq (set_member m) (ret a2))))"

definition seed_members :: "env \<Rightarrow> address \<Rightarrow> member list \<Rightarrow> unit run" where
  "seed_members env caller members =
     seq (require_admin env caller) (
     seq require_seeding_open (
     and_then (reads (\<lambda>s. \<lparr>sa_member_list = get_members s, sa_total = get_total_members s,
                          sa_active = get_active_members s,
                          sa_contributions = get_active_contributions s\<rparr>)) (\<lambda>a0.
     and_then (fold_prog seed_member members a0) (\<lambda>a.
     seq (set_members (sa_member_list a)) (
     seq (set_total_members (sa_total a)) (
     seq (set_active_members (sa_active a)) (
     set_active_contributions (sa_contributions a))))))))"

definition seed_stake :: "seed_stake_entry \<Rightarrow> i128 \<Rightarrow> i128 run" where
  "seed_stake entry total_staked =
     and_then (reads (get_stake (sse_address entry))) (\<lambda>prev.
     and_then (i128_add (i128_saturating_sub total_staked prev) (max (sse_amount entry) 0)) (\<lambda>t.
     seq (set_stake (sse_address entry) (sse_amount entry)) (ret t)))"

definition seed_stakes :: "env \<Rightarrow> address \<Rightarrow> seed_stake_entry list \<Rightarrow> unit run" where
  "seed_stakes env caller stakes =
     seq (require_admin env caller) (
     seq require_seeding_open (
     and_then (reads get_total_staked) (\<lambda>t0.
     and_then (fold_prog seed_stake stakes t0) set_total_staked)))"

definition seed_pending_yield :: "env \<Rightarrow> address \<Rightarrow> seed_yield_entry list \<Rightarrow> unit run" where
  "seed_pending_yield env caller yields =
     seq (require_admin env caller) (
     seq require_seeding_open (
     for_each yields (\<lambda>entry. set_yield_snapshot (sye_address entry) (- max (sye_amount entry) 0))))"

definition seed_loans :: "env \<Rightarrow> address \<Rightarrow> loan list \<Rightarrow> unit run" where
  "seed_loans env caller loans =
     seq (require_admin env caller) (
     seq require_seeding_open (
     for_each loans (\<lambda>l.
       seq (set_loan l) (and_then (u32_add (l_id l) 1) set_next_proposal_id_at_least))))"

definition seed_names :: "env \<Rightarrow> address \<Rightarrow> seed_name_entry list \<Rightarrow> unit run" where
  "seed_names env caller names =
     seq (require_admin env caller) (
     seq require_seeding_open (
     for_each names (\<lambda>entry. set_name (sne_name entry) (sne_owner entry))))"

definition seed_doc :: "seed_doc_entry \<Rightarrow> unit run" where
  "seed_doc entry =
     seq (set_doc (sde_kind entry) (sde_proposal_id entry) (sde_content_hash entry)) (
     case sde_kind entry of
       LoanKind \<Rightarrow> and_then (u32_add (sde_proposal_id entry) 1) set_next_proposal_id_at_least
     | TreasuryKind \<Rightarrow> and_then (u32_add (sde_proposal_id entry) 1) set_next_treasury_id_at_least)"

definition seed_docs :: "env \<Rightarrow> address \<Rightarrow> seed_doc_entry list \<Rightarrow> unit run" where
  "seed_docs env caller docs =
     seq (require_admin env caller) (
     seq require_seeding_open (
     for_each docs seed_doc))"

definition lock_seeding :: "env \<Rightarrow> address \<Rightarrow> unit run" where
  "lock_seeding env caller =
     seq (require_admin env caller) (
     and_then (reads is_seeding_locked) (\<lambda>b.
     seq (reject_if b SeedingAlreadyLocked) set_seeding_locked))"

section \<open>Keys written\<close>

lemma writes_seeding [writes_intros]:
  "{FMember, FMembers, FTotalMembers, FActiveMembers, FActiveContributions} \<subseteq> F \<Longrightarrow> writes F (seed_members env who ms)"
  "{FStake, FTotalStaked} \<subseteq> F \<Longrightarrow> writes F (seed_stakes env who ss)"
  "{FMemberYieldSnapshot} \<subseteq> F \<Longrightarrow> writes F (seed_pending_yield env who ys)"
  "{FLoan, FNextProposalId} \<subseteq> F \<Longrightarrow> writes F (seed_loans env who ls)"
  "{FName, FNameOf} \<subseteq> F \<Longrightarrow> writes F (seed_names env who ns)"
  "{FDoc, FNextProposalId, FNextTreasuryId} \<subseteq> F \<Longrightarrow> writes F (seed_docs env who ds)"
  "{FMigrationSeedingLocked} \<subseteq> F \<Longrightarrow> writes F (lock_seeding env who)"
  by (auto simp: seed_members_def seed_stakes_def seed_pending_yield_def seed_loans_def
      seed_names_def seed_docs_def lock_seeding_def seed_member_def seed_stake_def
      seed_doc_def require_seeding_open_def
      intro!: writes_intros)

end
