(* ===== verification/Interface.thy ===== *)
theory Interface
  imports Migration
begin

text \<open>
  The state-changing entrypoints of \<^verbatim>\<open>lib.rs\<close>: each hands its arguments to the module that
  carries the operation out. \<open>Contract\<close> dispatches calls to them.
\<close>

section \<open>Lifecycle and governance\<close>

definition dao_initialize :: "env \<Rightarrow> address list \<Rightarrow> u32 \<Rightarrow> i128 \<Rightarrow> address \<Rightarrow> loan_policy \<Rightarrow> unit run" where
  [simp]: "dao_initialize env admins threshold fee token policy =
     initialize env admins threshold fee token policy"

definition dao_add_admin :: "env \<Rightarrow> address \<Rightarrow> address \<Rightarrow> unit run" where
  [simp]: "dao_add_admin env caller admin = add_admin env caller admin"

definition dao_remove_admin :: "env \<Rightarrow> address \<Rightarrow> address \<Rightarrow> unit run" where
  [simp]: "dao_remove_admin env caller admin = remove_admin env caller admin"

definition dao_set_pauser :: "env \<Rightarrow> address \<Rightarrow> address \<Rightarrow> unit run" where
  [simp]: "dao_set_pauser env caller pauser = admin_set_pauser env caller pauser"

definition dao_revoke_pauser :: "env \<Rightarrow> address \<Rightarrow> unit run" where
  [simp]: "dao_revoke_pauser env caller = revoke_pauser env caller"

definition dao_set_consensus_threshold :: "env \<Rightarrow> address \<Rightarrow> u32 \<Rightarrow> unit run" where
  [simp]: "dao_set_consensus_threshold env caller threshold =
     set_consensus_threshold env caller threshold"

definition dao_propose_policy_update :: "env \<Rightarrow> address \<Rightarrow> loan_policy \<Rightarrow> unit run" where
  [simp]: "dao_propose_policy_update env caller policy = propose_policy_update env caller policy"

definition dao_execute_policy_update :: "env \<Rightarrow> address \<Rightarrow> unit run" where
  [simp]: "dao_execute_policy_update env caller = execute_policy_update env caller"

definition dao_cancel_policy_update :: "env \<Rightarrow> address \<Rightarrow> unit run" where
  [simp]: "dao_cancel_policy_update env caller = cancel_policy_update env caller"

definition dao_set_loan_policy :: "env \<Rightarrow> address \<Rightarrow> loan_policy \<Rightarrow> unit run" where
  [simp]: "dao_set_loan_policy env caller policy = admin_set_policy env caller policy"

definition dao_pause :: "env \<Rightarrow> address \<Rightarrow> unit run" where
  [simp]: "dao_pause env caller = pause env caller"

definition dao_unpause :: "env \<Rightarrow> address \<Rightarrow> unit run" where
  [simp]: "dao_unpause env caller = unpause env caller"

section \<open>Membership\<close>

definition dao_register_member :: "env \<Rightarrow> address \<Rightarrow> unit run" where
  [simp]: "dao_register_member env who = register_member env who"

definition dao_exit_dao :: "env \<Rightarrow> address \<Rightarrow> unit run" where
  [simp]: "dao_exit_dao env who = exit_dao env who"

definition dao_claim_rewards :: "env \<Rightarrow> address \<Rightarrow> i128 run" where
  [simp]: "dao_claim_rewards env who = claim_rewards env who"

definition dao_delegate_vote :: "env \<Rightarrow> address \<Rightarrow> address \<Rightarrow> unit run" where
  [simp]: "dao_delegate_vote env delegator delegatee = delegate_vote env delegator delegatee"

section \<open>Loans\<close>

definition dao_request_loan :: "env \<Rightarrow> address \<Rightarrow> i128 \<Rightarrow> string option \<Rightarrow> u32 run" where
  [simp]: "dao_request_loan env borrower amount cid = request_loan env borrower amount cid"

definition dao_request_loan_in_asset :: "env \<Rightarrow> address \<Rightarrow> i128 \<Rightarrow> address \<Rightarrow> string option \<Rightarrow> u32 run" where
  [simp]: "dao_request_loan_in_asset env borrower amount asset cid =
     request_loan_in_asset env borrower amount asset cid"

definition dao_edit_loan_proposal :: "env \<Rightarrow> address \<Rightarrow> u32 \<Rightarrow> i128 \<Rightarrow> unit run" where
  [simp]: "dao_edit_loan_proposal env borrower i amount = edit_loan_proposal env borrower i amount"

definition dao_cancel_loan_proposal :: "env \<Rightarrow> address \<Rightarrow> u32 \<Rightarrow> unit run" where
  [simp]: "dao_cancel_loan_proposal env borrower i = cancel_loan_proposal env borrower i"

definition dao_vote_on_loan_proposal :: "env \<Rightarrow> address \<Rightarrow> u32 \<Rightarrow> bool \<Rightarrow> unit run" where
  [simp]: "dao_vote_on_loan_proposal env voter i support =
     vote_on_loan_proposal env voter i support"

definition dao_vote_batch :: "env \<Rightarrow> address \<Rightarrow> proposal_vote list \<Rightarrow> unit run" where
  [simp]: "dao_vote_batch env voter votes = vote_batch env voter votes"

definition dao_disburse_approved_loan :: "env \<Rightarrow> u32 \<Rightarrow> unit run" where
  [simp]: "dao_disburse_approved_loan env i = disburse_approved_loan env i"

definition dao_repay_loan :: "env \<Rightarrow> address \<Rightarrow> u32 \<Rightarrow> unit run" where
  [simp]: "dao_repay_loan env borrower i = repay_loan env borrower i"

definition dao_repay_loan_in_asset :: "env \<Rightarrow> address \<Rightarrow> u32 \<Rightarrow> address \<Rightarrow> unit run" where
  [simp]: "dao_repay_loan_in_asset env borrower i asset = repay_loan_in_asset env borrower i asset"

definition dao_repay_loan_partial :: "env \<Rightarrow> address \<Rightarrow> u32 \<Rightarrow> i128 \<Rightarrow> unit run" where
  [simp]: "dao_repay_loan_partial env borrower i amount = repay_loan_partial env borrower i amount"

definition dao_mark_loan_defaulted :: "env \<Rightarrow> u32 \<Rightarrow> unit run" where
  [simp]: "dao_mark_loan_defaulted env i = mark_loan_defaulted env i"

definition dao_expire_loan_proposal :: "env \<Rightarrow> u32 \<Rightarrow> unit run" where
  [simp]: "dao_expire_loan_proposal env i = expire_loan_proposal env i"

section \<open>Treasury\<close>

definition dao_propose_treasury_withdrawal :: "env \<Rightarrow> address \<Rightarrow> i128 \<Rightarrow> address \<Rightarrow> string \<Rightarrow> bool \<Rightarrow> u32 run" where
  [simp]: "dao_propose_treasury_withdrawal env proposer amount destination reason private =
     propose_withdrawal env proposer amount destination reason private"

definition dao_propose_withdrawal_in_asset :: "env \<Rightarrow> address \<Rightarrow> i128 \<Rightarrow> address \<Rightarrow> address \<Rightarrow> string \<Rightarrow> bool \<Rightarrow> u32 run" where
  [simp]: "dao_propose_withdrawal_in_asset env proposer amount asset destination reason private =
     propose_withdrawal_in_asset env proposer amount asset destination reason private"

definition dao_vote_on_treasury_proposal :: "env \<Rightarrow> address \<Rightarrow> u32 \<Rightarrow> bool \<Rightarrow> unit run" where
  [simp]: "dao_vote_on_treasury_proposal env voter i support = treasury_vote env voter i support"

definition dao_cancel_treasury_proposal :: "env \<Rightarrow> address \<Rightarrow> u32 \<Rightarrow> unit run" where
  [simp]: "dao_cancel_treasury_proposal env proposer i = cancel_treasury_proposal env proposer i"

definition dao_expire_treasury_proposal :: "env \<Rightarrow> u32 \<Rightarrow> unit run" where
  [simp]: "dao_expire_treasury_proposal env i = expire_treasury_proposal env i"

definition dao_execute_treasury_proposal :: "env \<Rightarrow> u32 \<Rightarrow> unit run" where
  [simp]: "dao_execute_treasury_proposal env i = execute_approved env i"

section \<open>Maintenance\<close>

definition dao_bump_dao_ttl :: "env \<Rightarrow> unit run" where
  [simp]: "dao_bump_dao_ttl env = publish Ev_TtlBumped"

section \<open>Staking, names, commitments, documents\<close>

definition dao_stake :: "env \<Rightarrow> address \<Rightarrow> i128 \<Rightarrow> unit run" where
  [simp]: "dao_stake env who amount = stake env who amount"

definition dao_unstake :: "env \<Rightarrow> address \<Rightarrow> i128 \<Rightarrow> unit run" where
  [simp]: "dao_unstake env who amount = unstake env who amount"

definition dao_register_name :: "env \<Rightarrow> address \<Rightarrow> string \<Rightarrow> unit run" where
  [simp]: "dao_register_name env owner name = register_name env owner name"

definition dao_commit_treasury_vote :: "env \<Rightarrow> address \<Rightarrow> u32 \<Rightarrow> bytes \<Rightarrow> unit run" where
  [simp]: "dao_commit_treasury_vote env voter i commitment = commit_vote env voter i commitment"

definition dao_reveal_treasury_vote :: "env \<Rightarrow> address \<Rightarrow> u32 \<Rightarrow> bool \<Rightarrow> bytes \<Rightarrow> unit run" where
  [simp]: "dao_reveal_treasury_vote env voter i support salt = reveal_vote env voter i support salt"

definition dao_attach_document :: "env \<Rightarrow> address \<Rightarrow> proposal_kind \<Rightarrow> u32 \<Rightarrow> bytes \<Rightarrow> unit run" where
  [simp]: "dao_attach_document env caller kind i content_hash =
     attach_document env caller kind i content_hash"

section \<open>Token whitelist\<close>

definition dao_propose_token_addition :: "env \<Rightarrow> address \<Rightarrow> address \<Rightarrow> unit run" where
  [simp]: "dao_propose_token_addition env caller token = propose_token_addition env caller token"

definition dao_execute_token_addition :: "env \<Rightarrow> address \<Rightarrow> address \<Rightarrow> unit run" where
  [simp]: "dao_execute_token_addition env caller token = execute_token_addition env caller token"

definition dao_remove_token :: "env \<Rightarrow> address \<Rightarrow> address \<Rightarrow> unit run" where
  [simp]: "dao_remove_token env caller token = remove_token env caller token"

section \<open>Migration\<close>

definition dao_seed_members :: "env \<Rightarrow> address \<Rightarrow> member list \<Rightarrow> unit run" where
  [simp]: "dao_seed_members env caller members = seed_members env caller members"

definition dao_seed_stakes :: "env \<Rightarrow> address \<Rightarrow> seed_stake_entry list \<Rightarrow> unit run" where
  [simp]: "dao_seed_stakes env caller stakes = seed_stakes env caller stakes"

definition dao_seed_pending_yield :: "env \<Rightarrow> address \<Rightarrow> seed_yield_entry list \<Rightarrow> unit run" where
  [simp]: "dao_seed_pending_yield env caller yields = seed_pending_yield env caller yields"

definition dao_seed_loans :: "env \<Rightarrow> address \<Rightarrow> loan list \<Rightarrow> unit run" where
  [simp]: "dao_seed_loans env caller loans = seed_loans env caller loans"

definition dao_seed_names :: "env \<Rightarrow> address \<Rightarrow> seed_name_entry list \<Rightarrow> unit run" where
  [simp]: "dao_seed_names env caller names = seed_names env caller names"

definition dao_seed_docs :: "env \<Rightarrow> address \<Rightarrow> seed_doc_entry list \<Rightarrow> unit run" where
  [simp]: "dao_seed_docs env caller docs = seed_docs env caller docs"

definition dao_lock_seeding :: "env \<Rightarrow> address \<Rightarrow> unit run" where
  [simp]: "dao_lock_seeding env caller = lock_seeding env caller"

end
