(* ===== verification/Contract.thy ===== *)
theory Contract
  imports Interface
begin

text \<open>
  \<^verbatim>\<open>lib.rs\<close>: the contract's state-changing entrypoints as one datatype of calls, their
  dispatch, and the host's commit rule: an invocation that ends with an error or a trap leaves
  no trace. On top stand the states reachable by any sequence of calls under any host
  environment, and the two locales that turn a law of every call into a law of every run.
\<close>

section \<open>Calls\<close>

datatype call =
    Initialize "address list" u32 i128 address loan_policy
  | AddAdmin address address
  | RemoveAdmin address address
  | SetPauser address address
  | RevokePauser address
  | SetConsensusThreshold address u32
  | ProposePolicyUpdate address loan_policy
  | ExecutePolicyUpdate address
  | CancelPolicyUpdate address
  | SetLoanPolicy address loan_policy
  | Pause address
  | Unpause address
  | RegisterMember address
  | ExitDao address
  | ClaimRewards address
  | DelegateVote address address
  | RequestLoan address i128 "string option"
  | RequestLoanInAsset address i128 address "string option"
  | EditLoanProposal address u32 i128
  | CancelLoanProposal address u32
  | VoteOnLoanProposal address u32 bool
  | VoteBatch address "proposal_vote list"
  | DisburseApprovedLoan u32
  | RepayLoan address u32
  | RepayLoanInAsset address u32 address
  | RepayLoanPartial address u32 i128
  | MarkLoanDefaulted u32
  | ExpireLoanProposal u32
  | ProposeTreasuryWithdrawal address i128 address string bool
  | ProposeWithdrawalInAsset address i128 address address string bool
  | VoteOnTreasuryProposal address u32 bool
  | CancelTreasuryProposal address u32
  | ExpireTreasuryProposal u32
  | ExecuteTreasuryProposal u32
  | BumpDaoTtl
  | Stake address i128
  | Unstake address i128
  | RegisterName address string
  | CommitTreasuryVote address u32 bytes
  | RevealTreasuryVote address u32 bool bytes
  | AttachDocument address proposal_kind u32 bytes
  | ProposeTokenAddition address address
  | ExecuteTokenAddition address address
  | RemoveToken address address
  | SeedMembers address "member list"
  | SeedStakes address "seed_stake_entry list"
  | SeedPendingYield address "seed_yield_entry list"
  | SeedLoans address "loan list"
  | SeedNames address "seed_name_entry list"
  | SeedDocs address "seed_doc_entry list"
  | LockSeeding address

text \<open>What an entrypoint returns.\<close>

datatype reply = NoValue | Id u32 | Amount i128

definition reply_with :: "('a \<Rightarrow> reply) \<Rightarrow> 'a run \<Rightarrow> reply run" where
  "reply_with f m = and_then m (\<lambda>x. ret (f x))"

primrec dispatch :: "env \<Rightarrow> call \<Rightarrow> reply run" where
  "dispatch env (Initialize admins threshold fee token policy) =
     reply_with (\<lambda>_. NoValue) (dao_initialize env admins threshold fee token policy)"
| "dispatch env (AddAdmin caller admin) =
     reply_with (\<lambda>_. NoValue) (dao_add_admin env caller admin)"
| "dispatch env (RemoveAdmin caller admin) =
     reply_with (\<lambda>_. NoValue) (dao_remove_admin env caller admin)"
| "dispatch env (SetPauser caller pauser) =
     reply_with (\<lambda>_. NoValue) (dao_set_pauser env caller pauser)"
| "dispatch env (RevokePauser caller) =
     reply_with (\<lambda>_. NoValue) (dao_revoke_pauser env caller)"
| "dispatch env (SetConsensusThreshold caller threshold) =
     reply_with (\<lambda>_. NoValue) (dao_set_consensus_threshold env caller threshold)"
| "dispatch env (ProposePolicyUpdate caller policy) =
     reply_with (\<lambda>_. NoValue) (dao_propose_policy_update env caller policy)"
| "dispatch env (ExecutePolicyUpdate caller) =
     reply_with (\<lambda>_. NoValue) (dao_execute_policy_update env caller)"
| "dispatch env (CancelPolicyUpdate caller) =
     reply_with (\<lambda>_. NoValue) (dao_cancel_policy_update env caller)"
| "dispatch env (SetLoanPolicy caller policy) =
     reply_with (\<lambda>_. NoValue) (dao_set_loan_policy env caller policy)"
| "dispatch env (Pause caller) =
     reply_with (\<lambda>_. NoValue) (dao_pause env caller)"
| "dispatch env (Unpause caller) =
     reply_with (\<lambda>_. NoValue) (dao_unpause env caller)"
| "dispatch env (RegisterMember who) =
     reply_with (\<lambda>_. NoValue) (dao_register_member env who)"
| "dispatch env (ExitDao who) =
     reply_with (\<lambda>_. NoValue) (dao_exit_dao env who)"
| "dispatch env (ClaimRewards who) =
     reply_with Amount (dao_claim_rewards env who)"
| "dispatch env (DelegateVote delegator delegatee) =
     reply_with (\<lambda>_. NoValue) (dao_delegate_vote env delegator delegatee)"
| "dispatch env (RequestLoan borrower amount cid) =
     reply_with Id (dao_request_loan env borrower amount cid)"
| "dispatch env (RequestLoanInAsset borrower amount asset cid) =
     reply_with Id (dao_request_loan_in_asset env borrower amount asset cid)"
| "dispatch env (EditLoanProposal borrower i amount) =
     reply_with (\<lambda>_. NoValue) (dao_edit_loan_proposal env borrower i amount)"
| "dispatch env (CancelLoanProposal borrower i) =
     reply_with (\<lambda>_. NoValue) (dao_cancel_loan_proposal env borrower i)"
| "dispatch env (VoteOnLoanProposal voter i support) =
     reply_with (\<lambda>_. NoValue) (dao_vote_on_loan_proposal env voter i support)"
| "dispatch env (VoteBatch voter votes) =
     reply_with (\<lambda>_. NoValue) (dao_vote_batch env voter votes)"
| "dispatch env (DisburseApprovedLoan i) =
     reply_with (\<lambda>_. NoValue) (dao_disburse_approved_loan env i)"
| "dispatch env (RepayLoan borrower i) =
     reply_with (\<lambda>_. NoValue) (dao_repay_loan env borrower i)"
| "dispatch env (RepayLoanInAsset borrower i asset) =
     reply_with (\<lambda>_. NoValue) (dao_repay_loan_in_asset env borrower i asset)"
| "dispatch env (RepayLoanPartial borrower i amount) =
     reply_with (\<lambda>_. NoValue) (dao_repay_loan_partial env borrower i amount)"
| "dispatch env (MarkLoanDefaulted i) =
     reply_with (\<lambda>_. NoValue) (dao_mark_loan_defaulted env i)"
| "dispatch env (ExpireLoanProposal i) =
     reply_with (\<lambda>_. NoValue) (dao_expire_loan_proposal env i)"
| "dispatch env (ProposeTreasuryWithdrawal proposer amount destination reason private) =
     reply_with Id (dao_propose_treasury_withdrawal env proposer amount destination reason private)"
| "dispatch env (ProposeWithdrawalInAsset proposer amount asset destination reason private) =
     reply_with Id (dao_propose_withdrawal_in_asset env proposer amount asset destination reason private)"
| "dispatch env (VoteOnTreasuryProposal voter i support) =
     reply_with (\<lambda>_. NoValue) (dao_vote_on_treasury_proposal env voter i support)"
| "dispatch env (CancelTreasuryProposal proposer i) =
     reply_with (\<lambda>_. NoValue) (dao_cancel_treasury_proposal env proposer i)"
| "dispatch env (ExpireTreasuryProposal i) =
     reply_with (\<lambda>_. NoValue) (dao_expire_treasury_proposal env i)"
| "dispatch env (ExecuteTreasuryProposal i) =
     reply_with (\<lambda>_. NoValue) (dao_execute_treasury_proposal env i)"
| "dispatch env BumpDaoTtl =
     reply_with (\<lambda>_. NoValue) (dao_bump_dao_ttl env)"
| "dispatch env (Stake who amount) =
     reply_with (\<lambda>_. NoValue) (dao_stake env who amount)"
| "dispatch env (Unstake who amount) =
     reply_with (\<lambda>_. NoValue) (dao_unstake env who amount)"
| "dispatch env (RegisterName owner name) =
     reply_with (\<lambda>_. NoValue) (dao_register_name env owner name)"
| "dispatch env (CommitTreasuryVote voter i commitment) =
     reply_with (\<lambda>_. NoValue) (dao_commit_treasury_vote env voter i commitment)"
| "dispatch env (RevealTreasuryVote voter i support salt) =
     reply_with (\<lambda>_. NoValue) (dao_reveal_treasury_vote env voter i support salt)"
| "dispatch env (AttachDocument caller kind i content_hash) =
     reply_with (\<lambda>_. NoValue) (dao_attach_document env caller kind i content_hash)"
| "dispatch env (ProposeTokenAddition caller token) =
     reply_with (\<lambda>_. NoValue) (dao_propose_token_addition env caller token)"
| "dispatch env (ExecuteTokenAddition caller token) =
     reply_with (\<lambda>_. NoValue) (dao_execute_token_addition env caller token)"
| "dispatch env (RemoveToken caller token) =
     reply_with (\<lambda>_. NoValue) (dao_remove_token env caller token)"
| "dispatch env (SeedMembers caller members) =
     reply_with (\<lambda>_. NoValue) (dao_seed_members env caller members)"
| "dispatch env (SeedStakes caller stakes) =
     reply_with (\<lambda>_. NoValue) (dao_seed_stakes env caller stakes)"
| "dispatch env (SeedPendingYield caller yields) =
     reply_with (\<lambda>_. NoValue) (dao_seed_pending_yield env caller yields)"
| "dispatch env (SeedLoans caller loans) =
     reply_with (\<lambda>_. NoValue) (dao_seed_loans env caller loans)"
| "dispatch env (SeedNames caller names) =
     reply_with (\<lambda>_. NoValue) (dao_seed_names env caller names)"
| "dispatch env (SeedDocs caller docs) =
     reply_with (\<lambda>_. NoValue) (dao_seed_docs env caller docs)"
| "dispatch env (LockSeeding caller) =
     reply_with (\<lambda>_. NoValue) (dao_lock_seeding env caller)"

text \<open>Who has to authorize the call, if anybody.\<close>

primrec principal :: "call \<Rightarrow> address option" where
  "principal (Initialize admins threshold fee token policy) = None"
| "principal (AddAdmin caller admin) = Some caller"
| "principal (RemoveAdmin caller admin) = Some caller"
| "principal (SetPauser caller pauser) = Some caller"
| "principal (RevokePauser caller) = Some caller"
| "principal (SetConsensusThreshold caller threshold) = Some caller"
| "principal (ProposePolicyUpdate caller policy) = Some caller"
| "principal (ExecutePolicyUpdate caller) = Some caller"
| "principal (CancelPolicyUpdate caller) = Some caller"
| "principal (SetLoanPolicy caller policy) = Some caller"
| "principal (Pause caller) = Some caller"
| "principal (Unpause caller) = Some caller"
| "principal (RegisterMember who) = Some who"
| "principal (ExitDao who) = Some who"
| "principal (ClaimRewards who) = Some who"
| "principal (DelegateVote delegator delegatee) = Some delegator"
| "principal (RequestLoan borrower amount cid) = Some borrower"
| "principal (RequestLoanInAsset borrower amount asset cid) = Some borrower"
| "principal (EditLoanProposal borrower i amount) = Some borrower"
| "principal (CancelLoanProposal borrower i) = Some borrower"
| "principal (VoteOnLoanProposal voter i support) = Some voter"
| "principal (VoteBatch voter votes) = Some voter"
| "principal (DisburseApprovedLoan i) = None"
| "principal (RepayLoan borrower i) = Some borrower"
| "principal (RepayLoanInAsset borrower i asset) = Some borrower"
| "principal (RepayLoanPartial borrower i amount) = Some borrower"
| "principal (MarkLoanDefaulted i) = None"
| "principal (ExpireLoanProposal i) = None"
| "principal (ProposeTreasuryWithdrawal proposer amount destination reason private) = Some proposer"
| "principal (ProposeWithdrawalInAsset proposer amount asset destination reason private) = Some proposer"
| "principal (VoteOnTreasuryProposal voter i support) = Some voter"
| "principal (CancelTreasuryProposal proposer i) = Some proposer"
| "principal (ExpireTreasuryProposal i) = None"
| "principal (ExecuteTreasuryProposal i) = None"
| "principal BumpDaoTtl = None"
| "principal (Stake who amount) = Some who"
| "principal (Unstake who amount) = Some who"
| "principal (RegisterName owner name) = Some owner"
| "principal (CommitTreasuryVote voter i commitment) = Some voter"
| "principal (RevealTreasuryVote voter i support salt) = Some voter"
| "principal (AttachDocument caller kind i content_hash) = Some caller"
| "principal (ProposeTokenAddition caller token) = Some caller"
| "principal (ExecuteTokenAddition caller token) = Some caller"
| "principal (RemoveToken caller token) = Some caller"
| "principal (SeedMembers caller members) = Some caller"
| "principal (SeedStakes caller stakes) = Some caller"
| "principal (SeedPendingYield caller yields) = Some caller"
| "principal (SeedLoans caller loans) = Some caller"
| "principal (SeedNames caller names) = Some caller"
| "principal (SeedDocs caller docs) = Some caller"
| "principal (LockSeeding caller) = Some caller"

text \<open>The storage keys an entrypoint may write.\<close>

primrec footprint :: "call \<Rightarrow> field set" where
  "footprint (Initialize admins threshold fee token policy) =
     {FAdmins, FThreshold, FMembershipFee, FToken, FPolicy, FPaused, FMembers, FTotalMembers,
      FActiveMembers, FEvents}"
| "footprint (AddAdmin caller admin) = {FAdmins, FEvents}"
| "footprint (RemoveAdmin caller admin) = {FAdmins, FEvents}"
| "footprint (SetPauser caller pauser) = {FPauser, FEvents}"
| "footprint (RevokePauser caller) = {FPauser, FEvents}"
| "footprint (SetConsensusThreshold caller threshold) = {FThreshold, FEvents}"
| "footprint (ProposePolicyUpdate caller policy) = {FPendingPolicyUpdate, FEvents}"
| "footprint (ExecutePolicyUpdate caller) = {FPolicy, FPendingPolicyUpdate, FEvents}"
| "footprint (CancelPolicyUpdate caller) = {FPendingPolicyUpdate, FEvents}"
| "footprint (SetLoanPolicy caller policy) = {FPendingPolicyUpdate, FEvents}"
| "footprint (Pause caller) = {FPaused, FEvents}"
| "footprint (Unpause caller) = {FPaused, FEvents}"
| "footprint (RegisterMember who) =
     {FMember, FMemberYieldSnapshot, FMembers, FTotalMembers, FActiveMembers,
      FActiveContributions, FLedger, FEvents}"
| "footprint (ExitDao who) =
     {FStake, FTotalStaked, FMemberYieldSnapshot, FName, FNameOf, FMember, FActiveMembers,
      FActiveContributions, FLedger, FEvents}"
| "footprint (ClaimRewards who) = {FMemberYieldSnapshot, FLedger, FEvents}"
| "footprint (DelegateVote delegator delegatee) = {FDelegation, FEvents}"
| "footprint (RequestLoan borrower amount cid) =
     {FNextProposalId, FLoanProposal, FOpenProposals, FLoanAsset, FEvents}"
| "footprint (RequestLoanInAsset borrower amount asset cid) =
     {FNextProposalId, FLoanProposal, FOpenProposals, FLoanAsset, FEvents}"
| "footprint (EditLoanProposal borrower i amount) = {FLoanProposal, FOpenProposals, FEvents}"
| "footprint (CancelLoanProposal borrower i) = {FLoanProposal, FOpenProposals, FEvents}"
| "footprint (VoteOnLoanProposal voter i support) =
     {FLoanVoted, FLoanProposal, FOpenProposals, FLoan, FMember, FLedger, FEvents}"
| "footprint (VoteBatch voter votes) =
     {FLoanVoted, FLoanProposal, FOpenProposals, FLoan, FMember, FLedger, FEvents}"
| "footprint (DisburseApprovedLoan i) =
     {FLoanProposal, FOpenProposals, FLoan, FMember, FLedger, FEvents}"
| "footprint (RepayLoan borrower i) =
     {FMember, FLoan, FYieldAccumulator, FYieldRemainder, FLedger, FEvents}"
| "footprint (RepayLoanInAsset borrower i asset) =
     {FMember, FLoan, FYieldAccumulator, FYieldRemainder, FLedger, FEvents}"
| "footprint (RepayLoanPartial borrower i amount) =
     {FMember, FLoan, FYieldAccumulator, FYieldRemainder, FLedger, FEvents}"
| "footprint (MarkLoanDefaulted i) =
     {FLoan, FMember, FActiveContributions, FMemberYieldSnapshot, FEvents}"
| "footprint (ExpireLoanProposal i) = {FLoanProposal, FOpenProposals, FEvents}"
| "footprint (ProposeTreasuryWithdrawal proposer amount destination reason private) =
     {FNextTreasuryId, FTreasuryProposal, FOpenProposals, FTreasuryAsset, FEvents}"
| "footprint (ProposeWithdrawalInAsset proposer amount asset destination reason private) =
     {FNextTreasuryId, FTreasuryProposal, FOpenProposals, FTreasuryAsset, FEvents}"
| "footprint (VoteOnTreasuryProposal voter i support) =
     {FTreasuryVoted, FTreasuryProposal, FOpenProposals, FLedger, FEvents}"
| "footprint (CancelTreasuryProposal proposer i) = {FTreasuryProposal, FOpenProposals, FEvents}"
| "footprint (ExpireTreasuryProposal i) = {FTreasuryProposal, FOpenProposals}"
| "footprint (ExecuteTreasuryProposal i) = {FTreasuryProposal, FOpenProposals, FLedger, FEvents}"
| "footprint BumpDaoTtl = {FEvents}"
| "footprint (Stake who amount) = {FStake, FTotalStaked, FStakeTime, FEvents}"
| "footprint (Unstake who amount) = {FStake, FTotalStaked, FEvents}"
| "footprint (RegisterName owner name) = {FName, FNameOf, FEvents}"
| "footprint (CommitTreasuryVote voter i commitment) = {FCommit, FEvents}"
| "footprint (RevealTreasuryVote voter i support salt) =
     {FCommit, FTreasuryVoted, FTreasuryProposal, FOpenProposals, FLedger, FEvents}"
| "footprint (AttachDocument caller kind i content_hash) = {FDoc, FEvents}"
| "footprint (ProposeTokenAddition caller token) = {FPendingTokenAddition, FEvents}"
| "footprint (ExecuteTokenAddition caller token) =
     {FPendingTokenAddition, FTokenWhitelisted, FWhitelistedTokens, FEvents}"
| "footprint (RemoveToken caller token) = {FTokenWhitelisted, FWhitelistedTokens, FEvents}"
| "footprint (SeedMembers caller members) =
     {FMember, FMembers, FTotalMembers, FActiveMembers, FActiveContributions}"
| "footprint (SeedStakes caller stakes) = {FStake, FTotalStaked}"
| "footprint (SeedPendingYield caller yields) = {FMemberYieldSnapshot}"
| "footprint (SeedLoans caller loans) = {FLoan, FNextProposalId}"
| "footprint (SeedNames caller names) = {FName, FNameOf}"
| "footprint (SeedDocs caller docs) = {FDoc, FNextProposalId, FNextTreasuryId}"
| "footprint (LockSeeding caller) = {FMigrationSeedingLocked}"

section \<open>Invocation\<close>

datatype result = Returned reply | Failed error | Trapped

definition invoke :: "env \<Rightarrow> call \<Rightarrow> dao \<Rightarrow> result \<times> dao" where
  "invoke env c s =
     (case dispatch env c s of
        Ok r t \<Rightarrow> (Returned r, t)
      | Err e t \<Rightarrow> (Failed e, s)
      | Panic \<Rightarrow> (Trapped, s))"

text \<open>A freshly deployed contract: nothing stored, whatever balances the tokens report.\<close>

definition fresh_dao :: "ledger \<Rightarrow> dao" where
  "fresh_dao l =
     \<lparr>kAdmins = None, kThreshold = None, kMembershipFee = None, kToken = None, kPolicy = None,
      kPaused = None, kPauser = None, kMembers = None, kTotalMembers = None, kActiveMembers =
      None, kNextProposalId = None, kNextTreasuryId = None, kTotalStaked = None,
      kPendingPolicyUpdate = None, kMember = Map.empty, kLoanProposal = Map.empty, kLoan =
      Map.empty, kTreasuryProposal = Map.empty, kLoanVoted = Map.empty, kStakeTime = Map.empty,
      kTreasuryVoted = Map.empty, kStake = Map.empty, kOpenProposals = Map.empty,
      kYieldAccumulator = None, kYieldRemainder = None, kMemberYieldSnapshot = Map.empty, kDoc =
      Map.empty, kName = Map.empty, kNameOf = Map.empty, kCommit = Map.empty,
      kTotalContributions = None, kActiveContributions = None, kDelegation = Map.empty,
      kTokenWhitelisted = Map.empty, kWhitelistedTokens = None, kPendingTokenAddition =
      Map.empty, kLoanAsset = Map.empty, kTreasuryAsset = Map.empty, kMigrationSeedingLocked =
      None, ledger = l, events = []\<rparr>"

lemma fresh_dao_fields [simp]:
  "kAdmins (fresh_dao l) = None"
  "kThreshold (fresh_dao l) = None"
  "kMembershipFee (fresh_dao l) = None"
  "kToken (fresh_dao l) = None"
  "kPolicy (fresh_dao l) = None"
  "kPaused (fresh_dao l) = None"
  "kPauser (fresh_dao l) = None"
  "kMembers (fresh_dao l) = None"
  "kTotalMembers (fresh_dao l) = None"
  "kActiveMembers (fresh_dao l) = None"
  "kNextProposalId (fresh_dao l) = None"
  "kNextTreasuryId (fresh_dao l) = None"
  "kTotalStaked (fresh_dao l) = None"
  "kPendingPolicyUpdate (fresh_dao l) = None"
  "kMember (fresh_dao l) = Map.empty"
  "kLoanProposal (fresh_dao l) = Map.empty"
  "kLoan (fresh_dao l) = Map.empty"
  "kTreasuryProposal (fresh_dao l) = Map.empty"
  "kLoanVoted (fresh_dao l) = Map.empty"
  "kStakeTime (fresh_dao l) = Map.empty"
  "kTreasuryVoted (fresh_dao l) = Map.empty"
  "kStake (fresh_dao l) = Map.empty"
  "kOpenProposals (fresh_dao l) = Map.empty"
  "kYieldAccumulator (fresh_dao l) = None"
  "kYieldRemainder (fresh_dao l) = None"
  "kMemberYieldSnapshot (fresh_dao l) = Map.empty"
  "kDoc (fresh_dao l) = Map.empty"
  "kName (fresh_dao l) = Map.empty"
  "kNameOf (fresh_dao l) = Map.empty"
  "kCommit (fresh_dao l) = Map.empty"
  "kTotalContributions (fresh_dao l) = None"
  "kActiveContributions (fresh_dao l) = None"
  "kDelegation (fresh_dao l) = Map.empty"
  "kTokenWhitelisted (fresh_dao l) = Map.empty"
  "kWhitelistedTokens (fresh_dao l) = None"
  "kPendingTokenAddition (fresh_dao l) = Map.empty"
  "kLoanAsset (fresh_dao l) = Map.empty"
  "kTreasuryAsset (fresh_dao l) = Map.empty"
  "kMigrationSeedingLocked (fresh_dao l) = None"
  "ledger (fresh_dao l) = l"
  "events (fresh_dao l) = []"
  by (simp_all add: fresh_dao_def)

text \<open>
  Every state a sequence of allowed calls can reach. Each call comes with its own host
  environment, and between calls the tokens' ledgers may change in any way, as other contracts
  and accounts use the tokens too.
\<close>

inductive reachable :: "(call \<Rightarrow> bool) \<Rightarrow> dao \<Rightarrow> bool" for allowed where
  fresh: "reachable allowed (fresh_dao l)"
| call: "reachable allowed s \<Longrightarrow> allowed c \<Longrightarrow> reachable allowed (snd (invoke env c s))"
| outside: "reachable allowed s \<Longrightarrow> reachable allowed (s\<lparr>ledger := l\<rparr>)"

inductive_cases reachable_cases: "reachable allowed s"

text \<open>A whole run: the calls of a list one after the other.\<close>

primrec run_calls :: "(env \<times> call) list \<Rightarrow> dao \<Rightarrow> dao" where
  "run_calls [] s = s"
| "run_calls (ec # ecs) s = run_calls ecs (snd (invoke (fst ec) (snd ec) s))"

definition any_call :: "call \<Rightarrow> bool" where
  "any_call c \<longleftrightarrow> True"

lemma any_callI [simp]: "any_call c"
  by (simp add: any_call_def)

lemma reachable_mono:
  "reachable allowed s \<Longrightarrow> (\<And>c. allowed c \<Longrightarrow> wider c) \<Longrightarrow> reachable wider s"
  by (induction rule: reachable.induct) (auto intro: reachable.intros)

lemma reachable_run_calls:
  "reachable allowed s \<Longrightarrow> (\<forall>ec \<in> set ecs. allowed (snd ec)) \<Longrightarrow> reachable allowed (run_calls ecs s)"
  by (induction ecs arbitrary: s) (auto intro: reachable.call)

section \<open>Footprints and the commit rule\<close>

lemma ok_reply_with [ok_simps]: "reply_with f m s = Ok r t \<longleftrightarrow> (\<exists>x. m s = Ok x t \<and> r = f x)"
  by (auto simp: reply_with_def ok_simps)

lemma err_reply_with [err_simps]: "reply_with f m s = Err e t \<longleftrightarrow> m s = Err e t"
  by (simp add: reply_with_def err_simps)

lemma writes_reply_with [writes_intros]: "writes F m \<Longrightarrow> writes F (reply_with f m)"
  by (auto simp: reply_with_def intro!: writes_intros)

lemma keeps_reply_with [keeps_intros]: "keeps P m \<Longrightarrow> keeps P (reply_with f m)"
  by (auto simp: reply_with_def intro!: keeps_intros)

lemma writes_dispatch: "writes (footprint c) (dispatch env c)"
  by (cases c) (simp_all add: writes_intros)

lemma invoke_cases:
  obtains (returned) r t where "dispatch env c s = Ok r t" "invoke env c s = (Returned r, t)"
  | (failed) e t where "dispatch env c s = Err e t" "invoke env c s = (Failed e, s)"
  | (trapped) "dispatch env c s = Panic" "invoke env c s = (Trapped, s)"
  by (cases "dispatch env c s") (simp_all add: invoke_def)

lemma invoke_returned: "invoke env c s = (Returned r, t) \<longleftrightarrow> dispatch env c s = Ok r t"
  by (auto simp: invoke_def split: outcome.splits)

section \<open>Laws of every run\<close>

text \<open>
  A predicate is stable when the calls that may write what it reads keep it; the frame calculus
  takes care of all the others. A stable predicate of the fresh contract is an invariant.
\<close>

lemma same_ledger: "f \<noteq> FLedger \<Longrightarrow> same f s (s\<lparr>ledger := l\<rparr>)"
  by (cases f) simp_all

locale stable =
  fixes P :: "dao \<Rightarrow> bool" and D :: "field set" and allowed :: "call \<Rightarrow> bool"
  assumes reads_only: "depends D P"
    and no_ledger: "FLedger \<notin> D"
    and touching: "allowed c \<Longrightarrow> footprint c \<inter> D \<noteq> {} \<Longrightarrow> dispatch env c s = Ok r t \<Longrightarrow> P s \<Longrightarrow> P t"
begin

lemma dispatch_keeps: "allowed c \<Longrightarrow> dispatch env c s = Ok r t \<Longrightarrow> P s \<Longrightarrow> P t"
  using keepsD_Ok [OF keeps_frame [OF writes_dispatch reads_only]] touching by (metis inf_commute)

lemma invoke_keeps: "allowed c \<Longrightarrow> P s \<Longrightarrow> P (snd (invoke env c s))"
  by (rule invoke_cases [of env c s]) (auto dest: dispatch_keeps)

lemma outside_keeps: "P s \<Longrightarrow> P (s\<lparr>ledger := l\<rparr>)"
  using reads_only no_ledger same_ledger by (metis depends_def)

lemma run_keeps: "P s \<Longrightarrow> (\<forall>ec \<in> set ecs. allowed (snd ec)) \<Longrightarrow> P (run_calls ecs s)"
  by (induction ecs arbitrary: s) (auto intro: invoke_keeps)

end

locale invariant = stable +
  assumes fresh: "P (fresh_dao l)"
begin

lemma reachable_holds: "reachable allowed s \<Longrightarrow> P s"
  by (induction rule: reachable.induct) (auto intro: fresh invoke_keeps outside_keeps)

end

end
