(* ===== verification/Views.thy ===== *)
theory Views
  imports Contract
begin

text \<open>
  The read-only entrypoints of \<^verbatim>\<open>lib.rs\<close>. A view that needs an initialized contract answers
  \<open>NotInitialized\<close> otherwise; the others answer from whatever is stored. The two paginated
  views walk an index range that is clamped to what exists.
\<close>

section \<open>Members\<close>

definition get_member_loan_stats :: "address \<Rightarrow> member_loan_stats run" where
  "get_member_loan_stats who =
     and_then (reads (get_member who)) (\<lambda>v. ok_or (map_option loan_stats v) NotMember)"

definition get_member_overview :: "address \<Rightarrow> member_overview run" where
  "get_member_overview who = member_overview who"

definition view_member :: "address \<Rightarrow> dao \<Rightarrow> member option" where
  "view_member who s = get_member who s"

definition is_member :: "address \<Rightarrow> dao \<Rightarrow> bool" where
  "is_member who s =
     (case get_member who s of Some m \<Rightarrow> m_status m = ActiveMember | None \<Rightarrow> False)"

definition view_eligibility :: "env \<Rightarrow> address \<Rightarrow> unit run" where
  "view_eligibility env who = is_eligible_for_loan env who"

definition view_total_members :: "dao \<Rightarrow> u32" where
  "view_total_members s = get_total_members s"

definition view_active_members :: "dao \<Rightarrow> u32" where
  "view_active_members s = get_active_members s"

definition view_stake :: "address \<Rightarrow> dao \<Rightarrow> i128" where
  "view_stake who s = get_stake who s"

definition get_pending_yield :: "address \<Rightarrow> i128 run" where
  "get_pending_yield who = compute_pending_yield who"

definition view_voting_weight :: "address \<Rightarrow> i128 run" where
  "view_voting_weight who = get_voting_weight who"

definition view_stake_weight_unit :: i128 where
  "view_stake_weight_unit = get_stake_weight_unit"

definition view_max_stake_bonus :: i128 where
  "view_max_stake_bonus = get_max_stake_bonus"

definition get_delegate :: "address \<Rightarrow> dao \<Rightarrow> address option" where
  "get_delegate delegator s = get_delegation delegator s"

definition list_members :: "u32 \<Rightarrow> u32 \<Rightarrow> member list run" where
  "list_members start limit =
     and_then (reads get_members) (\<lambda>all.
     let len = length all; first = min start len in
     and_then (u32_add start limit) (\<lambda>e.
     reads (\<lambda>s. List.map_filter (\<lambda>i. get_member (all ! i) s) [first..<min e len])))"

section \<open>Proposals and loans\<close>

definition view_loan_proposal :: "env \<Rightarrow> u32 \<Rightarrow> loan_proposal option run" where
  "view_loan_proposal env i =
     and_then (reads (get_loan_proposal i)) (\<lambda>v.
     case v of None \<Rightarrow> ret None | Some p \<Rightarrow> and_then (refresh_phase env p) (\<lambda>q. ret (Some q)))"

definition view_loan :: "u32 \<Rightarrow> dao \<Rightarrow> loan option" where
  "view_loan i s = get_loan i s"

definition view_treasury_proposal :: "u32 \<Rightarrow> dao \<Rightarrow> treasury_proposal option" where
  "view_treasury_proposal i s = get_treasury_proposal i s"

definition get_loan_proposal_count :: "dao \<Rightarrow> u32" where
  "get_loan_proposal_count s = get_proposal_count NextProposalId s"

definition get_treasury_proposal_count :: "dao \<Rightarrow> u32" where
  "get_treasury_proposal_count s = get_proposal_count NextTreasuryId s"

definition list_treasury_proposals :: "u32 \<Rightarrow> u32 \<Rightarrow> treasury_proposal list run" where
  "list_treasury_proposals start limit =
     and_then (reads (get_proposal_count NextTreasuryId)) (\<lambda>count.
     let first = min start count in
     and_then (u32_add start limit) (\<lambda>e.
     reads (\<lambda>s. List.map_filter (\<lambda>i. get_treasury_proposal i s) [first..<min e count])))"

definition has_voted :: "proposal_kind \<Rightarrow> u32 \<Rightarrow> address \<Rightarrow> dao \<Rightarrow> bool" where
  "has_voted kind i voter s =
     (case kind of
        LoanKind \<Rightarrow> has_loan_voted i voter s
      | TreasuryKind \<Rightarrow> has_treasury_voted i voter s \<or> get_commit i voter s \<noteq> None)"

definition view_loan_terms :: "env \<Rightarrow> i128 \<Rightarrow> loan_terms run" where
  "view_loan_terms env amount = seq require_initialized (calculate_loan_terms env amount)"

definition view_exit_share :: "env \<Rightarrow> address \<Rightarrow> i128 run" where
  "view_exit_share env who = seq require_initialized (calculate_exit_share env who)"

section \<open>Configuration and treasury\<close>

definition view_loan_policy :: "loan_policy run" where
  "view_loan_policy = seq require_initialized get_policy"

definition view_resolve_name :: "string \<Rightarrow> address option run" where
  "view_resolve_name name = resolve_name name"

definition view_name_of :: "address \<Rightarrow> string option run" where
  "view_name_of owner = name_of owner"

definition view_document :: "proposal_kind \<Rightarrow> u32 \<Rightarrow> bytes option run" where
  "view_document kind proposal_id = get_document kind proposal_id"

definition view_pending_policy_update :: "dao \<Rightarrow> pending_policy_update option" where
  "view_pending_policy_update s = admin_pending_policy_update s"

definition view_initialized :: "dao \<Rightarrow> bool" where
  "view_initialized s = is_initialized s"

definition view_paused :: "dao \<Rightarrow> bool" where
  "view_paused s = is_paused s"

definition view_seeding_locked :: "dao \<Rightarrow> bool" where
  "view_seeding_locked s = is_seeding_locked s"

definition view_token_whitelisted :: "address \<Rightarrow> dao \<Rightarrow> bool" where
  "view_token_whitelisted token s = is_token_whitelisted token s"

definition view_whitelisted_tokens :: "dao \<Rightarrow> address list" where
  "view_whitelisted_tokens s = get_whitelisted_tokens s"

definition view_admins :: "address list run" where
  "view_admins = seq require_initialized get_admins"

definition view_is_admin :: "address \<Rightarrow> bool run" where
  "view_is_admin who = seq require_initialized (is_admin who)"

definition view_treasury_balance :: "env \<Rightarrow> i128 run" where
  "view_treasury_balance env = seq require_initialized (treasury_balance env)"

definition view_treasury_balance_in_asset :: "env \<Rightarrow> address \<Rightarrow> i128 run" where
  "view_treasury_balance_in_asset env asset = treasury_balance_in_asset env asset"

definition view_consensus_threshold :: "u32 run" where
  "view_consensus_threshold = seq require_initialized get_threshold"

definition view_token :: "address run" where
  "view_token = seq require_initialized get_token"

text \<open>\<open>CARGO_PKG_VERSION\<close> of the package.\<close>

definition get_version :: string where
  "get_version = ''0.1.0''"

definition push_balance :: "env \<Rightarrow> address \<Rightarrow> asset_balance list \<Rightarrow> asset_balance list run" where
  "push_balance env asset acc =
     and_then (treasury_balance_in_asset env asset) (\<lambda>b.
     ret (acc @ [\<lparr>ab_asset = asset, ab_balance = b\<rparr>]))"

definition get_dao_summary :: "env \<Rightarrow> dao_summary run" where
  "get_dao_summary env =
     and_then (reads get_whitelisted_tokens) (\<lambda>tokens.
     and_then (fold_prog (push_balance env) tokens []) (\<lambda>balances.
     and_then (reads get_total_members) (\<lambda>members.
     and_then (reads get_active_members) (\<lambda>active.
     and_then (treasury_balance env) (\<lambda>treasury.
     and_then (reads get_total_staked) (\<lambda>staked.
     and_then get_threshold (\<lambda>threshold.
     and_then (reads is_paused) (\<lambda>paused.
     ret \<lparr>ds_total_members = members, ds_active_members = active,
          ds_treasury_balance = treasury, ds_treasury_balances = balances,
          ds_total_staked = staked, ds_consensus_threshold = threshold,
          ds_paused = paused, ds_version = get_version\<rparr>))))))))"

end
