(* ===== verification/Token.thy ===== *)
theory Token
  imports Views
begin

text \<open>
  The interface to the token contracts. What the properties about money rely on are two laws: a
  transfer that succeeds between two accounts moves exactly its amount, and it touches no account
  but the two it names. The mock token of \<^verbatim>\<open>tests/common.rs\<close> obeys them.
\<close>

section \<open>The laws\<close>

locale token_contract =
  fixes transfer :: "address \<Rightarrow> address \<Rightarrow> address \<Rightarrow> i128 \<Rightarrow> ledger \<Rightarrow> ledger option"
  assumes exact: "transfer token a b n l = Some l' \<Longrightarrow> a \<noteq> b \<Longrightarrow>
    0 \<le> n \<and> l' = l(token := (l token)(a := l token a - n, b := l token b + n))"
    and touches: "transfer token a b n l = Some l' \<Longrightarrow> (t, c) \<notin> {(token, a), (token, b)} \<Longrightarrow> l' t c = l t c"
begin

lemma sender_pays: "transfer token a b n l = Some l' \<Longrightarrow> a \<noteq> b \<Longrightarrow> l' token a = l token a - n"
  by (drule (1) exact) auto

lemma receiver_gets: "transfer token a b n l = Some l' \<Longrightarrow> a \<noteq> b \<Longrightarrow> l' token b = l token b + n"
  by (drule (1) exact) auto

lemma only_the_sender_loses:
  assumes "transfer token a b n l = Some l'" and "c \<noteq> a"
  shows "l t c \<le> l' t c"
proof (cases "(t, c) = (token, b)")
  case True
  with assms receiver_gets [OF assms(1)] exact [OF assms(1)] show ?thesis by auto
next
  case False
  with assms touches [OF assms(1), of t c] show ?thesis by auto
qed

lemma supply_kept:
  assumes "transfer token a b n l = Some l'" and "a \<noteq> b" and "finite A" and "a \<in> A" and "b \<in> A"
  shows "(\<Sum>x \<in> A. l' token x) = (\<Sum>x \<in> A. l token x)"
proof -
  have split: "(\<Sum>x \<in> A. f x) = f a + (f b + (\<Sum>x \<in> A - {a} - {b}. f x))" for f :: "address \<Rightarrow> i128"
  proof -
    have "b \<in> A - {a}" "finite (A - {a})" using assms by auto
    then show ?thesis using assms by (simp only: sum.remove [of A a f] sum.remove [of "A - {a}" b f])
  qed
  have "(\<Sum>x \<in> A - {a} - {b}. l' token x) = (\<Sum>x \<in> A - {a} - {b}. l token x)"
    using touches [OF assms(1), of token] by (intro sum.cong) auto
  with sender_pays [OF assms(1,2)] receiver_gets [OF assms(1,2)] show ?thesis
    by (simp add: split [of "l' token"] split [of "l token"])
qed

end

section \<open>The mock token\<close>

text \<open>
  \<open>RejectingToken::transfer\<close>: both balances are read before either is written. The reject flag
  is a parameter; a panic is \<open>None\<close>.
\<close>

definition mock_transfer ::
  "bool \<Rightarrow> address \<Rightarrow> address \<Rightarrow> address \<Rightarrow> i128 \<Rightarrow> ledger \<Rightarrow> ledger option" where
  "mock_transfer reject token from_addr to_addr amount l =
     (if reject then None
      else if amount < 0 then None
      else if l token from_addr < amount then None
      else if \<not> in_i128 (l token to_addr + amount) then None
      else Some (l(token := ((l token)(from_addr := l token from_addr - amount,
                                      to_addr := l token to_addr + amount)))))"

definition mock_mint :: "address \<Rightarrow> address \<Rightarrow> i128 \<Rightarrow> ledger \<Rightarrow> ledger option" where
  "mock_mint token to_addr amount l =
     (if \<not> in_i128 (l token to_addr + amount) then None
      else Some (l(token := ((l token)(to_addr := l token to_addr + amount)))))"

interpretation mock: token_contract "mock_transfer reject"
  by unfold_locales (auto simp: mock_transfer_def fun_upd_twist split: if_splits)

end
