(* ===== verification/Scenario.thy ===== *)
theory Scenario
  imports Token
begin

text \<open>
  A concrete host to run the contract on, with the mock token of \<open>Token\<close>, a policy and amounts
  like those of \<^verbatim>\<open>tests/common.rs\<close>, and a small DAO built by calls. The witnesses of the
  properties run here.
\<close>

section \<open>A host and a policy\<close>

definition dao_addr :: address where "dao_addr = Address 0"
definition usdc :: address where "usdc = Address 1"
definition boss :: address where "boss = Address 2"
definition alice :: address where "alice = Address 3"
definition bob :: address where "bob = Address 4"
definition carol :: address where "carol = Address 5"

definition host :: "u64 \<Rightarrow> env" where
  "host now =
     \<lparr>env_self = dao_addr, env_now = now, env_auth = (\<lambda>_. True),
      env_is_token = (\<lambda>a. a = usdc), env_transfer = mock_transfer False,
      env_sha256 = (\<lambda>b. b), env_to_xdr = (\<lambda>a. case a of Address n \<Rightarrow> [of_nat n])\<rparr>"

definition test_policy :: loan_policy where
  "test_policy =
     \<lparr>pol_min_membership_duration = 0, pol_membership_contribution = 1000,
      pol_max_loan_duration = 2592000, pol_min_interest_rate = 500,
      pol_max_interest_rate = 2000, pol_cooldown_period = 0,
      pol_max_loan_to_treasury_ratio = 5000, pol_default_grace_period = 86400,
      pol_default_penalty_bps = 2000, pol_editing_period = 259200, pol_voting_period = 259200,
      pol_treasury_threshold = 5100, pol_quorum_bps = 5100\<rparr>"

definition purse :: ledger where
  "purse = (\<lambda>token who. if token = usdc \<and> who \<noteq> dao_addr then 1000000 else 0)"

section \<open>A small DAO\<close>

definition founded :: dao where
  "founded = snd (invoke (host 1) (Initialize [boss] 5100 1000 usdc test_policy) (fresh_dao purse))"

definition peopled :: dao where
  "peopled = run_calls
     [(host 2, RegisterMember alice), (host 2, RegisterMember bob), (host 2, RegisterMember carol)]
     founded"

definition asked :: dao where
  "asked = snd (invoke (host 10) (RequestLoan alice 600 None) peopled)"

definition backed :: dao where
  "backed = snd (invoke (host 259300) (VoteOnLoanProposal bob 0 True) asked)"

definition lent :: dao where
  "lent = snd (invoke (host 259300) (VoteOnLoanProposal carol 0 True) backed)"

text \<open>
  Carol stakes 1400 tokens and leaves. Her one payment into the contract was the fee of 1000.
\<close>

definition pledged :: dao where
  "pledged = snd (invoke (host 20) (Stake carol 1400) peopled)"

definition drained :: dao where
  "drained = snd (invoke (host 30) (ExitDao carol) pledged)"

text \<open>Nobody repays, and the loan is marked as defaulted after its grace period.\<close>

definition lapsed :: dao where
  "lapsed = snd (invoke (host 3000000) (MarkLoanDefaulted 0) lent)"

text \<open>Governance at work: a pause, a policy update and a token addition through their timelocks.\<close>

definition halted :: dao where
  "halted = snd (invoke (host 5) (Pause boss) peopled)"

definition next_policy :: loan_policy where
  "next_policy = test_policy\<lparr>pol_max_interest_rate := 1500\<rparr>"

definition tabled :: dao where
  "tabled = snd (invoke (host 5) (ProposePolicyUpdate boss next_policy) peopled)"

definition enacted :: dao where
  "enacted = snd (invoke (host 200000) (ExecutePolicyUpdate boss) tabled)"

definition euro :: address where "euro = Address 9"

text \<open>A host on which every address answers as a token.\<close>

definition open_host :: "u64 \<Rightarrow> env" where
  "open_host now = (host now)\<lparr>env_is_token := (\<lambda>_. True)\<rparr>"

definition nominated :: dao where
  "nominated = snd (invoke (open_host 5) (ProposeTokenAddition boss euro) peopled)"

definition adopted :: dao where
  "adopted = snd (invoke (host 200000) (ExecuteTokenAddition boss euro) nominated)"

section \<open>Evaluation\<close>

text \<open>Each state in normal form, computed from the one before by simplification.\<close>

lemmas address_names = dao_addr_def usdc_def boss_def alice_def bob_def carol_def
lemmas eval_simps = invoke_def reply_with_def run_simps dao_defs storage_defs is_initialized_def 
  host_def int_bounds

lemma founded_eq: "founded = (fresh_dao purse)\<lparr>kAdmins := Some [boss], kThreshold := Some 5100,
  kMembershipFee := Some 1000, kToken := Some usdc, kPolicy := Some test_policy, kPaused := Some False,
  kMembers := Some [], kTotalMembers := Some 0, kActiveMembers := Some 0, 
  events := [Ev_init [boss] 5100 1000 usdc]\<rparr>"
  by (simp add: founded_def eval_simps invalid_policy_def test_policy_def)

definition joiner :: "address \<Rightarrow> member" where
  "joiner a = \<lparr>m_address = a, m_status = ActiveMember, m_join_time = 2, m_contribution = 1000,
        m_share_balance = 1000, m_has_active_loan = False, m_last_loan_time = 0,
        m_total_loans = 0, m_repaid_loans = 0, m_active_loans = 0\<rparr>"

lemma peopled_eq: "peopled = founded\<lparr>
  kMember := [alice \<mapsto> joiner alice, bob \<mapsto> joiner bob, carol \<mapsto> joiner carol],
  kMemberYieldSnapshot := [alice \<mapsto> 0, bob \<mapsto> 0, carol \<mapsto> 0],
  kMembers := Some [alice, bob, carol], kTotalMembers := Some 3, kActiveMembers := Some 3,
  kActiveContributions := Some 3000,
  ledger := purse(usdc := (purse usdc)(alice := 999000, bob := 999000, carol := 999000, dao_addr := 3000)), 
  events := [Ev_init [boss] 5100 1000 usdc, Ev_joined alice 1000, Ev_joined bob 1000, Ev_joined carol 1000]\<rparr>"
  by (simp add: peopled_def founded_eq eval_simps address_names purse_def mock_transfer_def
     register_member_def loan_counters_def joiner_def)

lemmas loan_eval = request_loan_def request_loan_in_asset_def is_token_whitelisted_def check_metadata_cid_def
  is_eligible_for_loan_def get_open_proposals_def count_open_proposals_def quote_terms_def quote_ratio_def
  quote_rate_def quote_interest_def ceil_bps_def ceil_div_nonnegative_def checked_mul_def checked_add_def checked_div_def
  checked_i128_def u64_saturating_sub_def signed_divide_int_def signed_modulo_int_def as_u32_def next_id_def 
  set_counter_def count_if_def open_loan_proposal_def u64_saturating_add_def u32_saturating_add_def

definition asked_proposal :: loan_proposal where
  "asked_proposal = \<lparr>p_id = 0, p_borrower = alice, p_amount = 600,
        p_interest_rate = 800, p_duration = 2592000,
        p_total_repayment = 648, p_created_at = 10,
        p_editing_period_end = 259210, p_phase = Editing, p_status = Pending,
        p_for_votes = 0, p_against_votes = 0, p_votes_cast = 0,
        p_voting_period = 259200, p_metadata_cid = None,
        p_last_edited_at = None\<rparr>"

lemma asked_eq: "asked = peopled\<lparr>kNextProposalId := Some 1, kLoanProposal := [0 \<mapsto> asked_proposal],
   kOpenProposals := [alice \<mapsto> 1],
   events := events peopled @ [Ev_loan_req 0 alice 600 648 usdc]\<rparr>"
  by (simp add: asked_def peopled_eq founded_eq eval_simps address_names test_policy_def joiner_def loan_eval asked_proposal_def purse_def)

lemmas vote_eval = vote_on_loan_proposal_def vote_on_loan_proposal_internal_def load_loan_proposal_def
  refresh_phase_def cast_loan_vote_def loan_quorum_def conclude_loan_vote_def max_remaining_votes_def
  approve_and_disburse_def voting_weight_def own_weight_def stake_boost_def u32_saturating_sub_def add_delegated_def

definition backed_proposal :: loan_proposal where
  "backed_proposal = asked_proposal\<lparr>p_phase := Voting, p_for_votes := 1, p_votes_cast := 1\<rparr>"

lemma backed_eq: "backed = asked\<lparr>kLoanVoted := [(0, bob) \<mapsto> True], kLoanProposal := [0 \<mapsto> backed_proposal],
   kOpenProposals := [alice \<mapsto> 1],
   events := events asked @ [Ev_loan_vote 0 bob True]\<rparr>"
  by (simp add: backed_def asked_eq peopled_eq founded_eq eval_simps address_names test_policy_def joiner_def loan_eval asked_proposal_def purse_def vote_eval Let_def backed_proposal_def)

definition lent_loan :: loan where "lent_loan = \<lparr>l_id = 0, l_borrower = alice, l_principal = 600,
        l_interest_rate = 800, l_total_repayment = 648,
        l_start_time = 259300, l_due_time = 2851300, l_status = LoanActive, l_amount_repaid = 0\<rparr>"

lemma lent_eq: "lent = backed\<lparr>kLoanVoted := [(0, bob) \<mapsto> True, (0, carol) \<mapsto> True], 
   kLoanProposal := [0 \<mapsto> asked_proposal\<lparr>p_phase := PhExecuted, p_status := Approved, p_for_votes := 2, p_votes_cast := Suc 1\<rparr>],
   kOpenProposals := [alice \<mapsto> 0], kLoan := [0 \<mapsto> lent_loan], 
   kMember := [bob \<mapsto> joiner bob, carol \<mapsto> joiner carol,
     alice \<mapsto> (joiner alice)\<lparr>m_has_active_loan := True, m_last_loan_time := 259300,
       m_total_loans := 1, m_active_loans := 1\<rparr>],
   ledger := purse(usdc := (purse usdc)(bob := 999000, carol := 999000, dao_addr := 2400, alice := 999600)), 
   events := events asked @ [Ev_loan_vote 0 bob True, Ev_loan_vote 0 carol True, Ev_loan_appr 0 alice 600 2851300 usdc]\<rparr>"
  by (simp add: lent_def backed_eq asked_eq peopled_eq founded_eq eval_simps address_names test_policy_def joiner_def loan_eval asked_proposal_def 
     purse_def vote_eval Let_def lent_loan_def backed_proposal_def mock_transfer_def)

lemmas vote_weight_eval = voting_weight_def own_weight_def stake_boost_def add_delegated_def

lemma pledged_eq: "pledged = peopled\<lparr>kStake := [carol \<mapsto> 1400], kTotalStaked := Some 1400,
   kStakeTime := [carol \<mapsto> 20], events := events peopled @ [Ev_staked carol 1400 1400 4]\<rparr>"
proof -
  have boost: "stake_boost 1400 s = Ok 3 s" for s
    by (simp add: stake_boost_table int_bounds boost_table_def)
  show ?thesis
    by (simp add: pledged_def peopled_eq founded_eq eval_simps address_names joiner_def stake_def boost)
qed

lemma drained_eq: "drained = pledged\<lparr>kStake := [carol \<mapsto> 0], kTotalStaked := Some 0,
   kMember := [alice \<mapsto> joiner alice, bob \<mapsto> joiner bob, carol \<mapsto> departed (joiner carol)],
   kActiveMembers := Some (Suc 1), kActiveContributions := Some 2000,
   ledger := purse(usdc := (purse usdc)(alice := 999000, bob := 999000, dao_addr := 1067, carol := 1000933)),
   events := events pledged @ [Ev_exited carol 533 0]\<rparr>"
  by (simp add: drained_def pledged_eq peopled_eq founded_eq eval_simps address_names joiner_def departed_def
      exit_dao_def calculate_exit_share_def compute_pending_yield_def check_funds_def unlock_stake_def
      pay_out_def release_name_def share_from_contributions_def checked_mul_def checked_div_def
      checked_i128_def signed_divide_int_def mock_transfer_def purse_def)

lemma lapsed_eq: "lapsed = lent\<lparr>kLoan := [0 \<mapsto> lent_loan\<lparr>l_status := Defaulted\<rparr>],
   kMember := [bob \<mapsto> joiner bob, carol \<mapsto> joiner carol,
     alice \<mapsto> (joiner alice)\<lparr>m_contribution := 800, m_last_loan_time := 259300,
       m_total_loans := 1\<rparr>],
   kMemberYieldSnapshot := [bob \<mapsto> 0, carol \<mapsto> 0, alice \<mapsto> 0],
   kActiveContributions := Some 2800,
   events := events lent @ [Ev_loan_dflt 0 alice 200]\<rparr>"
  by (simp add: lapsed_def lent_eq backed_eq asked_eq peopled_eq founded_eq eval_simps address_names
      test_policy_def joiner_def lent_loan_def mark_loan_defaulted_def slash_borrower_def
      default_slash_def ceil_bps_def checked_mul_def checked_add_def checked_div_def checked_i128_def
      signed_divide_int_def u32_saturating_sub_def Let_def)

lemma lapsed_run: "dispatch (host 3000000) (MarkLoanDefaulted 0) lent = Ok NoValue lapsed"
  by (simp add: lapsed_eq lent_eq backed_eq asked_eq peopled_eq founded_eq eval_simps address_names
      test_policy_def joiner_def lent_loan_def mark_loan_defaulted_def slash_borrower_def
      default_slash_def ceil_bps_def checked_mul_def checked_add_def checked_div_def checked_i128_def
      signed_divide_int_def u32_saturating_sub_def Let_def)

lemma halted_eq: "halted = peopled\<lparr>kPaused := Some True, events := events peopled @ [Ev_paused boss]\<rparr>"
  by (simp add: halted_def peopled_eq founded_eq eval_simps address_names)

lemma tabled_eq: "tabled = peopled\<lparr>kPendingPolicyUpdate := Some \<lparr>ppu_policy = next_policy,
    ppu_proposed_at = 5, ppu_execution_time = 172805\<rparr>, events := events peopled @ [Ev_pol_prop boss 172805]\<rparr>"
  by (simp add: tabled_def peopled_eq founded_eq eval_simps address_names next_policy_def test_policy_def
      invalid_policy_def)

lemma enacted_eq: "enacted = peopled\<lparr>kPolicy := Some next_policy,
    events := events tabled @ [Ev_policy test_policy next_policy]\<rparr>"
  by (simp add: enacted_def tabled_eq peopled_eq founded_eq eval_simps address_names)

lemma nominated_eq: "nominated = peopled\<lparr>kPendingTokenAddition := [euro \<mapsto> 172805],
    events := events peopled @ [Ev_tok_prop boss euro 172805]\<rparr>"
  by (simp add: nominated_def peopled_eq founded_eq eval_simps address_names euro_def
      is_token_whitelisted_def open_host_def)

lemma adopted_eq: "adopted = peopled\<lparr>kTokenWhitelisted := [euro \<mapsto> True], kWhitelistedTokens := Some [euro],
    events := events nominated @ [Ev_tok_add boss euro]\<rparr>"
  by (simp add: adopted_def nominated_eq peopled_eq founded_eq eval_simps address_names euro_def
      set_token_whitelisted_def)

section \<open>Reachability\<close>

lemma reachable_peopled:
  assumes "allowed (Initialize [boss] 5100 1000 usdc test_policy)" and "\<And>who. allowed (RegisterMember who)"
  shows "reachable allowed peopled"
  unfolding peopled_def founded_def
  by (intro reachable_run_calls reachable.intros) (use assms in simp_all)

lemma reachable_lent:
  assumes "reachable allowed peopled" and "allowed (RequestLoan alice 600 None)"
    and "\<And>who. allowed (VoteOnLoanProposal who 0 True)"
  shows "reachable allowed lent"
  unfolding lent_def backed_def asked_def by (intro reachable.call) (use assms in simp_all)

lemma reachable_pledged:
  assumes "reachable allowed peopled" and "allowed (Stake carol 1400)"
  shows "reachable allowed pledged"
  unfolding pledged_def by (intro reachable.call assms)

end
