(* ===== verification/Governance.thy ===== *)
theory Governance
  imports Scenario
begin

text \<open>
  Governance over every run: the admin set, the stored policies and their timelock, the token
  whitelist and its timelock, the pause switch, and who has to sign what. The invariants are
  instances of the locale \<open>invariant\<close>.
\<close>

section \<open>Invariants\<close>

definition admins_ok :: "dao \<Rightarrow> bool" where
  "admins_ok s \<longleftrightarrow> (case kAdmins s of None \<Rightarrow> True | Some as \<Rightarrow> as \<noteq> [] \<and> distinct as)"

definition policies_ok :: "dao \<Rightarrow> bool" where
  "policies_ok s \<longleftrightarrow>
     (case kPolicy s of None \<Rightarrow> True | Some p \<Rightarrow> \<not> invalid_policy p) \<and>
     (case kPendingPolicyUpdate s of None \<Rightarrow> True
      | Some u \<Rightarrow> \<not> invalid_policy (ppu_policy u) \<and> pol_quorum_bps (ppu_policy u) > 0 \<and>
                  ppu_execution_time u = ppu_proposed_at u + TIMELOCK_DURATION)"

text \<open>
  The whitelist: the flags and the list say the same, no token is listed twice, and the base
  token is never on the list nor waiting to be added.
\<close>

definition whitelist_ok :: "dao \<Rightarrow> bool" where
  "whitelist_ok s \<longleftrightarrow>
     distinct (unwrap_or (kWhitelistedTokens s) []) \<and>
     (\<forall>a. kTokenWhitelisted s a \<noteq> None \<longleftrightarrow> a \<in> set (unwrap_or (kWhitelistedTokens s) [])) \<and>
     (\<forall>b. kToken s = Some b \<longrightarrow>
        kPendingTokenAddition s b = None \<and> b \<notin> set (unwrap_or (kWhitelistedTokens s) [])) \<and>
     (kAdmins s = None \<longrightarrow>
        unwrap_or (kWhitelistedTokens s) [] = [] \<and> (\<forall>a. kPendingTokenAddition s a = None))"

lemma remove1_nonempty: "\<not> length xs \<le> 1 \<Longrightarrow> remove1 x xs \<noteq> []"
  by (cases xs) (auto simp: length_remove1)

interpretation admins: invariant admins_ok "{FAdmins}" any_call
proof unfold_locales
  show "depends {FAdmins} admins_ok" by (rule dependsI) (simp add: admins_ok_def)
  show "FLedger \<notin> {FAdmins}" by simp
  show "admins_ok (fresh_dao l)" for l by (simp add: admins_ok_def)
  fix c env s r t
  assume "footprint c \<inter> {FAdmins} \<noteq> {}" "dispatch env c s = Ok r t" "admins_ok s"
  then show "admins_ok t"
    by (cases c) (auto simp: ok_simps admin_defs storage_defs admins_ok_def remove_at_first_index
        remove1_nonempty)
qed

interpretation policies: invariant policies_ok "{FPolicy, FPendingPolicyUpdate}" any_call
proof unfold_locales
  show "depends {FPolicy, FPendingPolicyUpdate} policies_ok"
    by (rule dependsI) (simp add: policies_ok_def)
  show "FLedger \<notin> {FPolicy, FPendingPolicyUpdate}" by simp
  show "policies_ok (fresh_dao l)" for l by (simp add: policies_ok_def)
  fix c env s r t
  assume "footprint c \<inter> {FPolicy, FPendingPolicyUpdate} \<noteq> {}" "dispatch env c s = Ok r t" "policies_ok s"
  then show "policies_ok t"
    by (cases c) (auto simp: ok_simps admin_defs storage_defs policies_ok_def)
qed

lemma whitelist_add:
  "whitelist_ok s \<Longrightarrow> kAdmins s \<noteq> None \<Longrightarrow> kPendingTokenAddition s a \<noteq> None \<Longrightarrow>
   set_token_whitelisted a True (s\<lparr>kPendingTokenAddition := (kPendingTokenAddition s)(a := None)\<rparr>) = Ok u t \<Longrightarrow>
   whitelist_ok (t\<lparr>events := evs\<rparr>)"
  by (auto simp: set_token_whitelisted_def whitelist_ok_def ok_simps Let_def)

lemma whitelist_remove:
  "whitelist_ok s \<Longrightarrow> kAdmins s \<noteq> None \<Longrightarrow> set_token_whitelisted a False s = Ok u t \<Longrightarrow>
   whitelist_ok (t\<lparr>events := evs\<rparr>)"
  by (auto simp: set_token_whitelisted_def whitelist_ok_def ok_simps Let_def first_index_of_None
      remove_at_first_index split: option.splits)

lemma not_whitelisted:
  "\<not> is_token_whitelisted a s \<longleftrightarrow> kToken s \<noteq> Some a \<and> kTokenWhitelisted s a = None"
  by (simp add: is_token_whitelisted_def)

interpretation whitelist: invariant whitelist_ok
  "{FAdmins, FToken, FTokenWhitelisted, FWhitelistedTokens, FPendingTokenAddition}" any_call
proof unfold_locales
  show "depends {FAdmins, FToken, FTokenWhitelisted, FWhitelistedTokens, FPendingTokenAddition} whitelist_ok"
    by (rule dependsI) (simp add: whitelist_ok_def)
  show "FLedger \<notin> {FAdmins, FToken, FTokenWhitelisted, FWhitelistedTokens, FPendingTokenAddition}" by simp
  show "whitelist_ok (fresh_dao l)" for l by (simp add: whitelist_ok_def)
  fix c env s r t
  assume "footprint c \<inter> {FAdmins, FToken, FTokenWhitelisted, FWhitelistedTokens, FPendingTokenAddition} \<noteq> {}"
    "dispatch env c s = Ok r t" "whitelist_ok s"
  then show "whitelist_ok t"
  proof (cases c)
    case (ExecuteTokenAddition caller token)
    with \<open>dispatch env c s = Ok r t\<close> \<open>whitelist_ok s\<close> show ?thesis
      by (auto simp: ok_simps admin_defs storage_defs intro!: whitelist_add)
  next
    case (RemoveToken caller token)
    with \<open>dispatch env c s = Ok r t\<close> \<open>whitelist_ok s\<close> show ?thesis
      by (auto simp: ok_simps admin_defs storage_defs intro!: whitelist_remove)
  next
    case (ProposeTokenAddition caller token)
    with \<open>dispatch env c s = Ok r t\<close> \<open>whitelist_ok s\<close> show ?thesis
      by (auto simp: ok_simps admin_defs storage_defs not_whitelisted whitelist_ok_def)
  next
    case (Initialize admins threshold fee token policy)
    with \<open>dispatch env c s = Ok r t\<close> \<open>whitelist_ok s\<close> show ?thesis
      by (auto simp: ok_simps admin_defs storage_defs whitelist_ok_def is_initialized_def)
  qed (auto simp: ok_simps admin_defs storage_defs whitelist_ok_def)
qed

text \<open>The settings are all missing before the initialization, and all there and in range after it.\<close>

definition settings_ok :: "dao \<Rightarrow> bool" where
  "settings_ok s \<longleftrightarrow>
     (if is_initialized s
      then (\<exists>n. kThreshold s = Some n \<and> 1 \<le> n \<and> n \<le> 10000) \<and>
           (\<exists>fee. kMembershipFee s = Some fee \<and> 0 < fee) \<and> kToken s \<noteq> None \<and> kPolicy s \<noteq> None
      else kThreshold s = None \<and> kMembershipFee s = None \<and> kToken s = None \<and> kPolicy s = None)"

interpretation settings: invariant settings_ok "{FAdmins, FThreshold, FMembershipFee, FToken, FPolicy}" any_call
proof unfold_locales
  show "depends {FAdmins, FThreshold, FMembershipFee, FToken, FPolicy} settings_ok"
    by (rule dependsI) (auto simp: settings_ok_def is_initialized_def)
  show "FLedger \<notin> {FAdmins, FThreshold, FMembershipFee, FToken, FPolicy}" by simp
  show "settings_ok (fresh_dao l)" for l by (simp add: settings_ok_def is_initialized_def)
  fix c env s r t
  assume "footprint c \<inter> {FAdmins, FThreshold, FMembershipFee, FToken, FPolicy} \<noteq> {}"
    "dispatch env c s = Ok r t" "settings_ok s"
  then show "settings_ok t"
    by (cases c) (auto simp: ok_simps admin_defs storage_defs settings_ok_def is_initialized_def)
qed

section \<open>What a call may change\<close>

lemma changed_in_footprint: "dispatch env c s = Ok r t \<Longrightarrow> \<not> same f s t \<Longrightarrow> f \<in> footprint c"
  using writes_Ok [OF writes_dispatch] agreeD by blast


lemmas entry_defs =
  register_member_def exit_dao_def claim_rewards_def delegate_vote_def request_loan_def
  request_loan_in_asset_def edit_loan_proposal_def cancel_loan_proposal_def
  vote_on_loan_proposal_def vote_batch_def disburse_approved_loan_def repay_loan_def
  repay_loan_in_asset_def repay_loan_partial_def repay_loan_internal_def mark_loan_defaulted_def
  expire_loan_proposal_def propose_withdrawal_def propose_withdrawal_in_asset_def
  treasury_vote_def cancel_treasury_proposal_def expire_treasury_proposal_def execute_approved_def
  stake_def unstake_def register_name_def commit_vote_def reveal_vote_def attach_document_def
  seed_members_def seed_stakes_def seed_pending_yield_def seed_loans_def seed_names_def seed_docs_def
  lock_seeding_def require_seeding_open_def

text \<open>The keys of the configuration and of governance itself.\<close>

definition governance_keys :: "field set" where
  "governance_keys =
     {FAdmins, FThreshold, FMembershipFee, FToken, FPolicy, FPauser, FPendingPolicyUpdate,
      FTokenWhitelisted, FWhitelistedTokens, FPendingTokenAddition, FMigrationSeedingLocked}"

text \<open>The base token and the fee, once initialized, as a stable predicate.\<close>

definition configured :: "address \<Rightarrow> i128 \<Rightarrow> dao \<Rightarrow> bool" where
  "configured base fee s \<longleftrightarrow> kAdmins s \<noteq> None \<and> kToken s = Some base \<and> kMembershipFee s = Some fee"

interpretation configured: stable "configured base fee" "{FAdmins, FToken, FMembershipFee}" any_call
proof unfold_locales
  show "depends {FAdmins, FToken, FMembershipFee} (configured base fee)"
    by (rule dependsI) (simp add: configured_def)
  show "FLedger \<notin> {FAdmins, FToken, FMembershipFee}" by simp
  fix c env s r t
  assume "footprint c \<inter> {FAdmins, FToken, FMembershipFee} \<noteq> {}" "dispatch env c s = Ok r t"
    "configured base fee s"
  then show "configured base fee t"
    by (cases c) (auto simp: ok_simps admin_defs storage_defs configured_def is_initialized_def)
qed

section \<open>Properties\<close>

text \<open>C37: every call that names a principal runs only with that principal's authorization.\<close>

theorem principal_signs:
  assumes "dispatch env c s = Ok r t" and "principal c = Some a"
  shows "env_auth env a"
  using assms by (cases c) (auto simp: ok_simps admin_defs entry_defs)

theorem principal_signs_witness: "env_auth (host 2) alice"
proof -
  have "dispatch (host 2) (RegisterMember alice) founded =
    Ok NoValue (snd (invoke (host 2) (RegisterMember alice) founded))"
    by (simp add: founded_eq eval_simps address_names purse_def mock_transfer_def
        register_member_def loan_counters_def)
  then show ?thesis by (rule principal_signs) simp
qed



text \<open>The repayment entrypoints carry the same check, although the documents except them from it.\<close>

lemma repayments_are_paused:
  assumes "is_paused s" and "c = RepayLoan who i \<or> c = RepayLoanInAsset who i tok \<or> c = RepayLoanPartial who i x"
  shows "snd (invoke env c s) = s \<and> (\<forall>r. fst (invoke env c s) \<noteq> Returned r)"
proof -
  have "dispatch env c s \<noteq> Ok r t" for r t
    using assms by (auto simp: ok_simps entry_defs)
  then show ?thesis by (cases "dispatch env c s") (auto simp: invoke_def)
qed

text \<open>
  C24: once initialized, a key of the configuration or of governance changes only in a call that
  an admin of that moment makes and authorizes.
\<close>

theorem governance_needs_an_admin:
  assumes "dispatch env c s = Ok r t" and "is_initialized s"
    and "f \<in> governance_keys" and "\<not> same f s t"
  shows "\<exists>a admins. principal c = Some a \<and> env_auth env a \<and> kAdmins s = Some admins \<and> a \<in> set admins"
proof -
  have "f \<in> footprint c" using changed_in_footprint assms by blast
  with assms show ?thesis
    by (cases c) (auto simp: governance_keys_def ok_simps admin_defs entry_defs)
qed

lemma enacted_run: "dispatch (host 200000) (ExecutePolicyUpdate boss) tabled = Ok NoValue enacted"
  by (simp add: enacted_eq tabled_eq peopled_eq founded_eq eval_simps address_names)

lemma enacted_policy: "kPolicy tabled = Some test_policy" "kPolicy enacted = Some next_policy"
  "next_policy \<noteq> test_policy" "is_initialized tabled" "kAdmins tabled = Some [boss]"
  by (simp_all add: enacted_eq tabled_eq peopled_eq founded_eq next_policy_def test_policy_def
      is_initialized_def)

theorem governance_needs_an_admin_witness:
  "\<exists>a. principal (ExecutePolicyUpdate boss) = Some a \<and> kAdmins tabled = Some [a]"
proof -
  have "\<not> same FPolicy tabled enacted" using enacted_policy by simp
  from governance_needs_an_admin [OF enacted_run enacted_policy(4) _ this]
  show ?thesis using enacted_policy(5) by (simp add: governance_keys_def)
qed

text \<open>
  The pause flag is lifted only by an admin, and set only by an admin or the appointed pauser.
\<close>

theorem pause_switch:
  assumes "dispatch env c s = Ok r t" and "is_initialized s"
  shows "(is_paused s \<and> \<not> is_paused t \<longrightarrow>
            (\<exists>a admins. c = Unpause a \<and> env_auth env a \<and> kAdmins s = Some admins \<and> a \<in> set admins)) \<and>
         (\<not> is_paused s \<and> is_paused t \<longrightarrow>
            (\<exists>a admins. c = Pause a \<and> env_auth env a \<and> kAdmins s = Some admins \<and>
                        (a \<in> set admins \<or> kPauser s = Some a)))"
proof -
  have "FPaused \<in> footprint c" if "is_paused s \<noteq> is_paused t"
    using changed_in_footprint [OF assms(1), of FPaused] that by (metis is_paused_def same.simps(6))
  with assms show ?thesis
    by (cases c) (auto simp: ok_simps admin_defs storage_defs is_pauser_def)
qed

theorem pause_switch_witness:
  "\<not> is_paused peopled \<and> is_paused halted \<and>
   (\<exists>a admins. Pause boss = Pause a \<and> kAdmins peopled = Some admins \<and> (a \<in> set admins \<or> kPauser peopled = Some a))"
proof -
  have run: "dispatch (host 5) (Pause boss) peopled = Ok NoValue halted"
    by (simp add: halted_eq peopled_eq founded_eq eval_simps address_names)
  have flags: "is_initialized peopled" "\<not> is_paused peopled" "is_paused halted"
    by (simp_all add: halted_eq peopled_eq founded_eq is_initialized_def is_paused_def)
  from pause_switch [OF run flags(1)] flags show ?thesis by blast
qed

text \<open>
  C21: the configuration is well formed in every state a contract can reach: either nothing of it
  is stored, or there are admins, each named once, a threshold between 1 and 10000 basis points, a
  positive fee, a base token and a valid policy; a pending policy update is valid, has a quorum and
  waits 48 hours; and the list of accepted tokens names each accepted token once.
\<close>

theorem configuration_is_well_formed:
  assumes "reachable any_call s"
  shows "(case kAdmins s of
            None \<Rightarrow> kThreshold s = None \<and> kMembershipFee s = None \<and> kToken s = None \<and> kPolicy s = None
          | Some admins \<Rightarrow> admins \<noteq> [] \<and> distinct admins \<and>
              (\<exists>n fee base policy. kThreshold s = Some n \<and> 1 \<le> n \<and> n \<le> 10000 \<and>
                 kMembershipFee s = Some fee \<and> 0 < fee \<and> kToken s = Some base \<and>
                 kPolicy s = Some policy \<and> \<not> invalid_policy policy)) \<and>
         (case kPendingPolicyUpdate s of
            None \<Rightarrow> True
          | Some u \<Rightarrow> \<not> invalid_policy (ppu_policy u) \<and> 0 < pol_quorum_bps (ppu_policy u) \<and>
              ppu_execution_time u = ppu_proposed_at u + 172800) \<and>
         distinct (get_whitelisted_tokens s) \<and>
         (\<forall>a. a \<in> set (get_whitelisted_tokens s) \<longleftrightarrow> is_token_whitelisted a s)"
proof -
  have "admins_ok s" "policies_ok s" "settings_ok s" "whitelist_ok s"
    using admins.reachable_holds policies.reachable_holds settings.reachable_holds whitelist.reachable_holds assms
    by blast+
  then show ?thesis
    by (auto simp: admins_ok_def policies_ok_def settings_ok_def is_initialized_def whitelist_ok_def
        is_token_whitelisted_def get_whitelisted_tokens_def split: option.splits)
qed

theorem configuration_is_well_formed_witness:
  "distinct (get_whitelisted_tokens enacted) \<and> (\<exists>policy. kPolicy enacted = Some policy \<and> \<not> invalid_policy policy)"
proof -
  have "reachable any_call enacted"
    unfolding enacted_def tabled_def by (intro reachable.call reachable_peopled) simp_all
  moreover have "kAdmins enacted = Some [boss]"
    by (simp add: enacted_eq tabled_eq peopled_eq founded_eq)
  ultimately show ?thesis using configuration_is_well_formed [of enacted] by auto
qed

text \<open>
  C23: the stored policy changes only when an admin executes a pending update, which is valid and
  was proposed at least 48 hours before.
\<close>

theorem policy_changes_after_timelock:
  assumes "reachable any_call s" and "dispatch env c s = Ok r t" and "is_initialized s"
    and "kPolicy t \<noteq> kPolicy s"
  shows "\<exists>a admins u. c = ExecutePolicyUpdate a \<and> kAdmins s = Some admins \<and> a \<in> set admins \<and>
           kPendingPolicyUpdate s = Some u \<and> kPolicy t = Some (ppu_policy u) \<and>
           \<not> invalid_policy (ppu_policy u) \<and> ppu_proposed_at u + 172800 \<le> env_now env"
proof -
  have "policies_ok s" by (rule policies.reachable_holds [OF assms(1)])
  have "FPolicy \<in> footprint c" using changed_in_footprint [OF assms(2), of FPolicy] assms(4) by simp
  with assms \<open>policies_ok s\<close> show ?thesis
    by (cases c) (auto simp: ok_simps admin_defs storage_defs policies_ok_def)
qed

lemma reachable_tabled: "reachable any_call tabled"
  unfolding tabled_def by (intro reachable.call reachable_peopled) simp_all

theorem policy_changes_after_timelock_witness:
  "\<exists>u. kPendingPolicyUpdate tabled = Some u \<and> kPolicy enacted = Some (ppu_policy u) \<and>
       ppu_proposed_at u + 172800 \<le> 200000"
proof -
  have "kPolicy enacted \<noteq> kPolicy tabled" using enacted_policy by simp
  from policy_changes_after_timelock [OF reachable_tabled enacted_run enacted_policy(4) this]
  show ?thesis by (auto simp: host_def)
qed

text \<open>Whatever enters the pending slot carries the time of the call and the 48 hour delay.\<close>

theorem pending_policy_is_stamped:
  assumes "dispatch env c s = Ok r t" and "kPendingPolicyUpdate t = Some u"
    and "kPendingPolicyUpdate s \<noteq> Some u"
  shows "ppu_proposed_at u = env_now env \<and> ppu_execution_time u = env_now env + 172800"
proof -
  have "FPendingPolicyUpdate \<in> footprint c"
    using changed_in_footprint [OF assms(1), of FPendingPolicyUpdate] assms(2,3) by auto
  with assms show ?thesis
    by (cases c) (auto simp: ok_simps admin_defs storage_defs)
qed

theorem pending_policy_is_stamped_witness:
  "ppu_execution_time (the (kPendingPolicyUpdate tabled)) = 5 + 172800"
proof -
  have run: "dispatch (host 5) (ProposePolicyUpdate boss next_policy) peopled = Ok NoValue tabled"
    by (simp add: tabled_eq peopled_eq founded_eq eval_simps address_names next_policy_def
        test_policy_def invalid_policy_def)
  have slot: "kPendingPolicyUpdate tabled = Some (the (kPendingPolicyUpdate tabled))"
    "kPendingPolicyUpdate peopled \<noteq> Some u" for u
    by (simp_all add: tabled_eq peopled_eq founded_eq)
  from pending_policy_is_stamped [OF run slot] show ?thesis by (simp add: host_def)
qed

text \<open>
  A token that becomes acceptable was waiting, and its waiting time is over when an admin
  executes the addition.
\<close>

theorem token_listed_after_timelock:
  assumes "dispatch env c s = Ok r t" and "is_initialized s"
    and "is_token_whitelisted a t" and "\<not> is_token_whitelisted a s"
  shows "\<exists>who at. c = ExecuteTokenAddition who a \<and> kPendingTokenAddition s a = Some at \<and> at \<le> env_now env"
proof -
  have "FToken \<in> footprint c \<or> FTokenWhitelisted \<in> footprint c"
    using changed_in_footprint [OF assms(1)] assms(3,4)
    by (metis is_token_whitelisted_def same.simps(4) same.simps(34))
  with assms show ?thesis
    by (cases c) (auto simp: ok_simps admin_defs storage_defs is_token_whitelisted_def
         set_token_whitelisted_def Let_def split: if_splits)
qed

theorem token_listed_after_timelock_witness:
  "\<exists>at. kPendingTokenAddition nominated euro = Some at \<and> at \<le> 200000 \<and> is_token_whitelisted euro adopted"
proof -
  have run: "dispatch (open_host 200000) (ExecuteTokenAddition boss euro) nominated = Ok NoValue adopted"
    by (simp add: adopted_eq nominated_eq peopled_eq founded_eq eval_simps address_names euro_def
        set_token_whitelisted_def open_host_def)
  have listed: "is_initialized nominated" "is_token_whitelisted euro adopted"
    "\<not> is_token_whitelisted euro nominated"
    by (simp_all add: adopted_eq nominated_eq peopled_eq founded_eq is_initialized_def
        is_token_whitelisted_def usdc_def euro_def)
  from token_listed_after_timelock [OF run listed] listed(2) show ?thesis
    by (auto simp: open_host_def host_def)
qed

text \<open>An initialized contract always has an admin, and lists no admin twice.\<close>

theorem admins_never_empty:
  assumes "reachable any_call s" and "is_initialized s"
  shows "\<exists>admins. kAdmins s = Some admins \<and> admins \<noteq> [] \<and> distinct admins"
  using admins.reachable_holds [OF assms(1)] assms(2)
  by (auto simp: admins_ok_def is_initialized_def)

theorem admins_never_empty_witness: "\<exists>admins. kAdmins tabled = Some admins \<and> admins \<noteq> []"
  using admins_never_empty [OF reachable_tabled enacted_policy(4)] by blast

text \<open>
  The list of accepted tokens has no duplicates and names exactly the tokens the contract
  accepts, the base token included.
\<close>

theorem whitelist_book:
  assumes "reachable any_call s"
  shows "distinct (get_whitelisted_tokens s) \<and>
         (\<forall>a. is_token_whitelisted a s \<longleftrightarrow> a \<in> set (get_whitelisted_tokens s))"
  using whitelist.reachable_holds [OF assms]
  by (cases "kToken s") (auto simp: whitelist_ok_def is_token_whitelisted_def get_whitelisted_tokens_def)

theorem whitelist_book_witness: "euro \<in> set (get_whitelisted_tokens adopted)"
proof -
  have "reachable any_call adopted"
    unfolding adopted_def nominated_def by (intro reachable.call reachable_peopled) simp_all
  moreover have "is_token_whitelisted euro adopted"
    by (simp add: adopted_eq is_token_whitelisted_def)
  ultimately show ?thesis using whitelist_book by blast
qed

text \<open>No run of calls changes the base token or the membership fee of an initialized contract.\<close>

theorem configuration_is_fixed:
  assumes "is_initialized s" and "kToken s = Some base" and "kMembershipFee s = Some fee"
  shows "kToken (run_calls ecs s) = Some base \<and> kMembershipFee (run_calls ecs s) = Some fee"
  using configured.run_keeps [of base fee s ecs] assms
  by (simp add: configured_def is_initialized_def)

theorem configuration_is_fixed_witness:
  "kToken (run_calls [(host 3, Initialize [alice] 1 1 bob test_policy)] peopled) = Some usdc"
  using configuration_is_fixed [of peopled usdc 1000 "[(host 3, Initialize [alice] 1 1 bob test_policy)]"]
  by (simp add: peopled_eq founded_eq is_initialized_def)

end
