(* ===== verification/Blocks.thy ===== *)
theory Blocks
  imports Scenario
begin

text \<open>
  Building blocks: the compound operations keep a predicate as soon as the operations they are built
  from do. Each invariant then only argues about the building blocks.
\<close>

lemma keeps_pure_prog: "writes {} m \<Longrightarrow> keeps P m"
  by (rule keepsI) (auto simp: pure_ok dest: pure_err)

lemma keeps_pure_loans [keeps_intros]:
  "keeps P (load_loan_proposal i)" "keeps P (refresh_phase env p)" "keeps P (loan_quorum n)"
  "keeps P (max_remaining_votes n m)" "keeps P (quote_terms a b)" "keeps P (settle_overdue env l)"
  "keeps P (load_treasury_proposal i)"
  by (intro keeps_pure_prog writes_intros)+

lemma keeps_ballot:
  assumes "\<And>p. keeps P (approve_and_disburse env p)" "\<And>p. keeps P (set_loan_proposal env p)"
    and "\<And>i who. keeps P (set_loan_voted i who)" "\<And>e. keeps P (publish e)"
  shows "keeps P (vote_on_loan_proposal_internal env who i b)"
    and "keeps P (vote_on_loan_proposal env who i b)"
    and "keeps P (vote_batch env who votes)"
    and "keeps P (disburse_approved_loan env i)"
proof -
  have "keeps P (cast_loan_vote env who i b p)" "keeps P (conclude_loan_vote env n r p)" for i b p n r
    using assms by (auto simp: cast_loan_vote_def conclude_loan_vote_def Let_def intro!: keeps_intros)
  then show internal: "keeps P (vote_on_loan_proposal_internal env who i b)" for i b
    using assms by (auto simp: vote_on_loan_proposal_internal_def intro!: keeps_intros)
  show "keeps P (vote_on_loan_proposal env who i b)" "keeps P (vote_batch env who votes)"
    by (auto simp: vote_on_loan_proposal_def vote_batch_def intro!: keeps_intros internal)
  show "keeps P (disburse_approved_loan env i)"
    using assms by (auto simp: disburse_approved_loan_def intro!: keeps_intros)
qed

end
