(* ===== verification/Members.thy ===== *)
theory Members
  imports Blocks
begin

text \<open>
  The member book over every run: the address list, the member records and the two counters
  always tell the same story, whatever calls are made, seeding included.
\<close>

section \<open>The book\<close>

definition active_in :: "(address \<rightharpoonup> member) \<Rightarrow> address set" where
  "active_in mm = {a. \<exists>m. mm a = Some m \<and> m_status m = ActiveMember}"

definition book_ok :: "address list \<Rightarrow> (address \<rightharpoonup> member) \<Rightarrow> u32 \<Rightarrow> u32 \<Rightarrow> bool" where
  "book_ok ms mm n act \<longleftrightarrow>
     distinct ms \<and> set ms = dom mm \<and> (\<forall>a m. mm a = Some m \<longrightarrow> m_address m = a) \<and>
     n = length ms \<and> act = card (active_in mm)"

definition members_ok :: "dao \<Rightarrow> bool" where
  "members_ok s \<longleftrightarrow>
     book_ok (get_members s) (kMember s) (get_total_members s) (get_active_members s) \<and>
     (kAdmins s = None \<longrightarrow> get_members s = [])"

lemma active_in_upd:
  "active_in (mm(a \<mapsto> m)) =
     (if m_status m = ActiveMember then insert a (active_in mm) else active_in mm - {a})"
  by (auto simp: active_in_def)

lemma finite_active: "set ms = dom mm \<Longrightarrow> finite (active_in mm)"
proof -
  assume "set ms = dom mm"
  then have "finite (dom mm)" using finite_set [of ms] by simp
  moreover have "active_in mm \<subseteq> dom mm" by (auto simp: active_in_def)
  ultimately show "finite (active_in mm)" by (rule finite_subset [rotated])
qed

lemma no_active: "{} = dom mm \<Longrightarrow> active_in mm = {}"
  by (auto simp: active_in_def)

lemma book_update:
  assumes "book_ok ms mm n act" and "mm a = Some m" and "m_address m' = a" and "m_status m' = m_status m"
  shows "book_ok ms (mm(a \<mapsto> m')) n act"
proof -
  have "active_in (mm(a \<mapsto> m')) = active_in mm"
    using assms by (auto simp: active_in_def)
  with assms show ?thesis by (auto simp: book_ok_def)
qed

lemma book_address: "book_ok ms mm n act \<Longrightarrow> mm a = Some m \<Longrightarrow> m_address m = a"
  by (simp add: book_ok_def)

lemma book_join:
  assumes "book_ok ms mm n act" and "mm a = None" and "m_address m = a" and "m_status m = ActiveMember"
  shows "book_ok (ms @ [a]) (mm(a \<mapsto> m)) (n + 1) (act + 1)"
proof -
  have "finite (active_in mm)" "a \<notin> active_in mm" "a \<notin> set ms"
    using assms finite_active [of ms mm] by (auto simp: book_ok_def active_in_def)
  with assms show ?thesis by (auto simp: book_ok_def active_in_upd)
qed

lemma book_rejoin:
  assumes "book_ok ms mm n act" and "mm a = Some m" and "m_status m \<noteq> ActiveMember"
    and "m_address m' = a" and "m_status m' = ActiveMember"
  shows "book_ok ms (mm(a \<mapsto> m')) n (act + 1)"
proof -
  have "finite (active_in mm)" "a \<notin> active_in mm"
    using assms finite_active [of ms mm] by (auto simp: book_ok_def active_in_def)
  with assms show ?thesis by (auto simp: book_ok_def active_in_upd)
qed

lemma book_leave:
  assumes "book_ok ms mm n act" and "mm a = Some m" and "m_status m = ActiveMember"
    and "m_address m' = a" and "m_status m' \<noteq> ActiveMember"
  shows "book_ok ms (mm(a \<mapsto> m')) n (act - 1)"
proof -
  have "finite (active_in mm)" "a \<in> active_in mm"
    using assms finite_active [of ms mm] by (auto simp: book_ok_def active_in_def)
  with assms show ?thesis by (auto simp: book_ok_def active_in_upd)
qed

lemma book_relieve: "book_ok ms mm n act \<Longrightarrow> book_ok ms (relieve who closed mm) n act"
  by (auto simp: relieve_def relieved_def book_address split: option.splits intro!: book_update)

section \<open>The operations\<close>

abbreviation (input) member_keys :: "field set" where
  "member_keys \<equiv> {FAdmins, FMembers, FMember, FTotalMembers, FActiveMembers}"

lemma members_ok_depends: "depends member_keys members_ok"
  by (rule dependsI) (simp add: members_ok_def accessor_defs)

lemma members_outside: "writes (- member_keys) m \<Longrightarrow> keeps members_ok m"
  by (rule keeps_frame [OF _ members_ok_depends]) auto

lemma approve_keeps_members: "keeps members_ok (approve_and_disburse env p)"
proof (rule keepsI)
  fix s u t assume ok: "members_ok s" "approve_and_disburse env p s = Ok u t"
  from ok_approve [OF ok(2)] obtain policy terms b l where "disburses env p policy terms b l s t" by blast
  with ok(1) show "members_ok t"
    by (auto simp: disburses_def Let_def members_ok_def accessor_defs indebted_def book_address
        intro!: book_update)
next
  fix s e t assume "members_ok s" "approve_and_disburse env p s = Err e t"
  then show "members_ok t" by (auto dest!: err_approve simp: members_ok_def accessor_defs)
qed

lemmas ballots_keep_members = keeps_ballot [of members_ok, OF approve_keeps_members
    members_outside members_outside members_outside]


lemma members_ok_transfer:
  assumes "members_ok s" and "agree (- {FAdmins, FMembers, FTotalMembers, FActiveMembers}) s t"
    and "book_ok (get_members s) (kMember t) (get_total_members s) (get_active_members s)"
  shows "members_ok t"
  using assms by (simp add: members_ok_def accessor_defs agree_def all_fields)

lemma repay_keeps_members:
  assumes "members_ok s" and "repay_loan_internal env who i amount s = Ok u t"
  shows "members_ok t"
proof -
  from ok_repay_internal [OF assms(2)] obtain closed where "kMember t = relieve who closed (kMember s)"
    by (auto simp: repays_def Let_def)
  moreover have "agree (- {FAdmins, FMembers, FTotalMembers, FActiveMembers}) s t"
    by (rule writes_Ok [where m = "repay_loan_internal env who i amount", OF _ assms(2)]) (auto intro!: writes_intros)
  ultimately show ?thesis
    using assms(1) members_ok_transfer [OF assms(1)] book_relieve by (metis members_ok_def)
qed

lemma default_keeps_members:
  assumes "members_ok s" and "mark_loan_defaulted env i s = Ok u t"
  shows "members_ok t"
proof -
  have ag: "agree (- {FAdmins, FMembers, FTotalMembers, FActiveMembers}) s t"
    by (rule writes_Ok [where m = "mark_loan_defaulted env i", OF _ assms(2)]) (auto intro!: writes_intros)
  from ok_mark_loan_defaulted [OF assms(2)] obtain policy who where "defaults policy who s t" by blast
  with assms(1) have "book_ok (get_members s) (kMember t) (get_total_members s) (get_active_members s)"
    by (cases "kMember s who")
      (auto simp: members_ok_def defaults_def slashed_def Let_def book_address intro!: book_update)
  then show ?thesis by (rule members_ok_transfer [OF assms(1) ag])
qed

lemma register_keeps_members:
  assumes "members_ok s" and "register_member env who s = Ok u t"
  shows "members_ok t"
proof -
  from ok_register_member [OF assms(2)] obtain fee where "joins env who fee s t" by blast
  with assms(1) show ?thesis
    by (cases "kMember s who")
      (auto simp: joins_def members_ok_def new_member_def intro: book_join [simplified] book_rejoin [simplified])
qed

lemma exit_keeps_members:
  assumes "members_ok s" and "exit_dao env who s = Ok u t"
  shows "members_ok t"
proof -
  from ok_exit_dao [OF assms(2)] obtain m where m: "leaves env who m s t" by blast
  then have "get_active_members t = get_active_members s - 1" by (auto simp: leaves_def)
  with m assms(1) show ?thesis
    by (auto simp: leaves_def members_ok_def departed_def book_address simp del: One_nat_def intro!: book_leave)
qed

section \<open>Seeding\<close>

text \<open>The book the loop of \<open>seed_members\<close> carries in its local variables.\<close>

definition seeding_ok :: "seed_acc \<Rightarrow> dao \<Rightarrow> bool" where
  "seeding_ok a s \<longleftrightarrow> book_ok (sa_member_list a) (kMember s) (sa_total a) (sa_active a)"

lemma seed_member_keeps:
  assumes "seeding_ok a s" and "seed_member m a s = Ok a' t"
  shows "seeding_ok a' t \<and> agree {FMember} s t"
proof -
  let ?who = "m_address m"
  have ag: "agree {FMember} s t"
    by (rule writes_Ok [where m = "seed_member m a", OF _ assms(2)])
      (auto simp: seed_member_def intro!: writes_intros)
  have bk: "book_ok (sa_member_list a) (kMember s) (sa_total a) (sa_active a)"
    using assms(1) by (simp add: seeding_ok_def)
  have t: "kMember t = (kMember s)(?who \<mapsto> m)"
    using assms(2) by (auto simp: seed_member_def ok_simps accessor_defs Let_def split: if_splits)
  show ?thesis
  proof (cases "kMember s ?who")
    case None
    have fin: "finite (active_in (kMember s))" "?who \<notin> active_in (kMember s)" "?who \<notin> set (sa_member_list a)"
      using bk None finite_active [of "sa_member_list a" "kMember s"] by (auto simp: book_ok_def active_in_def)
    from assms(2) None fin bk t ag show ?thesis
      by (auto simp: seed_member_def undo_member_def ok_simps accessor_defs Let_def seeding_ok_def
          book_ok_def active_in_upd split: if_splits)
  next
    case (Some prev)
    have fin: "finite (active_in (kMember s))" "?who \<in> active_in (kMember s) \<longleftrightarrow> m_status prev = ActiveMember"
      "length (sa_member_list a) > 0" "?who \<in> dom (kMember s)"
      using bk Some finite_active [of "sa_member_list a" "kMember s"] by (auto simp: book_ok_def active_in_def)
    have pos: "m_status prev = ActiveMember \<Longrightarrow> card (active_in (kMember s)) > 0"
      using fin by (auto simp: card_gt_0_iff)
    from assms(2) Some fin bk t ag pos show ?thesis
      by (auto simp: seed_member_def undo_member_def ok_simps accessor_defs Let_def seeding_ok_def
          u32_saturating_sub_def book_ok_def active_in_upd insert_absorb split: if_splits)
  qed
qed

lemma seed_members_fold:
  "seeding_ok a s \<Longrightarrow> fold_prog seed_member ms a s = Ok a' t \<Longrightarrow> seeding_ok a' t \<and> agree {FMember} s t"
proof (induction ms arbitrary: a s)
  case (Cons m ms)
  then obtain b u where "seed_member m a s = Ok b u" "fold_prog seed_member ms b u = Ok a' t"
    by (auto simp: ok_simps)
  with Cons seed_member_keeps show ?case by (meson agree_trans)
qed (auto simp: ok_simps)

lemma seed_members_keeps_members:
  assumes "members_ok s" and "seed_members env who ms s = Ok u t"
  shows "members_ok t"
proof -
  from assms(2) obtain a w where w:
    "fold_prog seed_member ms
       \<lparr>sa_member_list = get_members s, sa_total = get_total_members s,
        sa_active = get_active_members s, sa_contributions = get_active_contributions s\<rparr> s = Ok a w"
    "t = w\<lparr>kMembers := Some (sa_member_list a), kTotalMembers := Some (sa_total a),
           kActiveMembers := Some (sa_active a), kActiveContributions := Some (sa_contributions a)\<rparr>"
    and init: "kAdmins s \<noteq> None"
    by (auto simp: seed_members_def require_seeding_open_def ok_simps set_members_def set_total_members_def
        set_active_members_def set_active_contributions_def)
  have "seeding_ok a w \<and> agree {FMember} s w"
    by (rule seed_members_fold [OF _ w(1)]) (use assms(1) in \<open>simp add: seeding_ok_def members_ok_def\<close>)
  with w(2) init show ?thesis
    by (auto simp: members_ok_def seeding_ok_def accessor_defs agree_def all_fields)
qed

section \<open>Every run\<close>

interpretation members: invariant members_ok member_keys any_call
proof unfold_locales
  show "depends member_keys members_ok" by (rule members_ok_depends)
  show "FLedger \<notin> member_keys" by simp
  show "members_ok (fresh_dao l)" for l
    by (simp add: members_ok_def book_ok_def accessor_defs active_in_def)
  have ballots: "keeps members_ok (vote_on_loan_proposal env who i b)"
    "keeps members_ok (vote_batch env who votes)" "keeps members_ok (disburse_approved_loan env i)"
    for env who i b votes
    by (intro keeps_ballot approve_keeps_members members_outside writes_intros; simp)+
  fix c env s r t
  assume c: "footprint c \<inter> member_keys \<noteq> {}" "dispatch env c s = Ok r t" "members_ok s"
  have admins: "members_ok (u\<lparr>kAdmins := Some as, events := evs\<rparr>)" if "members_ok u" for u as evs
    using that by (simp add: members_ok_def accessor_defs)
  from c show "members_ok t"
  proof (cases c)
    case (Initialize as th fee tok pol)
    with c show ?thesis
      by (auto simp: ok_simps initialize_def accessor_defs members_ok_def book_ok_def is_initialized_def no_active)
  next
    case (AddAdmin who a)
    with c show ?thesis by (auto simp: ok_simps add_admin_def set_admins_def intro!: admins)
  next
    case (RemoveAdmin who a)
    with c show ?thesis by (auto simp: ok_simps remove_admin_def set_admins_def intro!: admins)
  qed (auto simp: ok_simps repay_loan_def repay_loan_partial_def repay_loan_in_asset_def
        dest: register_keeps_members exit_keeps_members repay_keeps_members default_keeps_members
          seed_members_keeps_members keepsD_Ok [OF ballots(1)] keepsD_Ok [OF ballots(2)]
          keepsD_Ok [OF ballots(3)])
qed

section \<open>Properties\<close>

text \<open>
  C3: the member book is consistent: the member list has no duplicates and names exactly the stored
  records, the total counts it, and the active counter counts its active members.
\<close>

theorem member_book:
  assumes "reachable any_call s"
  shows "distinct (get_members s) \<and>
         get_total_members s = length (get_members s) \<and>
         (\<forall>a. a \<in> set (get_members s) \<longleftrightarrow> kMember s a \<noteq> None) \<and>
         (\<forall>a m. kMember s a = Some m \<longrightarrow> m_address m = a) \<and>
         get_active_members s =
           length (filter (\<lambda>a. map_option m_status (kMember s a) = Some ActiveMember) (get_members s))"
proof -
  have b: "book_ok (get_members s) (kMember s) (get_total_members s) (get_active_members s)"
    using members.reachable_holds [OF assms] by (simp add: members_ok_def)
  let ?act = "filter (\<lambda>a. map_option m_status (kMember s a) = Some ActiveMember) (get_members s)"
  have "set ?act = active_in (kMember s)" "distinct ?act"
    using b by (auto simp: book_ok_def active_in_def dom_def)
  then have "length ?act = card (active_in (kMember s))" by (metis distinct_card)
  with b show ?thesis by (auto simp: book_ok_def)
qed

theorem member_book_witness:
  "get_total_members lent = 3 \<and> distinct (get_members lent)"
  using member_book [OF reachable_lent [OF reachable_peopled]]
  by (simp add: get_members_def lent_eq backed_eq asked_eq peopled_eq)

end
