(* ===== verification/Funds.thy ===== *)
theory Funds
  imports Members
begin

text \<open>
  The money the contract owes: the stake ledger, the active contributions behind the exit
  shares, the pro-rata split of the treasury, and the distribution of interest as yield.
\<close>

section \<open>Totals of a map\<close>

definition total_of :: "('k \<rightharpoonup> int) \<Rightarrow> int" where
  "total_of m = (\<Sum>a \<in> dom m. the (m a))"

lemma total_of_upd:
  assumes "finite (dom m)"
  shows "total_of (m(a \<mapsto> v)) = total_of m - unwrap_or (m a) 0 + v"
proof -
  have rest: "(\<Sum>x \<in> dom m - {a}. the ((m(a \<mapsto> v)) x)) = (\<Sum>x \<in> dom m - {a}. the (m x))"
    by (rule sum.cong) auto
  have "total_of (m(a \<mapsto> v)) = v + (\<Sum>x \<in> dom m - {a}. the (m x))"
    using assms rest by (simp add: total_of_def sum.insert_remove)
  moreover have "total_of m = unwrap_or (m a) 0 + (\<Sum>x \<in> dom m - {a}. the (m x))"
  proof (cases "a \<in> dom m")
    case True
    then show ?thesis using assms by (auto simp: total_of_def sum.remove)
  next
    case False
    then have "m a = None" by auto
    with False show ?thesis by (simp add: total_of_def)
  qed
  ultimately show ?thesis by simp
qed

lemma total_of_nonneg: "(\<And>a v. m a = Some v \<Longrightarrow> 0 \<le> v) \<Longrightarrow> 0 \<le> total_of m"
  unfolding total_of_def by (rule sum_nonneg) auto

lemma total_of_member:
  assumes "finite (dom m)" and "\<And>a v. m a = Some v \<Longrightarrow> 0 \<le> v"
  shows "unwrap_or (m a) 0 \<le> total_of m"
proof (cases "m a")
  case None
  with assms show ?thesis by (simp add: total_of_nonneg)
next
  case (Some v)
  then have "the (m a) \<le> total_of m" unfolding total_of_def
    using assms by (intro member_le_sum) auto
  with Some show ?thesis by simp
qed

section \<open>The stake ledger\<close>

text \<open>Seeding may only bring in what staking could have produced.\<close>

definition sane_stakes :: "call \<Rightarrow> bool" where
  "sane_stakes c \<longleftrightarrow>
     (case c of SeedStakes _ es \<Rightarrow> \<forall>e \<in> set es. 0 \<le> sse_amount e \<and> in_i128 (sse_amount e) | _ \<Rightarrow> True)"

definition stake_book :: "(address \<rightharpoonup> i128) \<Rightarrow> i128 \<Rightarrow> bool" where
  "stake_book st tot \<longleftrightarrow>
     finite (dom st) \<and> (\<forall>a v. st a = Some v \<longrightarrow> 0 \<le> v) \<and> tot = total_of st \<and> in_i128 tot"

definition stakes_ok :: "dao \<Rightarrow> bool" where
  "stakes_ok s \<longleftrightarrow> stake_book (kStake s) (get_total_staked s)"

lemma stake_book_set:
  assumes "stake_book st tot" and "0 \<le> v" and "in_i128 (tot - unwrap_or (st a) 0 + v)"
  shows "stake_book (st(a \<mapsto> v)) (tot - unwrap_or (st a) 0 + v)"
  using assms by (auto simp: stake_book_def total_of_upd)

lemma stake_book_le: "stake_book st tot \<Longrightarrow> 0 \<le> unwrap_or (st a) 0 \<and> unwrap_or (st a) 0 \<le> tot"
  using total_of_member [of st a] by (auto simp: stake_book_def unwrap_or_def split: option.splits)

lemma stake_book_zero:
  assumes "stake_book st tot"
  shows "stake_book (zero_stake a (unwrap_or (st a) 0) st)
           (unwrap_or (less_staked (unwrap_or (st a) 0) (Some tot)) 0)"
proof -
  have "in_i128 (tot - unwrap_or (st a) 0 + 0)"
    using stake_book_le [OF assms, of a] assms by (auto simp: stake_book_def int_bounds)
  with stake_book_set [OF assms, of 0 a] assms show ?thesis
    by (simp add: zero_stake_def less_staked_def)
qed

lemma seed_stakes_fold:
  "stake_book (kStake s) tot \<Longrightarrow> \<forall>e \<in> set es. 0 \<le> sse_amount e \<Longrightarrow>
   fold_prog seed_stake es tot s = Ok tot' t \<Longrightarrow> stake_book (kStake t) tot'"
proof (induction es arbitrary: tot s)
  case (Cons e es)
  let ?prev = "get_stake (sse_address e) s"
  from Cons.prems(3) obtain tot1 s1 where
    s1: "seed_stake e tot s = Ok tot1 s1" "fold_prog seed_stake es tot1 s1 = Ok tot' t"
    by (auto simp: ok_simps)
  have le: "0 \<le> ?prev" "?prev \<le> tot" using stake_book_le [OF Cons.prems(1)] by (auto simp: get_stake_def)
  have "i128_saturating_sub tot ?prev = tot - ?prev"
    using le Cons.prems(1) by (auto simp: i128_saturating_sub_def stake_book_def int_bounds)
  then have "tot1 = tot - ?prev + sse_amount e" "in_i128 (tot - ?prev + sse_amount e)"
    "kStake s1 = (kStake s)(sse_address e \<mapsto> sse_amount e)"
    using s1(1) Cons.prems(2) by (auto simp: seed_stake_def ok_simps set_stake_def)
  then have "stake_book (kStake s1) tot1"
    using stake_book_set [OF Cons.prems(1), of "sse_amount e" "sse_address e"] Cons.prems(2)
    by (simp add: get_stake_def)
  with Cons s1(2) show ?case by simp
qed (auto simp: ok_simps)

interpretation stakes: invariant stakes_ok "{FStake, FTotalStaked}" sane_stakes
proof unfold_locales
  show "depends {FStake, FTotalStaked} stakes_ok" by (rule dependsI) (simp add: stakes_ok_def accessor_defs)
  show "FLedger \<notin> {FStake, FTotalStaked}" by simp
  show "stakes_ok (fresh_dao l)" for l
    by (simp add: stakes_ok_def stake_book_def accessor_defs total_of_def int_bounds)
  fix c env s r t
  assume c: "sane_stakes c" "footprint c \<inter> {FStake, FTotalStaked} \<noteq> {}"
    "dispatch env c s = Ok r t" "stakes_ok s"
  have bk: "stake_book (kStake s) (unwrap_or (kTotalStaked s) 0)"
    using c(4) by (simp add: stakes_ok_def accessor_defs)
  from c show "stakes_ok t"
  proof (cases c)
    case (ExitDao who)
    with c obtain m where m: "leaves env who m s t" by (auto simp: ok_simps dest: ok_exit_dao)
    have "unwrap_or (less_staked x (Some (unwrap_or v 0))) 0 = unwrap_or (less_staked x v) 0" for x v
      by (simp add: less_staked_def)
    with m stake_book_zero [OF bk, of who] show ?thesis
      by (simp add: leaves_def stakes_ok_def accessor_defs)
  next
    case (Stake who amount)
    with c bk stake_book_set [OF bk, of "unwrap_or (kStake s who) 0 + amount" who]
      stake_book_le [OF bk, of who]
    show ?thesis by (auto simp: ok_simps stake_def accessor_defs stakes_ok_def)
  next
    case (Unstake who amount)
    with c bk stake_book_set [OF bk, of "unwrap_or (kStake s who) 0 - amount" who]
      stake_book_le [OF bk, of who]
    show ?thesis by (auto simp: ok_simps unstake_def accessor_defs stakes_ok_def reject_if_any_def)
  next
    case (SeedStakes who es)
    with c bk seed_stakes_fold [of s "get_total_staked s" es] show ?thesis
      by (auto simp: ok_simps seed_stakes_def require_seeding_open_def set_total_staked_def stakes_ok_def
          sane_stakes_def get_total_staked_def)
  qed auto
qed

section \<open>The active contributions\<close>

definition act_contribution :: "member \<Rightarrow> i128" where
  "act_contribution m = (if m_status m = ActiveMember then m_contribution m else 0)"

definition contributions :: "(address \<rightharpoonup> member) \<Rightarrow> address \<rightharpoonup> i128" where
  "contributions mm = map_option act_contribution \<circ> mm"

definition contributed :: "(address \<rightharpoonup> member) \<Rightarrow> i128" where
  "contributed mm = total_of (contributions mm)"

lemma dom_contributions [simp]: "dom (contributions mm) = dom mm"
  by (auto simp: contributions_def)

lemma contributed_upd:
  "finite (dom mm) \<Longrightarrow>
   contributed (mm(a \<mapsto> m)) =
     contributed mm - (case mm a of None \<Rightarrow> 0 | Some x \<Rightarrow> act_contribution x) + act_contribution m"
proof -
  assume "finite (dom mm)"
  moreover have "contributions (mm(a \<mapsto> m)) = (contributions mm)(a \<mapsto> act_contribution m)"
    by (auto simp: contributions_def)
  moreover have "unwrap_or (contributions mm a) 0 = (case mm a of None \<Rightarrow> 0 | Some x \<Rightarrow> act_contribution x)"
    by (auto simp: contributions_def split: option.splits)
  ultimately show ?thesis by (simp add: contributed_def total_of_upd)
qed

lemma contributed_same:
  "finite (dom mm) \<Longrightarrow> mm a = Some x \<Longrightarrow> act_contribution m = act_contribution x \<Longrightarrow>
   contributed (mm(a \<mapsto> m)) = contributed mm"
  by (simp add: contributed_upd)

definition contrib_book :: "(address \<rightharpoonup> member) \<Rightarrow> i128 \<Rightarrow> bool" where
  "contrib_book mm c \<longleftrightarrow>
     finite (dom mm) \<and> (\<forall>a m. mm a = Some m \<longrightarrow> m_address m = a \<and> 0 \<le> m_contribution m) \<and>
     c = contributed mm \<and> in_i128 c"

definition contributions_ok :: "dao \<Rightarrow> bool" where
  "contributions_ok s \<longleftrightarrow>
     contrib_book (kMember s) (get_active_contributions s) \<and>
     (\<forall>fee. kMembershipFee s = Some fee \<longrightarrow> 0 < fee)"

lemma contrib_book_le:
  assumes "contrib_book mm c" and "mm a = Some m"
  shows "0 \<le> act_contribution m \<and> act_contribution m \<le> c"
proof -
  have "unwrap_or (contributions mm a) 0 \<le> total_of (contributions mm)"
    using assms(1) by (intro total_of_member)
      (auto simp: contrib_book_def, auto simp: contributions_def act_contribution_def)
  with assms show ?thesis
    by (auto simp: contrib_book_def contributed_def contributions_def act_contribution_def)
qed

lemma contrib_book_nonneg: "contrib_book mm c \<Longrightarrow> 0 \<le> c"
  by (auto simp: contrib_book_def contributed_def contributions_def act_contribution_def
      intro!: total_of_nonneg)

lemma contrib_book_same:
  assumes "contrib_book mm c" and "mm a = Some x" and "m_address m = a"
    and "m_status m = m_status x" and "m_contribution m = m_contribution x"
  shows "contrib_book (mm(a \<mapsto> m)) c"
proof -
  have "act_contribution m = act_contribution x" using assms(4,5) by (simp add: act_contribution_def)
  with assms contributed_same [of mm a x m] show ?thesis by (auto simp: contrib_book_def)
qed

lemma contrib_book_relieve: "contrib_book mm c \<Longrightarrow> contrib_book (relieve who closed mm) c"
  by (auto simp: relieve_def relieved_def contrib_book_def split: option.splits
      intro!: contributed_same [symmetric] simp: act_contribution_def)

abbreviation (input) contribution_keys :: "field set" where
  "contribution_keys \<equiv> {FMember, FActiveContributions, FMembershipFee}"

lemma contributions_ok_depends: "depends contribution_keys contributions_ok"
  by (rule dependsI) (simp add: contributions_ok_def accessor_defs)

lemma contributions_outside: "writes (- contribution_keys) m \<Longrightarrow> keeps contributions_ok m"
  by (rule keeps_frame [OF _ contributions_ok_depends]) auto

lemma approve_keeps_contributions: "keeps contributions_ok (approve_and_disburse env p)"
proof (rule keepsI)
  fix s u t assume ok: "contributions_ok s" "approve_and_disburse env p s = Ok u t"
  from ok_approve [OF ok(2)] obtain policy terms b l where "disburses env p policy terms b l s t" by blast
  moreover from this ok(1) have "m_address b = p_borrower p"
    by (auto simp: disburses_def Let_def contributions_ok_def contrib_book_def)
  ultimately show "contributions_ok t" using ok(1)
    by (auto simp: disburses_def Let_def contributions_ok_def accessor_defs indebted_def
        intro!: contrib_book_same)
next
  fix s e t assume "contributions_ok s" "approve_and_disburse env p s = Err e t"
  then show "contributions_ok t" by (auto dest!: err_approve simp: contributions_ok_def accessor_defs)
qed

lemma contributions_ok_transfer:
  assumes "contributions_ok s" and "agree (- {FActiveContributions, FMembershipFee}) s t"
    and "contrib_book (kMember t) (get_active_contributions s)"
  shows "contributions_ok t"
  using assms by (simp add: contributions_ok_def accessor_defs agree_def all_fields)

lemma repay_keeps_contributions:
  assumes "contributions_ok s" and "repay_loan_internal env who i amount s = Ok u t"
  shows "contributions_ok t"
proof -
  from ok_repay_internal [OF assms(2)] obtain closed where "kMember t = relieve who closed (kMember s)"
    by (auto simp: repays_def Let_def)
  moreover have "agree (- {FActiveContributions, FMembershipFee}) s t"
    by (rule writes_Ok [where m = "repay_loan_internal env who i amount", OF _ assms(2)]) (auto intro!: writes_intros)
  ultimately show ?thesis
    using assms(1) contributions_ok_transfer [OF assms(1)] contrib_book_relieve by (metis contributions_ok_def)
qed

lemma join_keeps_contributions:
  assumes "contributions_ok s" and "joins env who fee s t" and "kMembershipFee t = kMembershipFee s"
  shows "contributions_ok t"
proof -
  let ?m = "new_member env who fee (kMember s who)"
  have "act_contribution ?m = fee" by (simp add: act_contribution_def new_member_def)
  moreover have "(case kMember s who of None \<Rightarrow> 0 | Some x \<Rightarrow> act_contribution x) = 0"
    using assms(2) by (auto simp: joins_def act_contribution_def split: option.splits)
  ultimately have "contributed ((kMember s)(who \<mapsto> ?m)) = contributed (kMember s) + fee"
    using assms(1) by (simp add: contributions_ok_def contrib_book_def contributed_upd)
  with assms show ?thesis
    by (auto simp: joins_def contributions_ok_def contrib_book_def new_member_def)
qed

lemma leave_keeps_contributions:
  assumes "contributions_ok s" and "leaves env who m s t" and "kMembershipFee t = kMembershipFee s"
  shows "contributions_ok t"
proof -
  have m: "kMember s who = Some m" "m_status m = ActiveMember" "m_address m = who"
    using assms by (auto simp: leaves_def contributions_ok_def contrib_book_def)
  have "contributed ((kMember s)(who \<mapsto> departed m)) = contributed (kMember s) - m_contribution m"
    using assms(1) m by (simp add: contributions_ok_def contrib_book_def contributed_upd act_contribution_def departed_def)
  moreover have "in_i128 (get_active_contributions s - m_contribution m)"
    using contrib_book_le [of "kMember s" "get_active_contributions s" who m] assms(1) m
    by (simp add: contributions_ok_def contrib_book_def act_contribution_def int_bounds) (use m(1) in force)
  ultimately show ?thesis using assms m
    by (auto simp: leaves_def contributions_ok_def contrib_book_def departed_def)
qed

text \<open>Seeded members bring in what registering could have produced.\<close>

definition sane_contributions :: "call \<Rightarrow> bool" where
  "sane_contributions c \<longleftrightarrow>
     (case c of SeedMembers _ ms \<Rightarrow> \<forall>m \<in> set ms. 0 \<le> m_contribution m
      | MarkLoanDefaulted _ \<Rightarrow> False | _ \<Rightarrow> True)"

lemma seed_member_contributions:
  assumes "contrib_book (kMember s) (sa_contributions a)" and "0 \<le> m_contribution m"
    and "seed_member m a s = Ok a' t"
  shows "contrib_book (kMember t) (sa_contributions a')"
proof -
  let ?who = "m_address m"
  define prev where "prev = (case kMember s ?who of None \<Rightarrow> 0 | Some x \<Rightarrow> act_contribution x)"
  have prev: "0 \<le> prev" "prev \<le> sa_contributions a"
    using contrib_book_le [OF assms(1), of ?who] contrib_book_nonneg [OF assms(1)]
    by (auto simp: prev_def split: option.splits)
  have sat: "i128_saturating_sub (sa_contributions a) x = sa_contributions a - x"
    if "0 \<le> x" "x \<le> sa_contributions a" for x
    using that assms(1) by (auto simp: i128_saturating_sub_def contrib_book_def int_bounds)
  have t: "kMember t = (kMember s)(?who \<mapsto> m)"
    using assms(3) by (auto simp: seed_member_def ok_simps accessor_defs Let_def split: if_splits)
  have undo: "sa_contributions (undo_member ?who (kMember s ?who) a) = sa_contributions a - prev"
  proof (cases "kMember s ?who")
    case (Some x)
    with assms(1) have "0 \<le> m_contribution x" by (auto simp: contrib_book_def)
    with Some prev sat show ?thesis
      by (auto simp: undo_member_def prev_def act_contribution_def Let_def max_def)
  qed (simp add: undo_member_def prev_def)
  have "sa_contributions a' = sa_contributions a - prev + act_contribution m \<and> in_i128 (sa_contributions a')"
  proof -
    have "in_i128 (sa_contributions a - prev)"
      using prev assms(1) by (simp add: contrib_book_def int_bounds)
    with assms(2,3) undo show ?thesis
      by (auto simp: seed_member_def ok_simps get_member_def set_member_def Let_def act_contribution_def
          max_def split: if_splits)
  qed
  with t assms(1,2) show ?thesis
    by (auto simp: contrib_book_def contributed_upd prev_def)
qed

lemma seed_members_contributions:
  "contrib_book (kMember s) (sa_contributions a) \<Longrightarrow> \<forall>m \<in> set ms. 0 \<le> m_contribution m \<Longrightarrow>
   fold_prog seed_member ms a s = Ok a' t \<Longrightarrow> contrib_book (kMember t) (sa_contributions a')"
proof (induction ms arbitrary: a s)
  case (Cons m ms)
  then show ?case using seed_member_contributions [of s a m] by (auto simp: ok_simps)
qed (auto simp: ok_simps)

interpretation contributions: invariant contributions_ok contribution_keys sane_contributions
proof unfold_locales
  show "depends contribution_keys contributions_ok" by (rule contributions_ok_depends)
  show "FLedger \<notin> contribution_keys" by simp
  show "contributions_ok (fresh_dao l)" for l
    by (simp add: contributions_ok_def contrib_book_def contributed_def contributions_def total_of_def
        accessor_defs int_bounds)
  have ballots: "keeps contributions_ok (vote_on_loan_proposal env who i b)"
    "keeps contributions_ok (vote_batch env who votes)" "keeps contributions_ok (disburse_approved_loan env i)"
    for env who i b votes
    by (intro keeps_ballot approve_keeps_contributions contributions_outside writes_intros; simp)+
  fix c env s r t
  assume c: "sane_contributions c" "footprint c \<inter> contribution_keys \<noteq> {}"
    "dispatch env c s = Ok r t" "contributions_ok s"
  have fee: "kMembershipFee t = kMembershipFee s" if "FMembershipFee \<notin> footprint c"
    using writes_Ok [OF writes_dispatch c(3)] that by (auto simp: agree_def all_fields)
  from c show "contributions_ok t"
  proof (cases c)
    case (RegisterMember who)
    with c fee show ?thesis
      by (auto simp: ok_simps dest!: ok_register_member intro: join_keeps_contributions)
  next
    case (ExitDao who)
    with c fee show ?thesis
      by (auto simp: ok_simps dest!: ok_exit_dao intro: leave_keeps_contributions)
  next
    case (SeedMembers who ms)
    with c seed_members_contributions [of s "\<lparr>sa_member_list = get_members s, sa_total = get_total_members s,
        sa_active = get_active_members s, sa_contributions = get_active_contributions s\<rparr>" ms]
    show ?thesis
      by (auto simp: ok_simps seed_members_def require_seeding_open_def set_members_def
          set_total_members_def set_active_members_def set_active_contributions_def
          contributions_ok_def sane_contributions_def get_active_contributions_def)
        (use c fee SeedMembers in \<open>auto simp: contributions_ok_def\<close>)
  next
    case (Initialize as th fee tok pol)
    with c show ?thesis by (auto simp: ok_simps initialize_def accessor_defs contributions_ok_def)
  qed (auto simp: ok_simps repay_loan_def repay_loan_partial_def repay_loan_in_asset_def
        sane_contributions_def
        dest: repay_keeps_contributions keepsD_Ok [OF ballots(1)] keepsD_Ok [OF ballots(2)]
          keepsD_Ok [OF ballots(3)])
qed

section \<open>Defaults of members\<close>

text \<open>
  A default keeps the counter in step when the borrower is still an active member. Runs in which
  every default is of that kind, and no negative contribution is seeded, are called prudent.
\<close>

definition strikes_members :: "call \<Rightarrow> dao \<Rightarrow> bool" where
  "strikes_members c s \<longleftrightarrow>
     (case c of
        SeedMembers _ ms \<Rightarrow> \<forall>m \<in> set ms. 0 \<le> m_contribution m
      | MarkLoanDefaulted i \<Rightarrow> (case kLoan s i of None \<Rightarrow> True | Some l \<Rightarrow> is_member (l_borrower l) s)
      | _ \<Rightarrow> True)"

inductive prudent :: "dao \<Rightarrow> bool" where
  start: "prudent (fresh_dao l)"
| proceed: "prudent s \<Longrightarrow> strikes_members c s \<Longrightarrow> prudent (snd (invoke env c s))"
| elsewhere: "prudent s \<Longrightarrow> prudent (s\<lparr>ledger := l\<rparr>)"

lemma prudent_any: "prudent s \<Longrightarrow> reachable any_call s"
  by (induction rule: prudent.induct) (auto intro: reachable.intros)

lemma prudent_sane: "reachable sane_contributions s \<Longrightarrow> prudent s"
proof (induction rule: reachable.induct)
  case (call s c env)
  moreover have "strikes_members c s" using call.hyps(2)
    by (simp add: sane_contributions_def strikes_members_def split: call.splits)
  ultimately show ?case by (intro prudent.proceed)
qed (auto intro: prudent.intros)

lemma default_slash_bounds: "0 \<le> m_contribution m \<Longrightarrow> 0 \<le> default_slash policy m \<and> default_slash policy m \<le> m_contribution m"
proof -
  define c where "c = m_contribution m"
  assume "0 \<le> m_contribution m"
  moreover have "0 \<le> unwrap_or (ceil_bps c b) c" if "0 < c" "0 < b" for b
  proof -
    have "0 \<le> c * b + 9999" using that by simp
    then show ?thesis using that
      by (auto simp: ceil_bps_def unwrap_or_def checked_mul_def checked_add_def checked_div_def
          checked_i128_def sdiv_nonneg pos_imp_zdiv_nonneg_iff split: Option.bind_splits)
  qed
  ultimately show ?thesis unfolding default_slash_def c_def [symmetric] by auto
qed

lemma default_keeps_contributions:
  assumes "contributions_ok s" and "defaults policy who s t" and "is_member who s"
    and "kMembershipFee t = kMembershipFee s"
  shows "contributions_ok t"
proof -
  let ?c = "get_active_contributions s"
  have b: "contrib_book (kMember s) ?c" using assms(1) by (simp add: contributions_ok_def)
  obtain m where m: "kMember s who = Some m" "m_status m = ActiveMember"
    using assms(3) by (auto simp: is_member_def get_member_def split: option.splits)
  with b have who: "m_address m = who" "0 \<le> m_contribution m" "act_contribution m = m_contribution m"
    by (auto simp: contrib_book_def act_contribution_def)
  define x where "x = default_slash policy m"
  have x: "0 \<le> x" "x \<le> m_contribution m" using default_slash_bounds [OF who(2)] by (simp_all add: x_def)
  have t: "kMember t = (kMember s)(who \<mapsto> slashed x m)" "get_active_contributions t = ?c - x"
    using assms(2) m(1) who(1) x(1) by (auto simp: defaults_def Let_def slash_of_def x_def)
  have act: "act_contribution (slashed x m) = m_contribution m - x" using m(2) by (simp add: act_contribution_def slashed_def)
  have "?c - x = contributed ((kMember s)(who \<mapsto> slashed x m))"
    using b m(1) who(3) act by (simp add: contrib_book_def contributed_upd)
  moreover have "in_i128 (?c - x)"
    using contrib_book_le [OF b m(1)] b x who(3) by (simp add: contrib_book_def int_bounds)
  ultimately have "contrib_book (kMember t) (?c - x)"
    using b t(1) x(2) who(1) by (auto simp: contrib_book_def slashed_def)
  with assms(1,4) t(2) show ?thesis by (simp add: contributions_ok_def)
qed

lemma prudent_holds: "prudent s \<Longrightarrow> contributions_ok s"
proof (induction rule: prudent.induct)
  case (start l)
  show ?case by (rule contributions.fresh)
next
  case (elsewhere s l)
  then show ?case by (intro contributions.outside_keeps)
next
  case (proceed s c env)
  show ?case
  proof (cases "\<exists>i. c = MarkLoanDefaulted i")
    case False
    with proceed.hyps(2) have "sane_contributions c"
      by (auto simp: sane_contributions_def strikes_members_def split: call.splits)
    then show ?thesis using proceed.IH by (rule contributions.invoke_keeps)
  next
    case True
    then obtain i where i: "c = MarkLoanDefaulted i" ..
    show ?thesis
    proof (cases rule: invoke_cases [of env c s])
      case (returned r t)
      have fee: "kMembershipFee t = kMembershipFee s"
        using agreeD [OF writes_Ok [OF writes_dispatch returned(1)], of FMembershipFee] i by simp
      from returned(1) i obtain l policy where "kLoan s i = Some l" "defaults policy (l_borrower l) s t"
        by (auto simp: ok_simps dest!: ok_mark_loan_defaulted)
      with proceed i fee returned(2) default_keeps_contributions [of s policy "l_borrower l" t] show ?thesis
        by (simp add: strikes_members_def)
    qed (use proceed.IH in auto)
  qed
qed

section \<open>The pro-rata split\<close>

lemma share_floor:
  assumes "0 < total_c" and "0 \<le> treasury" and "0 \<le> c"
  shows "share_from_contributions treasury c total_c * total_c \<le> treasury * c"
    and "0 \<le> share_from_contributions treasury c total_c"
proof -
  let ?q = "treasury * c div total_c"
  have q: "0 \<le> ?q" "?q * total_c \<le> treasury * c"
    using assms by (simp_all add: pos_imp_zdiv_nonneg_iff times_div_less_eq_dividend minus_mod_eq_div_mult [symmetric])
  have "treasury * c sdiv total_c = ?q" using assms by (simp add: sdiv_nonneg)
  then have "share_from_contributions treasury c total_c \<in> {0, ?q}"
    by (auto simp: share_from_contributions_def checked_mul_def checked_div_def checked_i128_def)
  with q assms show "share_from_contributions treasury c total_c * total_c \<le> treasury * c"
    "0 \<le> share_from_contributions treasury c total_c" by auto
qed

lemma sum_shares_le:
  assumes "finite A" and "\<And>a. a \<in> A \<Longrightarrow> 0 \<le> c a" and "(\<Sum>a \<in> A. c a) \<le> total_c" and "0 \<le> treasury"
  shows "(\<Sum>a \<in> A. share_from_contributions treasury (c a) total_c) \<le> treasury"
proof (cases "0 < total_c")
  case True
  have "(\<Sum>a \<in> A. share_from_contributions treasury (c a) total_c) * total_c
          = (\<Sum>a \<in> A. share_from_contributions treasury (c a) total_c * total_c)"
    by (rule sum_distrib_right)
  also have "\<dots> \<le> (\<Sum>a \<in> A. treasury * c a)"
    using True assms by (intro sum_mono share_floor) auto
  also have "\<dots> = treasury * (\<Sum>a \<in> A. c a)" by (rule sum_distrib_left [symmetric])
  also have "\<dots> \<le> treasury * total_c" using assms by (intro mult_left_mono) auto
  finally show ?thesis using True by (simp add: mult_le_cancel_right)
next
  case False
  then show ?thesis using assms(4) by (simp add: share_from_contributions_def)
qed

section \<open>Yield\<close>

text \<open>
  Nobody's snapshot is ahead of the accumulator, so unclaimed yield is the plain difference, and
  the carried remainder is never negative.
\<close>

definition yields_ok :: "dao \<Rightarrow> bool" where
  "yields_ok s \<longleftrightarrow>
     0 \<le> get_yield_remainder s \<and> 0 \<le> get_yield_accumulator s \<and>
     (\<forall>a. get_yield_snapshot a s \<le> get_yield_accumulator s)"

abbreviation (input) yield_keys :: "field set" where
  "yield_keys \<equiv> {FYieldAccumulator, FYieldRemainder, FMemberYieldSnapshot}"

lemma yields_ok_snapshot:
  "yields_ok s \<Longrightarrow> kMemberYieldSnapshot t = (kMemberYieldSnapshot s)(who \<mapsto> get_yield_accumulator s) \<Longrightarrow>
   get_yield_accumulator t = get_yield_accumulator s \<Longrightarrow> get_yield_remainder t = get_yield_remainder s \<Longrightarrow>
   yields_ok t"
  by (auto simp: yields_ok_def accessor_defs)

lemma yield_split_grows:
  assumes "yields_ok s" and "(acc, rem) = yield_split interest s"
  shows "get_yield_accumulator s \<le> acc \<and> 0 \<le> rem"
proof -
  have "0 \<le> (interest + get_yield_remainder s) smod int (get_active_members s)"
    if "0 < interest" "0 < get_active_members s"
    using that assms(1) by (simp add: yields_ok_def smod_nonneg)
  with assms show ?thesis
    by (auto simp: yield_split_def yields_ok_def Let_def split: if_splits)
qed

lemma yields_ok_split:
  assumes "yields_ok s" and "(get_yield_accumulator t, get_yield_remainder t) = yield_split interest s"
    and "kMemberYieldSnapshot t = kMemberYieldSnapshot s"
  shows "yields_ok t"
  using yield_split_grows [OF assms(1,2)] assms(1,3)
  by (auto simp: yields_ok_def get_yield_snapshot_def intro: order_trans)

lemma repay_keeps_yields:
  assumes "yields_ok s" and "repay_loan_internal env who i amount s = Ok u t"
  shows "yields_ok t"
proof -
  have snap: "kMemberYieldSnapshot t = kMemberYieldSnapshot s"
    using writes_Ok [where m = "repay_loan_internal env who i amount"
        and F = "{FMember, FLoan, FYieldAccumulator, FYieldRemainder, FLedger, FEvents}", OF _ assms(2)]
    by (simp add: writes_intros agree_def all_fields)
  from ok_repay_internal [OF assms(2)] obtain l paid where "repays env who i amount l paid s t" by blast
  then consider "(get_yield_accumulator t, get_yield_remainder t)
                   = yield_split (interest_part (settled env s l) paid) s"
    | "get_yield_accumulator t = get_yield_accumulator s" "get_yield_remainder t = get_yield_remainder s"
    by (auto simp: repays_def Let_def split: if_splits)
  then show ?thesis
    using yields_ok_split [OF assms(1)] snap assms(1)
    by cases (auto simp: yields_ok_def get_yield_snapshot_def)
qed

lemma seed_yield_snapshot:
  "yields_ok s \<Longrightarrow> yields_ok (s\<lparr>kMemberYieldSnapshot := (kMemberYieldSnapshot s)(a \<mapsto> - max n 0)\<rparr>)"
  by (auto simp: yields_ok_def accessor_defs intro: order_trans [of _ 0])

interpretation yields: invariant yields_ok yield_keys any_call
proof unfold_locales
  show "depends yield_keys yields_ok" by (rule dependsI) (simp add: yields_ok_def accessor_defs)
  show "FLedger \<notin> yield_keys" by simp
  show "yields_ok (fresh_dao l)" for l by (simp add: yields_ok_def accessor_defs)
  fix c env s r t
  assume c: "footprint c \<inter> yield_keys \<noteq> {}" "dispatch env c s = Ok r t" "yields_ok s"
  have keep: "FYieldAccumulator \<notin> footprint c \<Longrightarrow> get_yield_accumulator t = get_yield_accumulator s"
    "FYieldRemainder \<notin> footprint c \<Longrightarrow> get_yield_remainder t = get_yield_remainder s"
    using writes_Ok [OF writes_dispatch c(2)] by (auto simp: agree_def all_fields accessor_defs)
  from c show "yields_ok t"
  proof (cases c)
    case (RegisterMember who)
    with c keep show ?thesis
      by (auto simp: ok_simps joins_def dest!: ok_register_member intro: yields_ok_snapshot)
  next
    case (ExitDao who)
    with c keep show ?thesis
      by (auto simp: ok_simps leaves_def dest!: ok_exit_dao intro: yields_ok_snapshot)
  next
    case (ClaimRewards who)
    with c show ?thesis
      by (auto simp: ok_simps claim_rewards_def accessor_defs yields_ok_def)
  next
    case (MarkLoanDefaulted i)
    with c obtain policy who where d: "defaults policy who s t"
      by (auto simp: ok_simps dest!: ok_mark_loan_defaulted)
    with c keep MarkLoanDefaulted yields_ok_snapshot [of s t who] show ?thesis
      by (cases "kMember s who") (auto simp: defaults_def Let_def yields_ok_def get_yield_snapshot_def)
  next
    case (SeedPendingYield who es)
    have loop: "keeps yields_ok (for_each es (\<lambda>e. set_yield_snapshot (sye_address e) (- max (sye_amount e) 0)))"
      by (intro keeps_intros) (simp add: set_yield_snapshot_def keeps_modify seed_yield_snapshot)
    with c SeedPendingYield show ?thesis
      by (auto simp: ok_simps seed_pending_yield_def require_seeding_open_def dest: keepsD_Ok [OF loop])
  qed (auto simp: ok_simps repay_loan_def repay_loan_partial_def repay_loan_in_asset_def
        dest: repay_keeps_yields)
qed

lemma contributed_members:
  assumes "contrib_book (kMember s) c"
  shows "finite {a. is_member a s}"
    and "c = (\<Sum>a \<in> {a. is_member a s}. m_contribution (the (kMember s a)))"
    and "is_member a s \<Longrightarrow> 0 \<le> m_contribution (the (kMember s a))"
proof -
  have mem: "is_member a s \<longleftrightarrow> (\<exists>m. kMember s a = Some m \<and> m_status m = ActiveMember)" for a
    by (auto simp: is_member_def get_member_def split: option.splits)
  show "finite {a. is_member a s}"
    by (rule finite_subset [of _ "dom (kMember s)"]) (use assms in \<open>auto simp: contrib_book_def mem\<close>)
  have "total_of (contributions (kMember s))
          = (\<Sum>a \<in> {a. is_member a s}. m_contribution (the (kMember s a)))"
    unfolding total_of_def dom_contributions
    by (rule sum.mono_neutral_cong_right)
      (use assms in \<open>auto simp: contrib_book_def mem\<close>,
       auto simp: contributions_def act_contribution_def split: if_splits)
  with assms show "c = (\<Sum>a \<in> {a. is_member a s}. m_contribution (the (kMember s a)))"
    by (simp add: contrib_book_def contributed_def)
  show "is_member a s \<Longrightarrow> 0 \<le> m_contribution (the (kMember s a))"
    using assms by (auto simp: contrib_book_def mem)
qed

text \<open>The scan over the member list, with its checked additions.\<close>

definition contributions_along :: "address list \<Rightarrow> dao \<Rightarrow> i128" where
  "contributions_along ms s = sum_list (map (\<lambda>a. the (contributions (kMember s) a)) ms)"

lemma scan_contributions:
  assumes "contrib_book (kMember s) c"
  shows "set ms \<subseteq> dom (kMember s) \<Longrightarrow> 0 \<le> acc \<Longrightarrow> acc + contributions_along ms s \<le> i128_MAX \<Longrightarrow>
         fold_prog add_active_contribution ms acc s = Ok (acc + contributions_along ms s) s"
proof (induction ms arbitrary: acc)
  case (Cons a ms)
  then obtain m where m: "kMember s a = Some m" by auto
  have pos: "0 \<le> the (contributions (kMember s) x)" if "x \<in> dom (kMember s)" for x
    using that assms by (auto simp: contrib_book_def contributions_def act_contribution_def)
  have rest: "0 \<le> contributions_along ms s"
    unfolding contributions_along_def by (rule sum_list_nonneg) (use Cons.prems(1) pos in auto)
  have "add_active_contribution a acc s = Ok (acc + act_contribution m) s"
    using Cons.prems m pos [of a] rest
    by (auto simp: add_active_contribution_def run_simps get_member_def act_contribution_def
        contributions_along_def contributions_def int_bounds)
  moreover have "0 \<le> act_contribution m" using pos [of a] m by (auto simp: contributions_def)
  ultimately show ?case
    using Cons.IH [of "acc + act_contribution m"] Cons.prems m
    by (simp add: run_simps contributions_along_def contributions_def algebra_simps)
qed (simp add: run_simps contributions_along_def)

section \<open>Properties\<close>

text \<open>
  C2: the stake ledger balances: in every state reached without a seeded negative stake, the staked
  total is the sum of the members' stakes, and no stake is negative.
\<close>

theorem stake_ledger_balances:
  assumes "reachable sane_stakes s"
  shows "get_total_staked s = (\<Sum>a \<in> dom (kStake s). get_stake a s) \<and> (\<forall>a. 0 \<le> get_stake a s)"
proof -
  have b: "stake_book (kStake s) (get_total_staked s)"
    using stakes.reachable_holds [OF assms] by (simp add: stakes_ok_def)
  have "(\<Sum>a \<in> dom (kStake s). get_stake a s) = total_of (kStake s)"
    unfolding total_of_def by (rule sum.cong) (auto simp: get_stake_def)
  with b stake_book_le [OF b] show ?thesis by (simp add: stake_book_def get_stake_def)
qed

theorem stake_ledger_balances_witness:
  "get_total_staked pledged = 1400 \<and> get_total_staked pledged = (\<Sum>a \<in> dom (kStake pledged). get_stake a pledged)"
  using stake_ledger_balances [OF reachable_pledged [OF reachable_peopled]]
  by (simp add: sane_stakes_def pledged_eq get_total_staked_def)

text \<open>The maintained counter is the sum over the active members.\<close>

theorem active_contributions_balance:
  assumes "prudent s"
  shows "get_active_contributions s =
           (\<Sum>a \<in> {a. is_member a s}. m_contribution (the (kMember s a)))"
proof -
  have b: "contrib_book (kMember s) (get_active_contributions s)"
    using prudent_holds [OF assms] by (simp add: contributions_ok_def)
  then show ?thesis by (rule contributed_members(2))
qed

theorem active_contributions_balance_witness:
  "get_active_contributions peopled = 3000 \<and>
   get_active_contributions peopled = (\<Sum>a \<in> {a. is_member a peopled}. m_contribution (the (kMember peopled a)))"
  using active_contributions_balance [OF prudent_sane [OF reachable_peopled]]
  by (simp add: sane_contributions_def peopled_eq get_active_contributions_def)

text \<open>
  The maintained counter replaces the scan over the members: in every prudent state, adding up the active members' contributions never
  overflows and yields the counter.
\<close>

theorem counter_replaces_the_scan:
  assumes "prudent s"
  shows "total_active_contributions s = Ok (get_active_contributions s) s"
proof -
  have b: "contrib_book (kMember s) (get_active_contributions s)"
    using prudent_holds [OF assms] by (simp add: contributions_ok_def)
  have "members_ok s" by (rule members.reachable_holds [OF prudent_any [OF assms]])
  then have ms: "distinct (get_members s)" "set (get_members s) = dom (kMember s)"
    by (auto simp: members_ok_def book_ok_def)
  then have "contributions_along (get_members s) s = contributed (kMember s)"
    by (simp add: contributions_along_def contributed_def total_of_def sum_list_distinct_conv_sum_set)
  with b ms scan_contributions [OF b, of "get_members s" 0] show ?thesis
    by (simp add: total_active_contributions_def run_simps contrib_book_def in_i128_def)
qed

theorem counter_replaces_the_scan_witness:
  "total_active_contributions peopled = Ok 3000 peopled"
  using counter_replaces_the_scan [OF prudent_sane [OF reachable_peopled]]
  by (simp add: sane_contributions_def peopled_eq get_active_contributions_def)

text \<open>
  What a default does to the contributions counter: it keeps it in step when the borrower is an
  active member, and lets it fall behind by the slashed amount otherwise.
\<close>

theorem default_and_contributions:
  assumes "reachable any_call s" and "mark_loan_defaulted env i s = Ok u t"
  shows "\<exists>l policy. kLoan s i = Some l \<and> kPolicy s = Some policy \<and>
           get_active_contributions t - contributed (kMember t) =
             get_active_contributions s - contributed (kMember s)
               - (if is_member (l_borrower l) s then 0
                  else max 0 (slash_of policy (kMember s (l_borrower l))))"
proof -
  from ok_mark_loan_defaulted [OF assms(2)] obtain l policy where
    l: "kLoan s i = Some l" "kPolicy s = Some policy" "defaults policy (l_borrower l) s t" by blast
  have b: "book_ok (get_members s) (kMember s) (get_total_members s) (get_active_members s)"
    using members.reachable_holds [OF assms(1)] by (simp add: members_ok_def)
  then have fin: "finite (dom (kMember s))" by (metis book_ok_def finite_set)
  show ?thesis
  proof (cases "kMember s (l_borrower l)")
    case None
    with l show ?thesis by (auto simp: defaults_def slash_of_def is_member_def)
  next
    case (Some m)
    have "0 \<le> slash_of policy (Some m)"
      using default_slash_bounds [of m policy] by (auto simp: slash_of_def default_slash_def)
    with Some l b show ?thesis
      by (auto simp: defaults_def Let_def book_address contributed_upd [OF fin] act_contribution_def
          slashed_def is_member_def get_member_def)
  qed
qed

theorem default_and_contributions_witness:
  "get_active_contributions lapsed - contributed (kMember lapsed) =
   get_active_contributions lent - contributed (kMember lent)"
proof -
  have run: "mark_loan_defaulted (host 3000000) 0 lent = Ok () lapsed"
    using lapsed_run by (auto simp: ok_simps)
  have "reachable any_call lent" by (intro reachable_lent reachable_peopled) simp_all
  from default_and_contributions [OF this run]
  show ?thesis by (auto simp: lent_eq lent_loan_def is_member_def get_member_def joiner_def)
qed

text \<open>
  C12: the treasury covers everybody: in every state reached without a default of a borrower who
  had left by then and without a seeded negative contribution, the exit shares of all active
  members together never exceed the spendable treasury, where that is not negative (the stakes
  are covered). Defaults of members are allowed.
\<close>

theorem exit_shares_fit_the_treasury:
  assumes "prudent s" and "kToken s = Some base" and "0 \<le> spendable env base s"
  shows "(\<Sum>a \<in> {a. is_member a s}. exit_share env (the (kMember s a)) s) \<le> spendable env base s"
proof -
  have b: "contrib_book (kMember s) (get_active_contributions s)"
    using prudent_holds [OF assms(1)] by (simp add: contributions_ok_def)
  note members = contributed_members [OF b]
  from members(2) have "(\<Sum>a \<in> {a. is_member a s}. m_contribution (the (kMember s a)))
                          \<le> get_active_contributions s" by simp
  from sum_shares_le [OF members(1) _ this assms(3)] members(3) assms(2) show ?thesis
    by (simp add: exit_share_def)
qed

text \<open>Here a member has defaulted and was slashed by 200.\<close>

theorem exit_shares_fit_the_treasury_witness:
  "get_active_contributions lapsed = 2800 \<and>
   (\<Sum>a \<in> {a. is_member a lapsed}. exit_share (host 3000001) (the (kMember lapsed a)) lapsed) \<le> 2400"
proof -
  have "prudent lent" by (rule prudent_sane [OF reachable_lent [OF reachable_peopled]]) (simp_all add: sane_contributions_def)
  moreover have "strikes_members (MarkLoanDefaulted 0) lent"
    by (simp add: strikes_members_def lent_eq lent_loan_def is_member_def get_member_def joiner_def address_names)
  ultimately have "prudent lapsed" unfolding lapsed_def by (rule prudent.proceed)
  moreover have "kToken lapsed = Some usdc" "spendable (host 3000001) usdc lapsed = 2400"
    "get_active_contributions lapsed = 2800"
    by (simp_all add: lapsed_eq lent_eq backed_eq asked_eq peopled_eq founded_eq spendable_def host_def address_names
        get_total_staked_def get_active_contributions_def)
  ultimately show ?thesis using exit_shares_fit_the_treasury [of lapsed usdc "host 3000001"] by simp
qed

end
