(* ===== verification/Episodes.thy ===== *)
theory Episodes
  imports Scenario
begin

text \<open>
  More of the small DAO: a loan is serviced and the interest claimed, a public and a private
  withdrawal are voted on, names are registered. Each state is computed once, as in \<open>Scenario\<close>.
\<close>

lemma invoked: "dispatch env c s = Ok r t \<Longrightarrow> snd (invoke env c s) = t"
  by (simp add: invoke_def)

section \<open>Servicing a loan\<close>

definition serviced :: dao where
  "serviced = snd (invoke (host 260000) (RepayLoanPartial alice 0 48) lent)"

definition collected :: dao where
  "collected = snd (invoke (host 260001) (ClaimRewards bob) serviced)"

lemmas repay_eval = repay_loan_partial_def repay_loan_internal_def settle_overdue_def close_if_repaid_def
  distribute_interest_def signed_divide_int_def signed_modulo_int_def

lemma serviced_run: "dispatch (host 260000) (RepayLoanPartial alice 0 48) lent = Ok NoValue
  (lent\<lparr>kLoan := [0 \<mapsto> lent_loan\<lparr>l_amount_repaid := 48\<rparr>],
    kYieldAccumulator := Some 16, kYieldRemainder := Some 0,
    ledger := purse(usdc := (purse usdc)(bob := 999000, carol := 999000, alice := 999552, dao_addr := 2448)),
    events := events lent @ [Ev_interest 48 3 usdc, Ev_loan_rpy 0 alice 600 usdc]\<rparr>)"
  by (simp add: lent_eq backed_eq asked_eq peopled_eq founded_eq eval_simps address_names
      lent_loan_def repay_eval mock_transfer_def purse_def Let_def)

lemma serviced_eq: "serviced = lent\<lparr>kLoan := [0 \<mapsto> lent_loan\<lparr>l_amount_repaid := 48\<rparr>],
    kYieldAccumulator := Some 16, kYieldRemainder := Some 0,
    ledger := purse(usdc := (purse usdc)(bob := 999000, carol := 999000, alice := 999552, dao_addr := 2448)),
    events := events lent @ [Ev_interest 48 3 usdc, Ev_loan_rpy 0 alice 600 usdc]\<rparr>"
  by (simp only: serviced_def invoked [OF serviced_run])

lemma collected_run: "dispatch (host 260001) (ClaimRewards bob) serviced = Ok (Amount 16)
  (serviced\<lparr>kMemberYieldSnapshot := [alice \<mapsto> 0, carol \<mapsto> 0, bob \<mapsto> 16],
    ledger := purse(usdc := (purse usdc)(carol := 999000, alice := 999552, dao_addr := 2432, bob := 999016)),
    events := events serviced @ [Ev_claimed bob 16
      \<lparr>src_member = bob, src_amount = 16, src_timestamp = 260001\<rparr>]\<rparr>)"
  by (simp add: serviced_eq lent_eq backed_eq asked_eq peopled_eq founded_eq eval_simps address_names
      joiner_def claim_rewards_def compute_pending_yield_def mock_transfer_def purse_def)

lemma collected_eq: "collected = serviced\<lparr>kMemberYieldSnapshot := [alice \<mapsto> 0, carol \<mapsto> 0, bob \<mapsto> 16],
    ledger := purse(usdc := (purse usdc)(carol := 999000, alice := 999552, dao_addr := 2432, bob := 999016)),
    events := events serviced @ [Ev_claimed bob 16
      \<lparr>src_member = bob, src_amount = 16, src_timestamp = 260001\<rparr>]\<rparr>"
  by (simp only: collected_def invoked [OF collected_run])

lemma drained_run: "dispatch (host 30) (ExitDao carol) pledged = Ok NoValue drained"
  by (simp add: drained_eq pledged_eq peopled_eq founded_eq eval_simps address_names joiner_def departed_def
      exit_dao_def calculate_exit_share_def compute_pending_yield_def check_funds_def unlock_stake_def
      pay_out_def release_name_def share_from_contributions_def checked_mul_def checked_div_def
      checked_i128_def signed_divide_int_def mock_transfer_def purse_def)

section \<open>A public withdrawal\<close>

definition payee :: address where "payee = Address 7"

definition proposed :: dao where
  "proposed = snd (invoke (host 10) (ProposeTreasuryWithdrawal bob 300 payee ''rent'' False) peopled)"

definition polled :: dao where
  "polled = snd (invoke (host 20) (VoteOnTreasuryProposal alice 0 True) proposed)"

definition granted :: dao where
  "granted = snd (invoke (host 30) (VoteOnTreasuryProposal carol 0 True) polled)"

definition rent :: "bool \<Rightarrow> treasury_proposal" where
  "rent hidden =
     \<lparr>t_id = 0, t_proposer = bob, t_amount = 300, t_destination = payee, t_reason = ''rent'',
      t_created_at = 10, t_status = Pending, t_for_votes = 0, t_against_votes = 0, t_votes_cast = 0,
      t_voting_period = 259200, t_treasury_threshold = 5100, t_private = hidden\<rparr>"

lemmas treasury_eval = propose_withdrawal_def propose_withdrawal_in_asset_def is_token_whitelisted_def
  get_open_proposals_def count_open_proposals_def count_if_def open_treasury_proposal_def
  treasury_voting_end_def u64_saturating_add_def u64_saturating_mul_def u32_saturating_add_def
  next_id_def set_counter_def payee_def reserved_loan_commitments_def rent_def

lemma propose_run: "dispatch (host 10) (ProposeTreasuryWithdrawal bob 300 payee ''rent'' hidden) peopled =
  Ok (Id 0) (peopled\<lparr>kNextTreasuryId := Some 1, kTreasuryProposal := [0 \<mapsto> rent hidden],
    kOpenProposals := [bob \<mapsto> 1], events := events peopled @ [Ev_tre_prop 0 300 payee hidden]\<rparr>)"
  by (cases hidden) (simp_all add: peopled_eq founded_eq eval_simps address_names joiner_def
      test_policy_def purse_def treasury_eval)

lemma proposed_eq: "proposed = peopled\<lparr>kNextTreasuryId := Some 1, kTreasuryProposal := [0 \<mapsto> rent False],
    kOpenProposals := [bob \<mapsto> 1], events := events peopled @ [Ev_tre_prop 0 300 payee False]\<rparr>"
  by (simp only: proposed_def invoked [OF propose_run])

lemmas tally_eval = treasury_vote_def tally_def load_treasury_proposal_def cast_treasury_vote_def
  conclude_treasury_vote_def max_remaining_votes_def try_treasury_execute_def treasury_execute_def
  u32_saturating_sub_def vote_weight_eval

lemma polled_run: "dispatch (host 20) (VoteOnTreasuryProposal alice 0 True) proposed = Ok NoValue
  (proposed\<lparr>kTreasuryVoted := [(0, alice) \<mapsto> True],
    kTreasuryProposal := [0 \<mapsto> (rent False)\<lparr>t_for_votes := 1, t_votes_cast := 1\<rparr>],
    kOpenProposals := [bob \<mapsto> 1],
    events := events proposed @ [Ev_tre_vote 0 alice True]\<rparr>)"
  by (simp add: proposed_eq peopled_eq founded_eq eval_simps address_names joiner_def stake_boost_def
      treasury_eval tally_eval signed_divide_int_def)

lemma polled_eq: "polled = proposed\<lparr>kTreasuryVoted := [(0, alice) \<mapsto> True],
    kTreasuryProposal := [0 \<mapsto> (rent False)\<lparr>t_for_votes := 1, t_votes_cast := 1\<rparr>],
    kOpenProposals := [bob \<mapsto> 1],
    events := events proposed @ [Ev_tre_vote 0 alice True]\<rparr>"
  by (simp only: polled_def invoked [OF polled_run])

lemma granted_run: "dispatch (host 30) (VoteOnTreasuryProposal carol 0 True) polled = Ok NoValue
  (polled\<lparr>kTreasuryVoted := [(0, alice) \<mapsto> True, (0, carol) \<mapsto> True],
    kTreasuryProposal := [0 \<mapsto> (rent False)\<lparr>t_for_votes := 2, t_votes_cast := Suc 1, t_status := StExecuted\<rparr>],
    kOpenProposals := [bob \<mapsto> 0],
    ledger := purse(usdc := (purse usdc)(alice := 999000, bob := 999000, carol := 999000, dao_addr := 2700, payee := 1000300)),
    events := events polled @ [Ev_tre_vote 0 carol True, Ev_tre_exec 0 300 payee]\<rparr>)"
  by (simp add: polled_eq proposed_eq peopled_eq founded_eq eval_simps address_names joiner_def stake_boost_def
      treasury_eval tally_eval signed_divide_int_def mock_transfer_def purse_def Let_def)

section \<open>A private withdrawal\<close>

definition secret :: dao where
  "secret = snd (invoke (host 10) (ProposeTreasuryWithdrawal bob 300 payee ''rent'' True) peopled)"

text \<open>The test host's hash and address encoding are the identity and one byte.\<close>

definition ballot :: bytes where
  "ballot = compute_commitment (host 20) alice 0 True [42]"

definition sealed :: dao where
  "sealed = snd (invoke (host 20) (CommitTreasuryVote alice 0 ballot) secret)"

definition opened :: dao where
  "opened = snd (invoke (host 300000) (RevealTreasuryVote alice 0 True [42]) sealed)"

lemma secret_eq: "secret = peopled\<lparr>kNextTreasuryId := Some 1, kTreasuryProposal := [0 \<mapsto> rent True],
    kOpenProposals := [bob \<mapsto> 1], events := events peopled @ [Ev_tre_prop 0 300 payee True]\<rparr>"
  by (simp only: secret_def invoked [OF propose_run])

lemma sealed_run: "dispatch (host 20) (CommitTreasuryVote alice 0 ballot) secret = Ok NoValue
  (secret\<lparr>kCommit := [(0, alice) \<mapsto> ballot], events := events secret @ [Ev_committed 0 alice]\<rparr>)"
  by (simp add: secret_eq peopled_eq founded_eq eval_simps address_names joiner_def commit_vote_def
      load_treasury_proposal_def rent_def)

lemma sealed_eq: "sealed = secret\<lparr>kCommit := [(0, alice) \<mapsto> ballot], events := events secret @ [Ev_committed 0 alice]\<rparr>"
  by (simp only: sealed_def invoked [OF sealed_run])

lemma opened_run: "dispatch (host 300000) (RevealTreasuryVote alice 0 True [42]) sealed = Ok NoValue
  (sealed\<lparr>kCommit := Map.empty, kTreasuryVoted := [(0, alice) \<mapsto> True],
    kTreasuryProposal := [0 \<mapsto> (rent True)\<lparr>t_for_votes := 1, t_votes_cast := 1\<rparr>],
    kOpenProposals := [bob \<mapsto> 1],
    events := events sealed @ [Ev_revealed 0 alice True, Ev_tre_vote 0 alice True]\<rparr>)"
  by (simp add: sealed_eq secret_eq peopled_eq founded_eq eval_simps address_names joiner_def stake_boost_def
      treasury_eval tally_eval signed_divide_int_def reveal_vote_def ballot_def compute_commitment_def
      commitment_preimage_def)

section \<open>Names\<close>

definition named :: dao where
  "named = snd (invoke (host 5) (RegisterName alice ''alice'') peopled)"

lemma named_run: "dispatch (host 5) (RegisterName alice ''alice'') peopled = Ok NoValue
  (peopled\<lparr>kName := [''alice'' \<mapsto> alice], kNameOf := [alice \<mapsto> ''alice''],
    events := events peopled @ [Ev_name_reg ''alice'' alice]\<rparr>)"
  by (simp add: peopled_eq founded_eq eval_simps address_names joiner_def register_name_def
      validate_name_def is_separator_def is_ascii_lowercase_def is_ascii_digit_def)

lemma named_eq: "named = peopled\<lparr>kName := [''alice'' \<mapsto> alice], kNameOf := [alice \<mapsto> ''alice''],
    events := events peopled @ [Ev_name_reg ''alice'' alice]\<rparr>"
  by (simp only: named_def invoked [OF named_run])

end
