(* ===== verification/Payouts.thy ===== *)
theory Payouts
  imports Funds Episodes
begin

text \<open>
  What the contract pays and receives: leaving, claiming yield, the distribution of interest over
  a repayment, and the token side of staking. The token contract enters through the law of the
  locale \<open>token_contract\<close> only.
\<close>

section \<open>Conservation of the yield owed\<close>

text \<open>The yield the contract owes: what the active members can claim, and the carried remainder.\<close>

definition yield_owed :: "dao \<Rightarrow> i128" where
  "yield_owed s = (\<Sum>a \<in> {a. is_member a s}. unclaimed_yield a s) + get_yield_remainder s"

lemma unclaimed_yield_eq:
  "yields_ok s \<Longrightarrow> unclaimed_yield a s = get_yield_accumulator s - get_yield_snapshot a s"
  by (simp add: yields_ok_def unclaimed_yield_def)

lemma interest_part_nonneg: "0 < paid \<Longrightarrow> 0 \<le> interest_part l paid"
  by (simp add: interest_part_def)

text \<open>Division of a pot in \<open>n\<close> equal parts, with the remainder carried.\<close>

lemma yield_split_conserves:
  assumes "yields_ok s" and "(acc, rem) = yield_split interest s" and "0 \<le> interest"
    and "0 < get_active_members s"
  shows "int (get_active_members s) * (acc - get_yield_accumulator s) + rem = interest + get_yield_remainder s"
proof (cases "interest = 0")
  case True
  with assms show ?thesis by (simp add: yield_split_def)
next
  case False
  define n where "n = int (get_active_members s)"
  define pot where "pot = interest + get_yield_remainder s"
  have n: "0 < n" "0 < interest" using assms False by (auto simp: n_def)
  have pot: "0 \<le> pot" using assms n by (simp add: pot_def yields_ok_def)
  have q: "pot sdiv n = pot div n" "pot smod n = pot mod n" "0 \<le> pot div n"
    using n pot by (simp_all add: sdiv_nonneg smod_nonneg pos_imp_zdiv_nonneg_iff)
  have "(acc, rem) = (if 0 < pot sdiv n then get_yield_accumulator s + pot sdiv n
                      else get_yield_accumulator s, pot smod n)"
    using assms(2) n by (simp add: yield_split_def Let_def n_def pot_def)
  then have "acc - get_yield_accumulator s = pot div n" "rem = pot mod n"
    using q by (auto split: if_splits)
  then show ?thesis by (simp add: n_def [symmetric] pot_def [symmetric])
qed

lemma members_counted:
  assumes "members_ok s"
  shows "card {a. is_member a s} = get_active_members s" and "finite {a. is_member a s}"
proof -
  have b: "book_ok (get_members s) (kMember s) (get_total_members s) (get_active_members s)"
    using assms by (simp add: members_ok_def)
  have "{a. is_member a s} = active_in (kMember s)"
    by (auto simp: is_member_def get_member_def active_in_def split: option.splits)
  then show "card {a. is_member a s} = get_active_members s" "finite {a. is_member a s}"
    using b finite_active [of "get_members s" "kMember s"] by (simp_all add: book_ok_def)
qed

lemma relieve_members:
  "\<forall>b m. kMember s b = Some m \<longrightarrow> m_address m = b \<Longrightarrow> kMember t = relieve who closed (kMember s) \<Longrightarrow>
   is_member a t = is_member a s"
  by (auto simp: is_member_def get_member_def relieve_def relieved_def split: option.splits if_splits)

lemma share_nonneg: "0 \<le> share_from_contributions treasury c total_c"
proof (cases "0 < total_c \<and> 0 < treasury \<and> 0 < c")
  case True
  then show ?thesis by (intro share_floor(2)) auto
next
  case False
  then show ?thesis by (auto simp: share_from_contributions_def not_less)
qed

section \<open>Properties\<close>

text \<open>
  C15: a repayment in the base token adds exactly its interest part to the yield owed to the
  active members; nothing is created or lost by the integer division.
\<close>

theorem repayment_conserves_yield:
  assumes "reachable any_call s" and "repay_loan_partial env who i amount s = Ok u t"
    and "kLoanAsset s i = None" and "0 < get_active_members s"
  shows "\<exists>l. kLoan s i = Some l \<and>
           yield_owed t = yield_owed s + interest_part (settled env s l) amount"
proof -
  from assms(2) obtain l paid where r: "repays env who i (Some amount) l paid s t"
    by (auto simp: repay_loan_partial_def dest: ok_repay_internal)
  then have paid: "paid = amount" "0 < amount" "kLoan s i = Some l" by (auto simp: repays_def Let_def)
  have agree: "agree {FMember, FLoan, FYieldAccumulator, FYieldRemainder, FLedger, FEvents} s t"
    using writes_Ok [OF writes_repay(3) assms(2)] by simp
  then have snap: "get_yield_snapshot a t = get_yield_snapshot a s" for a
    by (simp add: agree_def all_fields get_yield_snapshot_def)
  have base: "kToken s \<noteq> None"
    using assms(2,3) by (clarsimp simp: repay_loan_partial_def repay_loan_internal_def ok_simps)
  have ok: "members_ok s" "yields_ok s"
    using members.reachable_holds [OF assms(1)] yields.reachable_holds [OF assms(1)] by auto
  have okt: "yields_ok t"
    using repay_keeps_yields [OF ok(2)] assms(2) by (simp add: repay_loan_partial_def)
  define d where "d = get_yield_accumulator t - get_yield_accumulator s"
  have split: "(get_yield_accumulator t, get_yield_remainder t) = yield_split (interest_part (settled env s l) amount) s"
    using r base assms(3) paid by (auto simp: repays_def Let_def asset_of_def)
  from yield_split_conserves [OF ok(2) split interest_part_nonneg [OF paid(2)] assms(4)]
  have pot: "int (get_active_members s) * d + get_yield_remainder t
               = interest_part (settled env s l) amount + get_yield_remainder s"
    by (simp add: d_def)
  have "{a. is_member a t} = {a. is_member a s}"
    using relieve_members [of s t who] r ok(1) by (auto simp: repays_def Let_def members_ok_def book_ok_def)
  then have "(\<Sum>a \<in> {a. is_member a t}. unclaimed_yield a t) = (\<Sum>a \<in> {a. is_member a s}. unclaimed_yield a s + d)"
    by (intro sum.cong) (simp_all add: unclaimed_yield_eq ok okt snap d_def)
  also have "\<dots> = (\<Sum>a \<in> {a. is_member a s}. unclaimed_yield a s) + int (get_active_members s) * d"
    by (simp add: sum.distrib members_counted(1) [OF ok(1)])
  finally show ?thesis using pot paid(3) by (simp add: yield_owed_def)
qed

lemma reachable_lent_any: "reachable any_call lent"
  by (intro reachable_lent reachable_peopled) simp_all

theorem repayment_conserves_yield_witness:
  "yield_owed (snd (invoke (host 260000) (RepayLoanPartial alice 0 48) lent)) = yield_owed lent + 48"
proof -
  have run: "repay_loan_partial (host 260000) alice 0 48 lent = Ok () serviced"
    using serviced_run by (auto simp: ok_simps serviced_eq)
  have "kLoanAsset lent 0 = None" "0 < get_active_members lent"
    by (simp_all add: lent_eq backed_eq asked_eq peopled_eq founded_eq get_active_members_def)
  from repayment_conserves_yield [OF reachable_lent_any run this] obtain l where
    l: "kLoan lent 0 = Some l" "yield_owed serviced = yield_owed lent + interest_part (settled (host 260000) lent l) 48"
    by blast
  moreover have "kLoan lent 0 = Some lent_loan" by (simp add: lent_eq)
  moreover have "interest_part (settled (host 260000) lent lent_loan) 48 = 48"
    by (simp add: lent_loan_def interest_part_def interest_total_def settled_def penalty_due_def host_def)
  ultimately show ?thesis by (simp add: serviced_def)
qed

text \<open>
  C26: leaving pays the exit share, the recorded stake and the unclaimed yield in one transfer of
  the base token, and leaves the member inactive, without stake, yield or name.
\<close>

theorem exit_settles:
  assumes "exit_dao env who s = Ok u t" and "token_contract (env_transfer env)" and "who \<noteq> env_self env"
    and "reachable sane_stakes s"
  shows "\<exists>m base. kMember s who = Some m \<and> m_status m = ActiveMember \<and> \<not> m_has_active_loan m \<and>
           kToken s = Some base \<and>
           ledger t base who = ledger s base who + payout_of env who m s \<and>
           ledger t base (env_self env) = ledger s base (env_self env) - payout_of env who m s \<and>
           \<not> is_member who t \<and> get_stake who t = 0 \<and> unclaimed_yield who t = 0 \<and> kNameOf t who = None"
proof -
  from ok_exit_dao [OF assms(1)] obtain m where l: "leaves env who m s t" by blast
  then obtain base where b: "kToken s = Some base" by (auto simp: leaves_def)
  have any: "reachable any_call s" using assms(4) by (rule reachable_mono) simp
  have "m_address m = who"
    using members.reachable_holds [OF any] l by (auto simp: members_ok_def book_ok_def leaves_def)
  have st: "0 \<le> get_stake who s"
    using stakes.reachable_holds [OF assms(4)] stake_book_le
    by (force simp: stakes_ok_def stake_book_def get_stake_def)
  have acc: "get_yield_accumulator t = get_yield_accumulator s"
    using writes_Ok [where m = "exit_dao env who", OF writes_membership(2) [OF subset_refl] assms(1)]
    by (simp add: agree_def all_fields accessor_defs)
  have "0 \<le> exit_share env m s"
    by (simp add: exit_share_def share_nonneg)
  then have pay: "0 \<le> payout_of env who m s"
    using st by (simp add: payout_of_def unclaimed_yield_def)
  have "ledger t base who = ledger s base who + payout_of env who m s \<and>
        ledger t base (env_self env) = ledger s base (env_self env) - payout_of env who m s"
  proof (cases "payout_of env who m s > 0")
    case True
    with l b have "env_transfer env base (env_self env) who (payout_of env who m s) (ledger s) = Some (ledger t)"
      by (simp add: leaves_def paid_out_def)
    with token_contract.sender_pays [OF assms(2) this] token_contract.receiver_gets [OF assms(2) this]
    show ?thesis using assms(3) by simp
  next
    case False
    with pay l show ?thesis by (simp add: leaves_def paid_out_def)
  qed
  with l b st acc \<open>m_address m = who\<close> show ?thesis
    by (auto simp: leaves_def is_member_def get_member_def departed_def get_stake_def zero_stake_def
        unclaimed_yield_def get_yield_snapshot_def)
qed

lemma mock_host: "token_contract (env_transfer (host n))"
  by (simp add: host_def mock.token_contract_axioms)

lemma self_addresses: "env_self (host n) = dao_addr" "alice \<noteq> dao_addr" "bob \<noteq> dao_addr" "carol \<noteq> dao_addr"
  by (simp_all add: host_def address_names)

lemma reachable_pledged_sane: "reachable sane_stakes pledged"
  by (intro reachable_pledged reachable_peopled) (simp_all add: sane_stakes_def)

theorem exit_settles_witness:
  "ledger drained usdc carol = ledger pledged usdc carol + 1933 \<and> get_stake carol drained = 0"
proof -
  have run: "exit_dao (host 30) carol pledged = Ok () drained"
    using drained_run by (auto simp: ok_simps)
  have "carol \<noteq> env_self (host 30)" by (simp add: self_addresses)
  from exit_settles [OF run mock_host this reachable_pledged_sane] obtain m base where
    m: "kMember pledged carol = Some m" "kToken pledged = Some base"
      "ledger drained base carol = ledger pledged base carol + payout_of (host 30) carol m pledged"
      "get_stake carol drained = 0" by blast
  have "m = joiner carol" "base = usdc"
    using m(1,2) by (simp_all add: pledged_eq peopled_eq founded_eq address_names)
  moreover have "payout_of (host 30) carol (joiner carol) pledged = 1933"
    by (simp add: payout_of_def exit_share_def share_from_contributions_def spendable_def unclaimed_yield_def
        pledged_eq peopled_eq founded_eq address_names joiner_def host_def accessor_defs checked_mul_def
        checked_div_def checked_i128_def signed_divide_int_def int_bounds)
  ultimately show ?thesis using m(3,4) by simp
qed

text \<open>
  Claiming pays exactly the unclaimed yield, once, and changes nobody else's claim.
\<close>

theorem claim_pays_the_unclaimed_yield:
  assumes "claim_rewards env who s = Ok r t" and "token_contract (env_transfer env)" and "who \<noteq> env_self env"
  shows "r = unclaimed_yield who s \<and> 0 < r \<and> unclaimed_yield who t = 0 \<and>
         (\<forall>a. a \<noteq> who \<longrightarrow> unclaimed_yield a t = unclaimed_yield a s) \<and>
         (\<exists>base. kToken s = Some base \<and> ledger t base who = ledger s base who + r \<and>
                 ledger t base (env_self env) = ledger s base (env_self env) - r)"
proof -
  from assms(1) obtain base l where b: "kToken s = Some base" "r = unclaimed_yield who s" "0 < r"
    "env_transfer env base (env_self env) who r (ledger s) = Some l" "ledger t = l"
    "kMemberYieldSnapshot t = (kMemberYieldSnapshot s)(who \<mapsto> get_yield_accumulator s)"
    "get_yield_accumulator t = get_yield_accumulator s"
    by (auto simp: claim_rewards_def ok_simps accessor_defs not_le)
  with token_contract.sender_pays [OF assms(2) b(4)] token_contract.receiver_gets [OF assms(2) b(4)] assms(3)
  show ?thesis by (auto simp: unclaimed_yield_def get_yield_snapshot_def)
qed

theorem claim_pays_the_unclaimed_yield_witness:
  "unclaimed_yield bob serviced = 16 \<and> unclaimed_yield bob collected = 0"
proof -
  have run: "claim_rewards (host 260001) bob serviced = Ok 16 collected"
    using collected_run by (auto simp: ok_simps collected_eq)
  have "bob \<noteq> env_self (host 260001)" by (simp add: self_addresses)
  from claim_pays_the_unclaimed_yield [OF run mock_host this] show ?thesis by simp
qed

text \<open>Neither staking nor unstaking moves a token: the stake is a number the contract writes down.\<close>

theorem staking_moves_no_tokens:
  assumes "dispatch env c s = Ok r t" and "c = Stake who amount \<or> c = Unstake who amount"
  shows "ledger t = ledger s"
proof -
  have "FLedger \<notin> footprint c" using assms(2) by auto
  then show ?thesis using writes_Ok [OF writes_dispatch assms(1)] by (simp add: agree_def all_fields)
qed

theorem staking_moves_no_tokens_witness: "ledger pledged = ledger peopled"
proof -
  have "dispatch (host 20) (Stake carol 1400) peopled = Ok NoValue pledged"
  proof -
    have boost: "stake_boost 1400 s = Ok 3 s" for s
      by (simp add: stake_boost_table int_bounds boost_table_def)
    show ?thesis
      by (simp add: pledged_eq peopled_eq founded_eq eval_simps address_names joiner_def stake_def boost)
  qed
  then show ?thesis by (rule staking_moves_no_tokens) simp
qed

text \<open>
  The consequence, on a concrete run: three members pay a fee of 1000 each, Carol records a
  stake of 1400 she never paid, leaves, and takes 1933 of the 3000 tokens with her.
\<close>

theorem unpaid_stake_is_paid_out:
  "ledger peopled usdc carol = 999000 \<and> ledger pledged usdc carol = 999000 \<and>
   ledger drained usdc carol = 1000933 \<and> ledger drained usdc dao_addr = 1067 \<and>
   get_active_contributions drained = 2000 \<and> reachable any_call drained"
proof -
  have "reachable any_call drained"
    unfolding drained_def by (intro reachable.call reachable_pledged reachable_peopled) simp_all
  then show ?thesis
    by (simp add: drained_eq pledged_eq peopled_eq address_names get_active_contributions_def)
qed

end
