(* ===== verification/Pricing.thy ===== *)
theory Pricing
  imports Payouts
begin

text \<open>
  The quote of a loan: it never traps under a valid policy, its rate stays between the policy's
  bounds, its interest is the exact ceiling, and the total is never below the amount lent.
\<close>

section \<open>The parts of a quote\<close>

lemma ceil_div_runs:
  assumes "0 \<le> v" and "0 < d" and "v \<le> i128_MAX"
  shows "\<exists>q. ceil_div_nonnegative v d s = Ok q s \<and> 0 \<le> q \<and> (\<forall>k. q \<le> k \<longleftrightarrow> v \<le> k * d)"
proof (intro exI conjI allI)
  define q where "q = v div d + (if v mod d = 0 then 0 else 1)"
  have iff: "q \<le> k \<longleftrightarrow> v \<le> k * d" for k unfolding q_def by (rule ceil_div_le_iff [OF assms(2)])
  have "v * 1 \<le> v * d" using assms by (intro mult_left_mono) auto
  then have "q \<le> v" by (simp add: iff)
  moreover show "0 \<le> q" using assms by (simp add: q_def pos_imp_zdiv_nonneg_iff)
  ultimately show "ceil_div_nonnegative v d s = Ok q s"
    using assms by (simp add: ok_ceil_div q_def [symmetric] int_bounds)
  show "q \<le> k \<longleftrightarrow> v \<le> k * d" for k by (rule iff)
qed

lemma quote_ratio_runs:
  assumes "0 < amount"
  shows "\<exists>x. quote_ratio amount treasury s = Ok x s \<and> 0 \<le> x \<and> x \<le> 10000"
proof (cases "0 < treasury \<and> in_i128 (amount * 10000)")
  case True
  from ceil_div_runs [of "amount * 10000" treasury s] True assms
  obtain q where "ceil_div_nonnegative (amount * 10000) treasury s = Ok q s" "0 \<le> q"
    by (auto simp: in_i128_def)
  with True show ?thesis
    by (simp add: quote_ratio_def run_simps checked_mul_def checked_i128_def)
next
  case False
  then show ?thesis
    by (auto simp: quote_ratio_def run_simps checked_mul_def checked_i128_def)
qed

lemma quote_rate_runs:
  assumes "\<not> invalid_policy policy" and "0 \<le> x" and "x \<le> 10000"
  shows "\<exists>rate. quote_rate policy x s = Ok rate s \<and>
           int (pol_min_interest_rate policy) \<le> rate \<and> rate \<le> int (pol_max_interest_rate policy)"
proof -
  define d where "d = int (pol_max_interest_rate policy - pol_min_interest_rate policy)"
  have pol: "pol_min_interest_rate policy \<le> pol_max_interest_rate policy" "pol_max_interest_rate policy \<le> 10000"
    using assms(1) by (auto simp: invalid_policy_def)
  have "x * d \<le> 10000 * 10000" using assms pol by (intro mult_mono) (auto simp: d_def)
  moreover have "0 \<le> x * d" using assms by (simp add: d_def)
  ultimately have "0 \<le> x * d" "x * d \<le> i128_MAX" "in_i128 (x * d)" by (simp_all add: int_bounds)
  with ceil_div_runs [of "x * d" 10000 s] obtain q where
    q: "ceil_div_nonnegative (x * d) 10000 s = Ok q s" "0 \<le> q" "q \<le> k \<longleftrightarrow> x * d \<le> k * 10000" for k
    by auto
  have "q \<le> 10000" using \<open>x * d \<le> 10000 * 10000\<close> by (simp add: q(3))
  then have "in_i128 (int (pol_min_interest_rate policy) + q)" using q(2) pol by (simp add: int_bounds)
  with q \<open>in_i128 (x * d)\<close> pol show ?thesis
    by (simp add: quote_rate_def run_simps checked_mul_def checked_add_def checked_i128_def d_def [symmetric])
qed

text \<open>The ceiling of \<open>amount * rate / 10000\<close>, or the largest total when it does not fit.\<close>

definition loan_interest :: "i128 \<Rightarrow> i128 \<Rightarrow> i128" where
  "loan_interest amount rate =
     (if amount * rate + 9999 \<le> i128_MAX then (amount * rate + 9999) div 10000 else i128_MAX - amount)"

lemma quote_interest_runs:
  assumes "0 < amount" and "amount \<le> i128_MAX" and "0 \<le> rate"
  shows "quote_interest amount rate s = Ok (loan_interest amount rate) s" and "0 \<le> loan_interest amount rate"
proof -
  have pos: "0 \<le> amount * rate" using assms by simp
  have fits: "in_i128 (i128_MAX - amount)" using assms by (simp add: int_bounds)
  have "ceil_bps amount rate = (if amount * rate + 9999 \<le> i128_MAX then Some ((amount * rate + 9999) div 10000) else None)"
  proof (cases "amount * rate + 9999 \<le> i128_MAX")
    case True
    have "(amount * rate + 9999) div 10000 \<le> amount * rate + 9999" using pos by linarith
    with True pos show ?thesis
      by (simp add: ceil_bps_def checked_mul_def checked_add_def checked_div_def checked_i128_def sdiv_nonneg
          int_bounds pos_imp_zdiv_nonneg_iff)
  next
    case False
    with pos show ?thesis
      by (auto simp: ceil_bps_def checked_mul_def checked_add_def checked_i128_def in_i128_def)
  qed
  moreover have "9999 \<le> i128_MAX" by (simp add: i128_MAX_def)
  ultimately show "quote_interest amount rate s = Ok (loan_interest amount rate) s"
    using assms fits by (auto simp: quote_interest_def run_simps loan_interest_def)
  show "0 \<le> loan_interest amount rate"
    using pos assms by (simp add: loan_interest_def pos_imp_zdiv_nonneg_iff)
qed

section \<open>The quote\<close>

definition quoted :: "loan_policy \<Rightarrow> i128 \<Rightarrow> loan_terms \<Rightarrow> bool" where
  "quoted policy amount terms \<longleftrightarrow>
     pol_min_interest_rate policy \<le> lt_interest_rate terms \<and>
     lt_interest_rate terms \<le> pol_max_interest_rate policy \<and>
     lt_duration terms = pol_max_loan_duration policy \<and>
     lt_total_repayment terms = min i128_MAX (amount + loan_interest amount (int (lt_interest_rate terms)))"

lemma quote_terms_runs:
  assumes "kPolicy s = Some policy" and "\<not> invalid_policy policy" and "0 < amount" and "amount \<le> i128_MAX"
  shows "\<exists>terms. quote_terms amount treasury s = Ok terms s \<and> quoted policy amount terms"
proof -
  from quote_ratio_runs [OF assms(3)] obtain x where
    x: "quote_ratio amount treasury s = Ok x s" "0 \<le> x" "x \<le> 10000" by blast
  from quote_rate_runs [OF assms(2) x(2,3)] obtain rate where
    r: "quote_rate policy x s = Ok rate s" "int (pol_min_interest_rate policy) \<le> rate"
      "rate \<le> int (pol_max_interest_rate policy)" by blast
  have r0: "0 \<le> rate" using r(2) by simp
  have "rate \<le> 10000" using r(3) assms(2) by (auto simp: invalid_policy_def)
  then have cast: "as_u32 rate = nat rate" using r0 by (simp add: as_u32_def)
  note i = quote_interest_runs [OF assms(3,4) r0]
  have total: "unwrap_or (checked_add amount (loan_interest amount rate)) i128_MAX
                 = min i128_MAX (amount + loan_interest amount rate)"
    using i(2) assms(3) by (auto simp: checked_add_def checked_i128_def in_i128_def i128_MIN_def)
  show ?thesis
    using x r r0 i(1) assms(1)
    by (simp add: quote_terms_def run_simps storage_defs cast total quoted_def nat_le_iff le_nat_iff)
qed

text \<open>
  C31: under a valid policy a quote never fails; its rate lies between the policy's bounds, its
  duration is the policy's, and its total is the amount and the ceiling of the interest.
\<close>

theorem quote_is_sound:
  assumes "kPolicy s = Some policy" and "\<not> invalid_policy policy" and "0 < amount" and "amount \<le> i128_MAX"
  shows "\<exists>terms. quote_terms amount treasury s = Ok terms s \<and>
           pol_min_interest_rate policy \<le> lt_interest_rate terms \<and>
           lt_interest_rate terms \<le> pol_max_interest_rate policy \<and>
           lt_duration terms = pol_max_loan_duration policy \<and>
           amount \<le> lt_total_repayment terms \<and> lt_total_repayment terms \<le> i128_MAX \<and>
           (amount * 20000 + 9999 \<le> i128_MAX \<longrightarrow>
              (\<forall>k. lt_total_repayment terms \<le> amount + k \<longleftrightarrow> amount * int (lt_interest_rate terms) \<le> k * 10000))"
proof -
  from quote_terms_runs [OF assms] obtain terms where
    q: "quote_terms amount treasury s = Ok terms s" "quoted policy amount terms" by blast
  define r where "r = int (lt_interest_rate terms)"
  have r: "0 \<le> r" "r \<le> 10000"
    using q(2) assms(2) by (auto simp: r_def quoted_def invalid_policy_def)
  have total: "lt_total_repayment terms = min i128_MAX (amount + loan_interest amount r)"
    using q(2) by (simp add: quoted_def r_def)
  have "0 \<le> loan_interest amount r" by (rule quote_interest_runs(2) [OF assms(3,4) r(1)])
  moreover have "lt_total_repayment terms \<le> amount + k \<longleftrightarrow> amount * r \<le> k * 10000"
    if "amount * 20000 + 9999 \<le> i128_MAX" for k
  proof -
    have "amount * r \<le> amount * 10000" using r assms by (intro mult_left_mono) auto
    then have fits: "amount * r + 9999 \<le> i128_MAX" "(amount * r + 9999) div 10000 \<le> amount + 1"
      using that assms(3) by linarith+
    then have "loan_interest amount r = (amount * r + 9999) div 10000" by (simp only: loan_interest_def if_True)
    then have "lt_total_repayment terms = amount + (amount * r + 9999) div 10000"
      using that assms(3) total fits(2) by simp
    then show ?thesis by (simp add: ceil_bps_le_iff)
  qed
  ultimately show ?thesis using q total assms by (auto simp: quoted_def r_def)
qed

theorem quote_is_sound_witness:
  "\<exists>terms. quote_terms 600 3000 peopled = Ok terms peopled \<and>
     500 \<le> lt_interest_rate terms \<and> lt_interest_rate terms \<le> 2000 \<and> 600 \<le> lt_total_repayment terms"
proof -
  have "kPolicy peopled = Some test_policy" "\<not> invalid_policy test_policy"
    by (simp_all add: peopled_eq founded_eq test_policy_def invalid_policy_def)
  from quote_is_sound [OF this, of 600 3000] show ?thesis
    by (auto simp: test_policy_def i128_MAX_def)
qed

end
