(* ===== verification/Lending.thy ===== *)
theory Lending
  imports Pricing
begin

text \<open>
  The life of a loan proposal and of the loan it becomes. The abstract machine is a step relation
  on the pair of phase and status; every call moves every stored proposal along it. The
  invariant ties the loan book to the proposals: a loan exists only for an approved proposal.
\<close>

section \<open>The proposal machine\<close>

type_synonym stage = "proposal_phase \<times> proposal_status"

inductive loan_step :: "stage \<Rightarrow> stage \<Rightarrow> bool" where
  open_ballot: "loan_step (Editing, Pending) (Voting, Pending)"
| cancel: "loan_step (Editing, Pending) (PhExpired, Cancelled)"
| approve: "loan_step (Voting, Pending) (PhExecuted, ApprovedPendingDisbursement)"
| reject: "loan_step (Voting, Pending) (PhExpired, Rejected)"
| expire: "loan_step (Voting, Pending) (PhExpired, StExpired)"
| disburse: "loan_step (PhExecuted, ApprovedPendingDisbursement) (PhExecuted, Approved)"

inductive_simps loan_step_simps: "loan_step (ph, st) x"

definition stage_of :: "loan_proposal \<Rightarrow> stage" where
  "stage_of p = (p_phase p, p_status p)"

definition final_stage :: "stage \<Rightarrow> bool" where
  "final_stage x \<longleftrightarrow> snd x \<in> {Approved, Rejected, StExpired, Cancelled}"

definition loan_stages :: "stage set" where
  "loan_stages =
     {(Editing, Pending), (Voting, Pending), (PhExpired, Cancelled),
      (PhExecuted, ApprovedPendingDisbursement), (PhExpired, Rejected), (PhExpired, StExpired),
      (PhExecuted, Approved)}"

lemma loan_step_final: "loan_step x y \<Longrightarrow> \<not> final_stage x"
  by (induction rule: loan_step.induct) (simp_all add: final_stage_def)

lemma loan_steps_final: "rtranclp loan_step x y \<Longrightarrow> final_stage x \<Longrightarrow> y = x"
  by (induction rule: rtranclp_induct) (auto dest: loan_step_final)

lemma loan_step_stages: "loan_step x y \<Longrightarrow> x \<in> loan_stages \<Longrightarrow> y \<in> loan_stages"
  by (induction rule: loan_step.induct) (simp_all add: loan_stages_def)

lemma loan_steps_stages: "rtranclp loan_step x y \<Longrightarrow> x \<in> loan_stages \<Longrightarrow> y \<in> loan_stages"
  by (induction rule: rtranclp_induct) (auto dest: loan_step_stages)

lemma from_editing: "rtranclp loan_step (Editing, Pending) (Voting, Pending)"
  by (rule r_into_rtranclp) (rule open_ballot)

lemma pending_stages:
  "x \<in> loan_stages \<Longrightarrow> fst x = Editing \<or> fst x = Voting \<Longrightarrow> x = (Editing, Pending) \<or> x = (Voting, Pending)"
  "x \<in> loan_stages \<Longrightarrow> snd x = ApprovedPendingDisbursement \<Longrightarrow> x = (PhExecuted, ApprovedPendingDisbursement)"
  "x \<in> loan_stages \<Longrightarrow> snd x = Pending \<Longrightarrow> x = (Editing, Pending) \<or> x = (Voting, Pending)"
  by (auto simp: loan_stages_def)

lemma decided_from_voting:
  "x \<in> {(PhExecuted, ApprovedPendingDisbursement), (PhExecuted, Approved), (PhExpired, Rejected),
        (PhExpired, StExpired), (Voting, Pending)} \<Longrightarrow> rtranclp loan_step (Voting, Pending) x"
  by (auto intro: approve reject expire disburse r_into_rtranclp converse_rtranclp_into_rtranclp)

text \<open>One proposal moving along the machine: its identity and its borrower stay.\<close>

definition proceeds :: "loan_proposal \<Rightarrow> loan_proposal \<Rightarrow> bool" where
  "proceeds p q \<longleftrightarrow>
     p_id q = p_id p \<and> p_borrower q = p_borrower p \<and> p_created_at q = p_created_at p \<and>
     (0 < p_amount p \<longrightarrow> 0 < p_amount q) \<and>
     (stage_of p \<in> loan_stages \<longrightarrow> rtranclp loan_step (stage_of p) (stage_of q))"

lemma proceeds_refl: "proceeds p p"
  by (simp add: proceeds_def)

lemma proceeds_trans: "proceeds p q \<Longrightarrow> proceeds q r \<Longrightarrow> proceeds p r"
  by (auto simp: proceeds_def dest: loan_steps_stages intro: rtranclp_trans)

lemma proceeds_stages: "proceeds p q \<Longrightarrow> stage_of p \<in> loan_stages \<Longrightarrow> stage_of q \<in> loan_stages"
  by (auto simp: proceeds_def dest: loan_steps_stages)

text \<open>A state change that moves one stored proposal.\<close>

definition moves :: "u32 \<Rightarrow> dao \<Rightarrow> dao \<Rightarrow> bool" where
  "moves i s t \<longleftrightarrow>
     (\<exists>p q. kLoanProposal s i = Some p \<and> kLoanProposal t = (kLoanProposal s)(p_id p \<mapsto> q) \<and> proceeds p q)"

lemma moves_to:
  "kLoanProposal s i = Some p \<Longrightarrow> kLoanProposal t = (kLoanProposal s)(p_id p \<mapsto> q) \<Longrightarrow> proceeds p q \<Longrightarrow> moves i s t"
  unfolding moves_def by blast

section \<open>Every operation on a stored proposal\<close>

lemma refreshed_stage:
  "p_phase (refreshed env p) = Voting \<Longrightarrow> stage_of p \<in> loan_stages \<Longrightarrow>
   stage_of (refreshed env p) = (Voting, Pending)"
  using pending_stages(1) [of "stage_of p"]
  by (auto simp: refreshed_def stage_of_def Let_def split: if_splits)

lemma refreshed_proceeds: "proceeds p (refreshed env p)"
proof -
  have "rtranclp loan_step (stage_of p) (stage_of (refreshed env p))" if "stage_of p \<in> loan_stages"
    using pending_stages(1) [OF that] from_editing decided_from_voting [of "(PhExpired, StExpired)"]
    by (auto simp: refreshed_def stage_of_def Let_def intro: rtranclp_trans)
  then show ?thesis by (simp add: proceeds_def refreshed_def Let_def)
qed

lemma ok_set_loan_proposal:
  "set_loan_proposal env p s = Ok u t \<Longrightarrow> kLoanProposal t = (kLoanProposal s)(p_id p \<mapsto> p) \<and> agree {FLoanProposal, FOpenProposals} s t"
  using writes_Ok [where m = "set_loan_proposal env p" and F = "{FLoanProposal, FOpenProposals}"]
  by (auto simp: writes_intros) (auto simp: set_loan_proposal_def ok_simps)

lemma ok_load_stored: "load_loan_proposal i s = Ok p t \<Longrightarrow> kLoanProposal s i = Some p"
  by (simp add: ok_simps)

lemma edit_moves: "edit_loan_proposal env who i a s = Ok u t \<Longrightarrow> moves i s t"
  by (auto simp: edit_loan_proposal_def ok_simps set_loan_proposal_def not_le proceeds_def stage_of_def
      intro!: moves_to)

lemma cancel_moves: "cancel_loan_proposal env who i s = Ok u t \<Longrightarrow> moves i s t"
  by (auto simp: cancel_loan_proposal_def ok_simps set_loan_proposal_def proceeds_def stage_of_def
      intro!: moves_to r_into_rtranclp cancel)

lemma refreshed_keeps [simp]:
  "p_id (refreshed env p) = p_id p" "p_borrower (refreshed env p) = p_borrower p"
  "p_amount (refreshed env p) = p_amount p" "p_editing_period_end (refreshed env p) = p_editing_period_end p"
  "p_voting_period (refreshed env p) = p_voting_period p" "p_created_at (refreshed env p) = p_created_at p"
  by (simp_all add: refreshed_def Let_def)

lemma expire_moves:
  assumes "expire_loan_proposal env i s = Ok u t"
  shows "kLoanProposal t = kLoanProposal s \<or> moves i s t"
proof -
  from assms obtain p where p: "kLoanProposal s i = Some p"
    and "t = s \<or> (\<exists>v w. set_loan_proposal env (refreshed env p) s = Ok v w \<and> kLoanProposal t = kLoanProposal w)"
    by (auto simp: expire_loan_proposal_def ok_simps split: if_splits)
  then show ?thesis
    using ok_set_loan_proposal refreshed_proceeds by (fastforce intro: moves_to)
qed

section \<open>The ballot\<close>

definition same_but_votes :: "loan_proposal \<Rightarrow> loan_proposal \<Rightarrow> bool" where
  "same_but_votes p q \<longleftrightarrow>
     (\<exists>x y n. q = p\<lparr>p_for_votes := x, p_against_votes := y, p_votes_cast := n\<rparr>)"

lemma same_but_votes_cast:
  "same_but_votes p (p\<lparr>p_for_votes := x, p_votes_cast := n\<rparr>)"
  "same_but_votes p (p\<lparr>p_against_votes := y, p_votes_cast := n\<rparr>)"
  unfolding same_but_votes_def
  by (rule exI [of _ x], rule exI [of _ "p_against_votes p"], rule exI [of _ n], simp)
    (rule exI [of _ "p_for_votes p"], rule exI [of _ y], rule exI [of _ n], simp)

lemma same_but_votes_keeps:
  "same_but_votes p q \<Longrightarrow> p_id q = p_id p \<and> p_borrower q = p_borrower p \<and> p_amount q = p_amount p \<and>
     p_created_at q = p_created_at p \<and> stage_of q = stage_of p"
  by (auto simp: same_but_votes_def stage_of_def)

lemma ok_cast_loan_vote:
  assumes "cast_loan_vote env v i b p s = Ok q t"
  shows "same_but_votes p q" and "kLoanVoted t = (kLoanVoted s)((i, v) \<mapsto> True)" and "agree {FLoanVoted, FEvents} s t"
proof -
  show "agree {FLoanVoted, FEvents} s t"
    using writes_Ok [where m = "cast_loan_vote env v i b p", OF _ assms] by (simp add: writes_intros)
  have "same_but_votes p q \<and> kLoanVoted t = (kLoanVoted s)((i, v) \<mapsto> True)"
    using assms
    by (cases b) (auto simp: cast_loan_vote_def ok_simps set_loan_voted_def same_but_votes_cast)
  then show "same_but_votes p q" "kLoanVoted t = (kLoanVoted s)((i, v) \<mapsto> True)" by auto
qed

text \<open>How a ballot ends: nothing decided, rejected, approved and waiting, or disbursed at once.\<close>

definition concludes :: "env \<Rightarrow> loan_proposal \<Rightarrow> loan_proposal \<Rightarrow> dao \<Rightarrow> dao \<Rightarrow> bool" where
  "concludes env p q s t \<longleftrightarrow>
     (q = p \<or> p_status p = Pending \<and> q = p\<lparr>p_status := Rejected, p_phase := PhExpired\<rparr>) \<and> agree {FEvents} s t \<or>
     p_status p = Pending \<and>
     (let p1 = p\<lparr>p_status := ApprovedPendingDisbursement, p_phase := PhExecuted\<rparr> in
      \<exists>s1. set_loan_proposal env p1 s = Ok () s1 \<and>
        (q = p1 \<and> (\<exists>s2. (s2 = s1 \<or> kMember s1 (p_borrower p) = None \<and> (\<exists>l. s2 = s1\<lparr>kLoan := (kLoan s1)(p_id p \<mapsto> l)\<rparr>))
                   \<and> agree {FEvents} s2 t) \<or>
         q = p1\<lparr>p_status := Approved\<rparr> \<and> approve_and_disburse env p1 s1 = Ok () t))"

lemma ok_conclude_loan_vote:
  assumes "conclude_loan_vote env n r p s = Ok q t"
  shows "concludes env p q s t"
proof (cases "p_for_votes p \<ge> r \<and> p_status p = Pending")
  case True
  define p1 where "p1 = p\<lparr>p_status := ApprovedPendingDisbursement, p_phase := PhExecuted\<rparr>"
  have id: "p_borrower p1 = p_borrower p" "p_id p1 = p_id p" by (simp_all add: p1_def)
  from True assms obtain s1 ok s2 where
    s1: "set_loan_proposal env p1 s = Ok () s1" "is_ok (approve_and_disburse env p1) s1 = Ok ok s2" and
    q: "if ok then q = p1\<lparr>p_status := Approved\<rparr> \<and> t = s2
        else q = p1 \<and> publish (Ev_loan_wait (p_id p1) (p_amount p1)) s2 = Ok () t"
    by (auto simp: conclude_loan_vote_def p1_def [symmetric] Let_def ok_simps split: if_splits)
  show ?thesis
  proof (cases ok)
    case True
    with s1 q \<open>_ \<and> p_status p = Pending\<close> show ?thesis
      by (auto simp: concludes_def Let_def p1_def [symmetric] ok_is_ok)
  next
    case False
    have "agree {FEvents} s2 t"
      using False q writes_Ok [where m = "publish (Ev_loan_wait (p_id p1) (p_amount p1))" and F = "{FEvents}"]
      by (auto simp: writes_intros)
    with False s1 q \<open>_ \<and> p_status p = Pending\<close> show ?thesis
      unfolding concludes_def Let_def p1_def [symmetric] id [symmetric]
      by (auto simp: ok_is_ok dest!: err_approve)
  qed
next
  case False
  then have "agree {FEvents} s t \<and>
    (q = p \<or> p_status p = Pending \<and> q = p\<lparr>p_status := Rejected, p_phase := PhExpired\<rparr>)"
    using assms writes_Ok [where m = "publish (Ev_loan_rej (p_id p) (p_for_votes p) (p_against_votes p))" and F = "{FEvents}"]
    by (auto simp: conclude_loan_vote_def Let_def ok_simps writes_intros split: if_splits)
  then show ?thesis by (simp add: concludes_def)
qed

definition ballots :: "env \<Rightarrow> address \<Rightarrow> u32 \<Rightarrow> bool \<Rightarrow> loan_proposal \<Rightarrow> loan_proposal \<Rightarrow> dao \<Rightarrow> dao \<Rightarrow> dao \<Rightarrow> dao \<Rightarrow> bool" where
  "ballots env v i b p q s s1 s2 t \<longleftrightarrow>
     (\<exists>p1. kLoanProposal s i = Some p \<and> p_phase (refreshed env p) = Voting \<and>
        env_now env < p_editing_period_end p + p_voting_period p \<and> v \<noteq> p_borrower p \<and>
        kLoanVoted s (i, v) = None \<and>
        cast_loan_vote env v i b (refreshed env p) s = Ok p1 s1 \<and>
        concludes env p1 q s1 s2 \<and> set_loan_proposal env q s2 = Ok () t)"

lemma ok_loan_vote:
  "vote_on_loan_proposal_internal env v i b s = Ok u t \<Longrightarrow> \<exists>p q s1 s2. ballots env v i b p q s s1 s2 t"
  unfolding ballots_def
  by (auto simp: vote_on_loan_proposal_internal_def ok_simps has_loan_voted_def not_le dest!: ok_conclude_loan_vote)
    blast+

lemma concludes_proposals:
  assumes "concludes env p q s t"
  shows "kLoanProposal t = kLoanProposal s \<or> (\<exists>p1. kLoanProposal t = (kLoanProposal s)(p_id p \<mapsto> p1))"
    and "p_id q = p_id p \<and> p_borrower q = p_borrower p \<and> p_amount q = p_amount p \<and> p_created_at q = p_created_at p"
    and "stage_of p = (Voting, Pending) \<Longrightarrow> rtranclp loan_step (Voting, Pending) (stage_of q)"
proof -
  have ap: "kLoanProposal t = kLoanProposal s1" if "approve_and_disburse env p1 s1 = Ok () t" for p1 s1
    using writes_Ok [where m = "approve_and_disburse env p1" and F = "{FLoan, FMember, FLedger, FEvents}", OF _ that]
    by (simp add: writes_intros agree_def all_fields)
  show "kLoanProposal t = kLoanProposal s \<or> (\<exists>p1. kLoanProposal t = (kLoanProposal s)(p_id p \<mapsto> p1))"
    using assms ap by (auto simp: concludes_def Let_def agree_def all_fields dest!: ok_set_loan_proposal)
  show "p_id q = p_id p \<and> p_borrower q = p_borrower p \<and> p_amount q = p_amount p \<and> p_created_at q = p_created_at p"
    using assms by (auto simp: concludes_def Let_def)
  show "rtranclp loan_step (Voting, Pending) (stage_of q)" if "stage_of p = (Voting, Pending)"
    using assms that by (intro decided_from_voting) (auto simp: concludes_def Let_def stage_of_def)
qed

lemma ballot_moves:
  assumes "ballots env v i b p q s s1 s2 t"
  shows "proceeds p q" and "kLoanProposal t = (kLoanProposal s)(p_id p \<mapsto> q)" and "moves i s t"
proof -
  from assms obtain p1 where
    p: "kLoanProposal s i = Some p" "p_phase (refreshed env p) = Voting" and
    cast: "cast_loan_vote env v i b (refreshed env p) s = Ok p1 s1" and
    con: "concludes env p1 q s1 s2" and
    set: "set_loan_proposal env q s2 = Ok () t"
    by (auto simp: ballots_def)
  have p1: "same_but_votes (refreshed env p) p1" "agree {FLoanVoted, FEvents} s s1"
    using ok_cast_loan_vote [OF cast] by auto
  then have same: "p_id p1 = p_id p" "p_borrower p1 = p_borrower p" "p_amount p1 = p_amount p"
    "p_created_at p1 = p_created_at p" "stage_of p1 = stage_of (refreshed env p)"
    using same_but_votes_keeps [OF p1(1)] by simp_all
  have q: "p_id q = p_id p1" "p_borrower q = p_borrower p1" "p_amount q = p_amount p1" "p_created_at q = p_created_at p1"
    using concludes_proposals(2) [OF con] by simp_all
  have "rtranclp loan_step (stage_of p) (stage_of q)" if st: "stage_of p \<in> loan_stages"
  proof -
    have v: "stage_of (refreshed env p) = (Voting, Pending)" using refreshed_stage [OF p(2) st] .
    have "rtranclp loan_step (stage_of p) (Voting, Pending)"
      using refreshed_proceeds [of p env] st v by (simp add: proceeds_def)
    moreover have "rtranclp loan_step (Voting, Pending) (stage_of q)"
      using concludes_proposals(3) [OF con] same v by simp
    ultimately show ?thesis by (rule rtranclp_trans)
  qed
  with same q show pq: "proceeds p q" by (simp add: proceeds_def)
  have "kLoanProposal s1 = kLoanProposal s" using p1(2) by (simp add: agree_def all_fields)
  with concludes_proposals(1) [OF con] ok_set_loan_proposal [OF set] same q
  show "kLoanProposal t = (kLoanProposal s)(p_id p \<mapsto> q)" by auto
  with p(1) pq show "moves i s t" by (blast intro: moves_to)
qed

section \<open>Member records are never removed\<close>

definition known :: "address \<Rightarrow> dao \<Rightarrow> bool" where
  "known who s \<longleftrightarrow> kMember s who \<noteq> None"

lemma known_depends: "depends {FMember} (known who)"
  by (rule dependsI) (simp add: known_def)

lemma known_outside: "writes (- {FMember}) m \<Longrightarrow> keeps (known who) m"
  by (rule keeps_frame [OF _ known_depends]) auto

lemma known_upd: "known who s \<Longrightarrow> kMember t = (kMember s)(a \<mapsto> m) \<Longrightarrow> known who t"
  by (simp add: known_def)

lemma approve_keeps_known: "keeps (known who) (approve_and_disburse env p)"
  by (rule keepsI) (auto dest!: ok_approve err_approve simp: disburses_def Let_def known_def)

lemmas ballots_keep_known = keeps_ballot [of "known who" for who, OF approve_keeps_known
    known_outside known_outside known_outside]

lemma seed_members_keep_known: "keeps (known who) (seed_members env caller ms)"
proof -
  have "keeps (known who) (seed_member m a)" for m a
    by (cases "m_status m = ActiveMember")
      (auto simp: seed_member_def Let_def set_member_def known_def intro!: keeps_intros)
  moreover have "keeps (known who) (set_members x)" "keeps (known who) (set_total_members n)"
    "keeps (known who) (set_active_members n)" "keeps (known who) (set_active_contributions k)" for x n k
    by (intro known_outside writes_intros; simp)+
  ultimately show ?thesis
    by (auto simp: seed_members_def require_seeding_open_def intro!: keeps_intros)
qed

interpretation known: stable "known who" "{FMember}" any_call
proof unfold_locales
  show "depends {FMember} (known who)" by (rule known_depends)
  show "FLedger \<notin> {FMember}" by simp
  have ballots: "keeps (known who) (vote_on_loan_proposal env v i b)"
    "keeps (known who) (vote_batch env v votes)" "keeps (known who) (disburse_approved_loan env i)"
    for env v i b votes
    by (intro ballots_keep_known writes_intros; simp)+
  have repay: "known who t" if "repay_loan_internal env v i x s = Ok u t" "known who s" for env v i x s u t
    using ok_repay_internal [OF that(1)] that(2)
    by (auto simp: repays_def Let_def relieve_def known_def split: option.splits if_splits)
  fix c env s r t
  assume c: "footprint c \<inter> {FMember} \<noteq> {}" "dispatch env c s = Ok r t" "known who s"
  from c show "known who t"
  proof (cases c)
    case (RegisterMember v)
    with c show ?thesis by (auto simp: ok_simps joins_def dest!: ok_register_member intro: known_upd)
  next
    case (ExitDao v)
    with c show ?thesis by (auto simp: ok_simps leaves_def dest!: ok_exit_dao intro: known_upd)
  next
    case (MarkLoanDefaulted i)
    with c obtain policy v where "defaults policy v s t" by (auto simp: ok_simps dest!: ok_mark_loan_defaulted)
    with c(3) show ?thesis by (auto simp: defaults_def Let_def known_def split: option.splits)
  qed (auto simp: ok_simps repay_loan_def repay_loan_partial_def repay_loan_in_asset_def
        dest: repay keepsD_Ok [OF ballots(1)] keepsD_Ok [OF ballots(2)] keepsD_Ok [OF ballots(3)]
          keepsD_Ok [OF seed_members_keep_known])
qed

definition grows :: "dao \<Rightarrow> dao \<Rightarrow> bool" where
  "grows s t \<longleftrightarrow> (\<forall>who. known who s \<longrightarrow> known who t)"

lemma dispatch_grows: "dispatch env c s = Ok r t \<Longrightarrow> grows s t"
  unfolding grows_def using known.dispatch_keeps [OF any_callI] by blast

lemma vote_grows: "vote_on_loan_proposal_internal env v i b s = Ok u t \<Longrightarrow> grows s t"
proof -
  have "keeps (known who) (vote_on_loan_proposal_internal env v i b)" for who
    by (intro ballots_keep_known writes_intros; simp)
  then show "grows s t" if "vote_on_loan_proposal_internal env v i b s = Ok u t"
    using that unfolding grows_def by (blast dest: keepsD_Ok)
qed

section \<open>Every call moves every proposal along the machine\<close>

definition proposals_ok :: "dao \<Rightarrow> bool" where
  "proposals_ok s \<longleftrightarrow>
     (\<forall>i p. kLoanProposal s i = Some p \<longrightarrow>
        p_id p = i \<and> i < get_proposal_count NextProposalId s \<and> stage_of p \<in> loan_stages \<and>
        0 < p_amount p \<and> known (p_borrower p) s)"

definition evolves :: "dao \<Rightarrow> dao \<Rightarrow> bool" where
  "evolves s t \<longleftrightarrow>
     proposals_ok t \<and>
     (\<forall>i p. kLoanProposal s i = Some p \<longrightarrow> (\<exists>q. kLoanProposal t i = Some q \<and> proceeds p q))"

lemma evolves_trans: "evolves s t \<Longrightarrow> evolves t u \<Longrightarrow> evolves s u"
  unfolding evolves_def by (meson proceeds_trans)

lemma evolves_frame:
  "proposals_ok s \<Longrightarrow> grows s t \<Longrightarrow> kLoanProposal t = kLoanProposal s \<Longrightarrow>
   get_proposal_count NextProposalId s \<le> get_proposal_count NextProposalId t \<Longrightarrow> evolves s t"
  by (fastforce simp: evolves_def proposals_ok_def grows_def intro: proceeds_refl)

lemma evolves_move:
  assumes "proposals_ok s" and "grows s t" and "moves i s t"
    and "get_proposal_count NextProposalId t = get_proposal_count NextProposalId s"
  shows "evolves s t"
proof -
  from assms(3) obtain p q where
    pq: "kLoanProposal s i = Some p" "kLoanProposal t = (kLoanProposal s)(p_id p \<mapsto> q)" "proceeds p q"
    by (auto simp: moves_def)
  with assms(1) have p: "p_id p = i" "stage_of p \<in> loan_stages" "0 < p_amount p" "i < get_proposal_count NextProposalId s"
    by (auto simp: proposals_ok_def)
  with pq have "stage_of q \<in> loan_stages" "p_id q = i" "0 < p_amount q" "p_borrower q = p_borrower p"
    using proceeds_stages by (auto simp: proceeds_def)
  with assms pq p show ?thesis
    by (auto simp: evolves_def proposals_ok_def grows_def intro: proceeds_refl)
qed

text \<open>A request stores a fresh proposal under the next id.\<close>

definition asks :: "env \<Rightarrow> address \<Rightarrow> i128 \<Rightarrow> u32 \<Rightarrow> loan_proposal \<Rightarrow> dao \<Rightarrow> dao \<Rightarrow> bool" where
  "asks env who amount i p s t \<longleftrightarrow>
     i = get_proposal_count NextProposalId s \<and> get_proposal_count NextProposalId t = i + 1 \<and>
     kLoanProposal t = (kLoanProposal s)(i \<mapsto> p) \<and>
     p_id p = i \<and> p_borrower p = who \<and> p_amount p = amount \<and> 0 < amount \<and>
     stage_of p = (Editing, Pending) \<and> p_for_votes p = 0 \<and> p_against_votes p = 0 \<and> p_votes_cast p = 0 \<and>
     p_created_at p = env_now env \<and> known who s \<and> kMember t = kMember s"

lemma ok_request_loan:
  "request_loan_in_asset env who amount asset cid s = Ok i t \<Longrightarrow> \<exists>p. asks env who amount i p s t"
  by (auto simp: request_loan_in_asset_def ok_simps accessor_defs asks_def stage_of_def not_le set_counter_def
      known_def get_proposal_count_def split: if_splits)

lemma evolves_ask: "proposals_ok s \<Longrightarrow> asks env who amount i p s t \<Longrightarrow> evolves s t"
  by (auto simp: evolves_def proposals_ok_def asks_def loan_stages_def known_def less_SucI intro: proceeds_refl)

lemma count_frame: "same FNextProposalId s t \<Longrightarrow> get_proposal_count NextProposalId t = get_proposal_count NextProposalId s"
  by (simp add: get_proposal_count_def)

lemma ok_disburse_approved:
  assumes "disburse_approved_loan env i s = Ok u t"
  shows "\<exists>p policy terms b l s1. kLoanProposal s i = Some p \<and> p_status p = ApprovedPendingDisbursement \<and>
           disburses env p policy terms b l s s1 \<and> set_loan_proposal env (p\<lparr>p_status := Approved\<rparr>) s1 = Ok () t"
  using assms by (fastforce simp: disburse_approved_loan_def ok_simps dest!: ok_approve)

lemma disburse_moves:
  assumes "disburse_approved_loan env i s = Ok u t" and "proposals_ok s"
  shows "moves i s t"
proof -
  from ok_disburse_approved [OF assms(1)] obtain p policy terms b l s1 where
    p: "kLoanProposal s i = Some p" "p_status p = ApprovedPendingDisbursement" and
    d: "disburses env p policy terms b l s s1" and
    t: "set_loan_proposal env (p\<lparr>p_status := Approved\<rparr>) s1 = Ok () t" by blast
  have "stage_of p \<in> loan_stages" using p(1) assms(2) by (auto simp: proposals_ok_def)
  from pending_stages(2) [OF this] have "stage_of p = (PhExecuted, ApprovedPendingDisbursement)"
    using p(2) by (simp add: stage_of_def)
  then have "proceeds p (p\<lparr>p_status := Approved\<rparr>)"
    by (auto simp: proceeds_def stage_of_def intro: disburse r_into_rtranclp)
  moreover have "kLoanProposal s1 = kLoanProposal s" using d by (auto simp: disburses_def Let_def)
  ultimately show ?thesis using p(1) ok_set_loan_proposal [OF t] by (auto intro: moves_to)
qed

lemma vote_evolves:
  assumes "proposals_ok s" and "vote_on_loan_proposal_internal env v i b s = Ok u t"
  shows "evolves s t"
proof -
  have "agree {FLoanVoted, FLoanProposal, FOpenProposals, FLoan, FMember, FLedger, FEvents} s t"
    using writes_Ok [OF writes_loan_vote [OF subset_refl] assms(2)] .
  then have "get_proposal_count NextProposalId t = get_proposal_count NextProposalId s"
    by (auto simp: agree_def all_fields intro: count_frame)
  moreover have "moves i s t" using ok_loan_vote [OF assms(2)] ballot_moves(3) by blast
  ultimately show ?thesis using evolves_move [OF assms(1) vote_grows [OF assms(2)]] by blast
qed

lemma batch_evolves:
  "proposals_ok s \<Longrightarrow>
   for_each votes (\<lambda>v. vote_on_loan_proposal_internal env who (pv_proposal_id v) (pv_vote v)) s = Ok u t \<Longrightarrow>
   evolves s t"
proof (induction votes arbitrary: s)
  case (Cons v votes)
  then obtain s1 where s1: "vote_on_loan_proposal_internal env who (pv_proposal_id v) (pv_vote v) s = Ok () s1"
    "for_each votes (\<lambda>v. vote_on_loan_proposal_internal env who (pv_proposal_id v) (pv_vote v)) s1 = Ok u t"
    by (auto simp: ok_simps)
  from vote_evolves [OF Cons.prems(1) s1(1)] have e: "evolves s s1" .
  then have "proposals_ok s1" by (simp add: evolves_def)
  from Cons.IH [OF this s1(2)] show ?case by (rule evolves_trans [OF e])
qed (auto simp: ok_simps grows_def intro: evolves_frame)

lemma raise_counter:
  "keeps (\<lambda>u. kLoanProposal u = ps \<and> n \<le> get_proposal_count NextProposalId u) (set_next_proposal_id_at_least m)"
  "keeps (\<lambda>u. kLoanProposal u = ps \<and> n \<le> get_proposal_count NextProposalId u) (set_next_treasury_id_at_least m)"
  by (auto intro!: keepsI simp: set_next_proposal_id_at_least_def set_next_treasury_id_at_least_def ok_simps
      err_simps set_counter_def get_proposal_count_def split: if_splits)

lemma seeding_evolves:
  assumes "proposals_ok s" and "seed_loans env who ls s = Ok u t \<or> seed_docs env who ds s = Ok u t"
  shows "evolves s t"
proof -
  have grow: "grows s t"
    using dispatch_grows [of env "SeedLoans who ls" s NoValue t] dispatch_grows [of env "SeedDocs who ds" s NoValue t] assms(2)
    by (auto simp: ok_simps)
  let ?P = "\<lambda>w. kLoanProposal w = kLoanProposal s \<and> get_proposal_count NextProposalId s \<le> get_proposal_count NextProposalId w"
  have out: "keeps ?P (set_loan l)" "keeps ?P (set_doc k i h)" for l k i h
    by (auto intro!: keepsI simp: set_loan_def set_doc_def ok_simps err_simps get_proposal_count_def)
  have "keeps ?P (seed_doc d)" for d
    by (cases "sde_kind d") (auto simp: seed_doc_def intro!: keeps_intros out raise_counter)
  then have "keeps ?P (seed_loans env who ls)" "keeps ?P (seed_docs env who ds)"
    by (auto simp: seed_loans_def seed_docs_def require_seeding_open_def intro!: keeps_intros out raise_counter)
  then have "?P t" using assms(2) by (auto dest: keepsD_Ok)
  then show ?thesis using evolves_frame [OF assms(1) grow] by blast
qed

lemma dispatch_evolves:
  assumes "proposals_ok s" and "dispatch env c s = Ok r t"
  shows "evolves s t"
proof -
  note run = assms(2)
  have ag: "agree (footprint c) s t" by (rule writes_Ok [OF writes_dispatch run])
  have count: "FNextProposalId \<notin> footprint c \<Longrightarrow> get_proposal_count NextProposalId t = get_proposal_count NextProposalId s"
    using agreeD [OF ag] count_frame by blast
  have move: "moves i s t \<Longrightarrow> FNextProposalId \<notin> footprint c \<Longrightarrow> evolves s t" for i
    using evolves_move [OF assms(1) dispatch_grows [OF run]] count by blast
  have frame: "kLoanProposal t = kLoanProposal s \<Longrightarrow> FNextProposalId \<notin> footprint c \<Longrightarrow> evolves s t"
    using evolves_frame [OF assms(1) dispatch_grows [OF run]] count by simp
  have rest: "FLoanProposal \<notin> footprint c \<Longrightarrow> FNextProposalId \<notin> footprint c \<Longrightarrow> evolves s t"
    using agreeD [OF ag, of FLoanProposal] frame by simp
  show ?thesis
  proof (cases c)
    case (RequestLoan who a cid)
    with run show ?thesis
      by (auto simp: ok_simps request_loan_def dest!: ok_request_loan intro: evolves_ask [OF assms(1)])
  next
    case (RequestLoanInAsset who a asset cid)
    with run show ?thesis by (auto simp: ok_simps dest!: ok_request_loan intro: evolves_ask [OF assms(1)])
  next
    case (EditLoanProposal who i a)
    with run show ?thesis by (intro move [of i]) (auto simp: ok_simps dest: edit_moves)
  next
    case (CancelLoanProposal who i)
    with run show ?thesis by (intro move [of i]) (auto simp: ok_simps dest: cancel_moves)
  next
    case (ExpireLoanProposal i)
    with run show ?thesis by (auto simp: ok_simps dest!: expire_moves intro: move frame)
  next
    case (VoteOnLoanProposal who i b)
    with run show ?thesis by (auto simp: ok_simps vote_on_loan_proposal_def intro: vote_evolves [OF assms(1)])
  next
    case (VoteBatch who votes)
    with run show ?thesis by (auto simp: ok_simps vote_batch_def intro: batch_evolves [OF assms(1)])
  next
    case (DisburseApprovedLoan i)
    with run show ?thesis by (intro move [of i]) (auto simp: ok_simps dest: disburse_moves [OF _ assms(1)])
  next
    case (SeedLoans who ls)
    with run show ?thesis by (auto simp: ok_simps intro: seeding_evolves [OF assms(1)])
  next
    case (SeedDocs who ds)
    with run show ?thesis by (auto simp: ok_simps intro: seeding_evolves [OF assms(1)])
  qed (auto intro!: rest)
qed

section \<open>Every run\<close>

interpretation proposals: invariant proposals_ok "{FLoanProposal, FNextProposalId, FMember}" any_call
proof unfold_locales
  show "depends {FLoanProposal, FNextProposalId, FMember} proposals_ok"
    by (rule dependsI) (simp add: proposals_ok_def get_proposal_count_def known_def)
  show "FLedger \<notin> {FLoanProposal, FNextProposalId, FMember}" by simp
  show "proposals_ok (fresh_dao l)" for l by (simp add: proposals_ok_def)
  show "proposals_ok t" if "dispatch env c s = Ok r t" "proposals_ok s" for c env s r t
    using dispatch_evolves [OF that(2,1)] by (simp add: evolves_def)
qed

definition pursued :: "u32 \<Rightarrow> loan_proposal \<Rightarrow> dao \<Rightarrow> bool" where
  "pursued i p s \<longleftrightarrow> proposals_ok s \<and> (\<exists>q. kLoanProposal s i = Some q \<and> proceeds p q)"

interpretation pursued: stable "pursued i p" "{FLoanProposal, FNextProposalId, FMember}" any_call
proof unfold_locales
  show "depends {FLoanProposal, FNextProposalId, FMember} (pursued i p)"
    by (rule dependsI) (simp add: pursued_def proposals_ok_def get_proposal_count_def known_def)
  show "FLedger \<notin> {FLoanProposal, FNextProposalId, FMember}" by simp
  show "pursued i p t" if "dispatch env c s = Ok r t" "pursued i p s" for c env s r t
    using dispatch_evolves [OF _ that(1)] that(2)
    unfolding pursued_def evolves_def by (metis proceeds_trans)
qed

section \<open>Properties\<close>

text \<open>
  C6: whatever calls are made, a stored loan proposal stays under its id, keeps its borrower and
  its creation time, and only moves along the machine.
\<close>

theorem loan_proposals_follow_the_machine:
  assumes "reachable any_call s" and "kLoanProposal s i = Some p"
  shows "\<exists>q. kLoanProposal (run_calls ecs s) i = Some q \<and>
           p_id q = i \<and> p_borrower q = p_borrower p \<and> p_created_at q = p_created_at p \<and>
           rtranclp loan_step (stage_of p) (stage_of q)"
proof -
  have ok: "proposals_ok s" by (rule proposals.reachable_holds [OF assms(1)])
  have "pursued i p (run_calls ecs s)"
    by (rule pursued.run_keeps) (use ok assms(2) proceeds_refl in \<open>auto simp: pursued_def\<close>)
  then show ?thesis
    using ok assms(2) by (auto simp: pursued_def proposals_ok_def proceeds_def)
qed

theorem loan_proposals_follow_the_machine_witness:
  "rtranclp loan_step (Editing, Pending) (PhExecuted, Approved)"
proof -
  have "reachable any_call asked"
    unfolding asked_def by (intro reachable.call reachable_peopled) simp_all
  moreover have "kLoanProposal asked 0 = Some asked_proposal" by (simp add: asked_eq)
  moreover have "run_calls [(host 259300, VoteOnLoanProposal bob 0 True), (host 259300, VoteOnLoanProposal carol 0 True)] asked = lent"
    by (simp add: lent_def backed_def)
  ultimately show ?thesis
    using loan_proposals_follow_the_machine [of asked 0 asked_proposal
        "[(host 259300, VoteOnLoanProposal bob 0 True), (host 259300, VoteOnLoanProposal carol 0 True)]"]
    by (auto simp: lent_eq stage_of_def asked_proposal_def)
qed

text \<open>An approved, rejected, expired or cancelled loan proposal is decided for good.\<close>

theorem decided_loans_stay_decided:
  assumes "reachable any_call s" and "kLoanProposal s i = Some p"
    and "p_status p \<in> {Approved, Rejected, StExpired, Cancelled}"
  shows "\<exists>q. kLoanProposal (run_calls ecs s) i = Some q \<and> p_status q = p_status p \<and> p_phase q = p_phase p"
proof -
  have ok: "proposals_ok s" by (rule proposals.reachable_holds [OF assms(1)])
  have "pursued i p (run_calls ecs s)"
    by (rule pursued.run_keeps) (use ok assms(2) proceeds_refl in \<open>auto simp: pursued_def\<close>)
  then obtain q where q: "kLoanProposal (run_calls ecs s) i = Some q" "proceeds p q" by (auto simp: pursued_def)
  then have "rtranclp loan_step (stage_of p) (stage_of q)"
    using ok assms(2) by (auto simp: proposals_ok_def proceeds_def)
  from loan_steps_final [OF this] assms(3) q(1) show ?thesis
    by (auto simp: final_stage_def stage_of_def)
qed

theorem decided_loans_stay_decided_witness:
  "\<exists>q. kLoanProposal (run_calls [(host 900000, DisburseApprovedLoan 0), (host 900000, ExpireLoanProposal 0)] lent) 0 = Some q \<and>
       p_status q = Approved"
proof -
  obtain p where "kLoanProposal lent 0 = Some p" "p_status p = Approved" by (simp add: lent_eq)
  with decided_loans_stay_decided [OF reachable_lent_any this(1),
      of "[(host 900000, DisburseApprovedLoan 0), (host 900000, ExpireLoanProposal 0)]"]
  show ?thesis by auto
qed

end
