(* ===== verification/LoanBook.thy ===== *)
theory LoanBook
  imports Lending
begin

text \<open>
  The loan book of an unseeded contract: a loan exists exactly for an approved proposal, its
  balance stays between zero and what is owed, and it is closed exactly when the balance is paid.
  Every call leaves a loan as it is, collects on it, or closes it.
\<close>

section \<open>Sound loans\<close>

definition sound_loan :: "loan \<Rightarrow> bool" where
  "sound_loan l \<longleftrightarrow>
     0 < l_principal l \<and> l_principal l \<le> l_total_repayment l \<and>
     0 \<le> l_amount_repaid l \<and> l_amount_repaid l \<le> l_total_repayment l \<and>
     (l_status l = Repaid \<longleftrightarrow> l_amount_repaid l = l_total_repayment l)"

lemma ceil_bps_nonneg: "0 \<le> amount \<Longrightarrow> 0 \<le> rate \<Longrightarrow> ceil_bps amount rate = Some x \<Longrightarrow> 0 \<le> x"
proof -
  assume a: "0 \<le> amount" "0 \<le> rate" "ceil_bps amount rate = Some x"
  then have "0 \<le> amount * rate + 9999" by simp
  with a(3) show ?thesis
    by (auto simp: ceil_bps_def checked_Some sdiv_nonneg pos_imp_zdiv_nonneg_iff split: Option.bind_splits)
qed

lemma penalty_nonneg: "0 \<le> penalty_due env s l"
  using ceil_bps_nonneg [of "l_total_repayment l - l_amount_repaid l"
      "int (pol_default_penalty_bps (the (kPolicy s)))"]
  by (auto simp: penalty_due_def overdue_penalty_def unwrap_or_def split: option.splits)

lemma settled_sound:
  "sound_loan l \<Longrightarrow> l_status l = LoanActive \<Longrightarrow> sound_loan (settled env s l) \<and> 0 < owed (settled env s l)"
  using penalty_nonneg [of env s l] by (auto simp: sound_loan_def settled_def owed_def)

lemma payment_sound:
  "sound_loan l \<Longrightarrow> l_status l = LoanActive \<Longrightarrow> 0 < paid \<Longrightarrow> paid \<le> owed l \<Longrightarrow> sound_loan (after_payment l paid)"
  by (auto simp: sound_loan_def after_payment_def owed_def)

lemma default_sound: "sound_loan l \<Longrightarrow> l_status l = LoanActive \<Longrightarrow> sound_loan (l\<lparr>l_status := Defaulted\<rparr>)"
  by (simp add: sound_loan_def)

lemma quote_covers_the_amount:
  assumes "quote_terms amount treasury s = Ok terms t" and "0 < amount" and "amount \<le> i128_MAX"
  shows "amount \<le> lt_total_repayment terms"
proof -
  from assms(1) obtain rate interest v w where
    i: "quote_interest amount rate v = Ok interest w" and
    t: "lt_total_repayment terms = unwrap_or (checked_add amount interest) i128_MAX"
    by (auto simp: quote_terms_def ok_simps)
  have "0 \<le> interest"
    using i assms ceil_bps_nonneg [of amount rate]
    by (auto simp: quote_interest_def ok_simps unwrap_or_def split: if_splits option.splits)
  with t assms show ?thesis by (auto simp: checked_add_def checked_i128_def unwrap_or_def)
qed

lemma disbursed_sound:
  assumes "disburses env p policy terms b lg s t" and "0 < p_amount p"
  shows "sound_loan (disbursed_loan env p terms)"
proof -
  from assms(1) obtain treasury where
    q: "quote_terms (p_amount p) treasury s = Ok terms s" and
    cap: "in_i128 (treasury * int (pol_max_loan_to_treasury_ratio policy))"
      "p_amount p \<le> (treasury * int (pol_max_loan_to_treasury_ratio policy)) sdiv 10000"
    by (auto simp: disburses_def Let_def returns_def)
  define v where "v = treasury * int (pol_max_loan_to_treasury_ratio policy)"
  have "p_amount p \<le> i128_MAX"
  proof (cases "0 \<le> v")
    case True
    then have "v sdiv 10000 \<le> v" by (simp add: sdiv_nonneg)
    with cap show ?thesis by (simp add: v_def [symmetric] in_i128_def)
  next
    case False
    then have "v sdiv 10000 \<le> 0" by (simp add: signed_divide_int_def sgn_if pos_imp_zdiv_nonneg_iff)
    with cap assms(2) show ?thesis by (simp add: v_def [symmetric])
  qed
  from quote_covers_the_amount [OF q assms(2) this] assms(2) show ?thesis
    by (simp add: sound_loan_def disbursed_loan_def)
qed

section \<open>The book\<close>

text \<open>Seeding writes loans of any shape, so the book is stated for contracts that are not seeded.\<close>

definition unseeded :: "call \<Rightarrow> bool" where
  "unseeded c \<longleftrightarrow> (case c of SeedLoans _ _ \<Rightarrow> False | _ \<Rightarrow> True)"

definition approved_in :: "(u32 \<rightharpoonup> loan_proposal) \<Rightarrow> u32 \<Rightarrow> bool" where
  "approved_in ps i \<longleftrightarrow> (\<exists>p. ps i = Some p \<and> p_status p = Approved)"

definition loans_ok :: "dao \<Rightarrow> bool" where
  "loans_ok s \<longleftrightarrow>
     proposals_ok s \<and>
     (\<forall>i. kLoan s i \<noteq> None \<longleftrightarrow> approved_in (kLoanProposal s) i) \<and>
     (\<forall>i l p. kLoan s i = Some l \<longrightarrow> kLoanProposal s i = Some p \<longrightarrow>
        l_id l = i \<and> sound_loan l \<and> l_borrower l = p_borrower p)"

text \<open>A loan growing older: its identity stays, its balances only grow, and a closed loan is fixed.\<close>

definition ages :: "loan \<Rightarrow> loan \<Rightarrow> bool" where
  "ages l l' \<longleftrightarrow>
     l_id l' = l_id l \<and> l_borrower l' = l_borrower l \<and> l_start_time l' = l_start_time l \<and>
     l_due_time l' = l_due_time l \<and> l_amount_repaid l \<le> l_amount_repaid l' \<and>
     l_total_repayment l \<le> l_total_repayment l' \<and> (l_status l \<noteq> LoanActive \<longrightarrow> l' = l)"

lemma ages_refl: "ages l l"
  by (simp add: ages_def)

lemma ages_trans: "ages l l' \<Longrightarrow> ages l' l'' \<Longrightarrow> ages l l''"
  unfolding ages_def by (cases "l_status l = LoanActive") auto

lemma ages_payment: "l_status l = LoanActive \<Longrightarrow> 0 < paid \<Longrightarrow> ages l (after_payment (settled env s l) paid)"
  using penalty_nonneg [of env s l] by (simp add: ages_def after_payment_def settled_def)

lemma ages_default: "l_status l = LoanActive \<Longrightarrow> ages l (l\<lparr>l_status := Defaulted\<rparr>)"
  by (simp add: ages_def)

definition matures :: "dao \<Rightarrow> dao \<Rightarrow> bool" where
  "matures s t \<longleftrightarrow>
     loans_ok t \<and> (\<forall>i l. kLoan s i = Some l \<longrightarrow> (\<exists>l'. kLoan t i = Some l' \<and> ages l l'))"

lemma matures_trans: "matures s t \<Longrightarrow> matures t u \<Longrightarrow> matures s u"
  unfolding matures_def by (meson ages_trans)

text \<open>An approved proposal of the earlier state is still approved, with the same borrower.\<close>

lemma evolves_approved:
  assumes "evolves s t" and "proposals_ok s" and "kLoanProposal s i = Some p" and "p_status p = Approved"
  shows "\<exists>q. kLoanProposal t i = Some q \<and> p_status q = Approved \<and> p_borrower q = p_borrower p"
proof -
  from assms obtain q where q: "kLoanProposal t i = Some q" "proceeds p q" by (auto simp: evolves_def)
  have "rtranclp loan_step (stage_of p) (stage_of q)"
    using assms(2,3) q(2) by (auto simp: proposals_ok_def proceeds_def)
  from loan_steps_final [OF this] assms(4) q show ?thesis
    by (auto simp: final_stage_def stage_of_def proceeds_def)
qed

lemma matures_update:
  assumes "loans_ok s" and "evolves s t"
    and quiet: "\<And>j. approved_in (kLoanProposal t) j \<Longrightarrow> approved_in (kLoanProposal s) j"
    and loans: "kLoan t = kLoan s \<or>
      (\<exists>l l'. kLoan s i = Some l \<and> kLoan t = (kLoan s)(i \<mapsto> l') \<and> ages l l' \<and> sound_loan l')"
  shows "matures s t"
proof -
  have ok: "proposals_ok s" "proposals_ok t" using assms(1,2) by (auto simp: loans_ok_def evolves_def)
  have dom: "kLoan t j \<noteq> None \<longleftrightarrow> kLoan s j \<noteq> None" for j
    using loans by (auto split: if_splits)
  have still: "approved_in (kLoanProposal s) j \<Longrightarrow> approved_in (kLoanProposal t) j" for j
    using evolves_approved [OF assms(2) ok(1)] by (fastforce simp: approved_in_def)
  have old: "\<exists>l. kLoan s j = Some l \<and> ages l l' \<and> (sound_loan l \<longrightarrow> sound_loan l')" if "kLoan t j = Some l'" for j l'
    using loans that ages_refl by (auto split: if_splits)
  have law: "l_id l' = j \<and> sound_loan l' \<and> l_borrower l' = p_borrower q"
    if t: "kLoan t j = Some l'" "kLoanProposal t j = Some q" for j l' q
  proof -
    from old [OF t(1)] obtain l where l: "kLoan s j = Some l" "ages l l'" "sound_loan l \<longrightarrow> sound_loan l'" by blast
    with assms(1) obtain p where p: "kLoanProposal s j = Some p" "p_status p = Approved"
      by (fastforce simp: loans_ok_def approved_in_def)
    with l(1) assms(1) have "l_id l = j" "sound_loan l" "l_borrower l = p_borrower p"
      by (auto simp: loans_ok_def)
    moreover have "p_borrower q = p_borrower p"
      using evolves_approved [OF assms(2) ok(1) p] t(2) by auto
    ultimately show ?thesis using l by (simp add: ages_def)
  qed
  have "\<exists>l'. kLoan t j = Some l' \<and> ages l l'" if "kLoan s j = Some l" for j l
    using loans that ages_refl by (auto split: if_splits)
  moreover have "loans_ok t"
    using assms(1) ok dom still quiet law unfolding loans_ok_def by blast
  ultimately show ?thesis by (simp add: matures_def)
qed

lemma matures_lend:
  assumes "loans_ok s" and "evolves s t"
    and p: "kLoanProposal s i = Some p" "p_status p \<noteq> Approved"
    and q: "kLoanProposal t = (kLoanProposal s)(i \<mapsto> q)" "p_status q = Approved"
    and l: "kLoan t = (kLoan s)(i \<mapsto> l)" "l_id l = i" "sound_loan l" "l_borrower l = p_borrower q"
  shows "matures s t"
proof -
  have "\<not> approved_in (kLoanProposal s) i" using p by (simp add: approved_in_def)
  then have none: "kLoan s i = None" using assms(1) by (auto simp: loans_ok_def)
  have ok: "proposals_ok t" using assms(2) by (simp add: evolves_def)
  have "approved_in (kLoanProposal t) j \<longleftrightarrow> j = i \<or> approved_in (kLoanProposal s) j" for j
    using q by (auto simp: approved_in_def)
  then have "loans_ok t"
    using assms(1) ok q l by (auto simp: loans_ok_def)
  moreover have "\<exists>l'. kLoan t j = Some l' \<and> ages k l'" if "kLoan s j = Some k" for j k
    using l(1) none that ages_refl by auto
  ultimately show ?thesis by (simp add: matures_def)
qed

section \<open>Who approves\<close>

definition approves :: "call \<Rightarrow> bool" where
  "approves c \<longleftrightarrow> (case c of VoteOnLoanProposal _ _ _ \<Rightarrow> True | VoteBatch _ _ \<Rightarrow> True
     | DisburseApprovedLoan _ \<Rightarrow> True | _ \<Rightarrow> False)"

definition quietly :: "u32 \<Rightarrow> dao \<Rightarrow> dao \<Rightarrow> bool" where
  "quietly i s t \<longleftrightarrow>
     (\<exists>p q. kLoanProposal s i = Some p \<and> kLoanProposal t = (kLoanProposal s)(p_id p \<mapsto> q) \<and>
        (p_status q = Approved \<longrightarrow> p_status p = Approved))"

lemma quietly_to:
  "kLoanProposal s i = Some p \<Longrightarrow> kLoanProposal t = (kLoanProposal s)(p_id p \<mapsto> q) \<Longrightarrow>
   (p_status q = Approved \<Longrightarrow> p_status p = Approved) \<Longrightarrow> quietly i s t"
  unfolding quietly_def by blast

lemma quietly_approves_none:
  "proposals_ok s \<Longrightarrow> quietly i s t \<Longrightarrow> approved_in (kLoanProposal t) j \<Longrightarrow> approved_in (kLoanProposal s) j"
  by (auto simp: quietly_def proposals_ok_def approved_in_def split: if_splits)

lemma refreshed_approved: "p_status (refreshed env p) = Approved \<longleftrightarrow> p_status p = Approved"
  by (auto simp: refreshed_def Let_def)

lemma only_ballots_approve:
  assumes "proposals_ok s" and "dispatch env c s = Ok r t" and "\<not> approves c"
    and "approved_in (kLoanProposal t) j"
  shows "approved_in (kLoanProposal s) j"
proof -
  note run = assms(2)
  have ask: "approved_in (kLoanProposal s) j" if "asks env w a i p s t" for w a i p
    using that assms(4) by (auto simp: asks_def approved_in_def stage_of_def split: if_splits)
  have "FLoanProposal \<notin> footprint c \<Longrightarrow> kLoanProposal t = kLoanProposal s"
    using agreeD [OF writes_Ok [OF writes_dispatch run]] by fastforce
  then have rest: "FLoanProposal \<notin> footprint c \<Longrightarrow> approved_in (kLoanProposal s) j"
    using assms(4) by simp
  show ?thesis
  proof (cases c)
    case (RequestLoan who a cid)
    with run show ?thesis by (auto simp: ok_simps request_loan_def dest!: ok_request_loan intro: ask)
  next
    case (RequestLoanInAsset who a asset cid)
    with run show ?thesis by (auto simp: ok_simps dest!: ok_request_loan intro: ask)
  next
    case (EditLoanProposal who i a)
    with run have "quietly i s t"
      by (auto simp: ok_simps edit_loan_proposal_def set_loan_proposal_def intro!: quietly_to)
    then show ?thesis using quietly_approves_none [OF assms(1)] assms(4) by blast
  next
    case (CancelLoanProposal who i)
    with run have "quietly i s t"
      by (auto simp: ok_simps cancel_loan_proposal_def set_loan_proposal_def intro!: quietly_to)
    then show ?thesis using quietly_approves_none [OF assms(1)] assms(4) by blast
  next
    case (ExpireLoanProposal i)
    with run obtain p where p: "kLoanProposal s i = Some p"
      and "t = s \<or> (\<exists>v w. set_loan_proposal env (refreshed env p) s = Ok v w \<and> kLoanProposal t = kLoanProposal w)"
      by (auto simp: expire_loan_proposal_def ok_simps split: if_splits)
    then have "kLoanProposal t = kLoanProposal s \<or> quietly i s t"
      using ok_set_loan_proposal refreshed_approved by (fastforce intro: quietly_to)
    then show ?thesis using quietly_approves_none [OF assms(1)] assms(4) by auto
  qed (use assms(3) in \<open>auto simp: approves_def intro!: rest\<close>)
qed

text \<open>A ballot that ends in an approval records a sound loan for it; any other leaves the book alone.\<close>

lemma settled_terms:
  assumes "approve_and_disburse env p s = Ok u t" and "0 < p_amount p"
  shows "\<exists>l. kLoan t = (kLoan s)(p_id p \<mapsto> l) \<and> l_id l = p_id p \<and> sound_loan l \<and> l_borrower l = p_borrower p"
proof -
  from ok_approve [OF assms(1)] obtain policy terms b lg where d: "disburses env p policy terms b lg s t" by blast
  then have "kLoan t = (kLoan s)(p_id p \<mapsto> disbursed_loan env p terms)" by (auto simp: disburses_def Let_def)
  with disbursed_sound [OF d assms(2)] show ?thesis by (auto simp: disbursed_loan_def)
qed

lemma concludes_lends:
  assumes "concludes env p q s t" and "known (p_borrower p) s" and "0 < p_amount p" and "p_status p = Pending"
  shows "kLoan t = kLoan s \<and> p_status q \<noteq> Approved \<or>
    p_status q = Approved \<and> (\<exists>l. kLoan t = (kLoan s)(p_id p \<mapsto> l) \<and> l_id l = p_id p \<and> sound_loan l \<and> l_borrower l = p_borrower p)"
proof (cases "p_status q = Approved")
  case False
  have "kLoan u = kLoan s" if "set_loan_proposal env p1 s = Ok () u" for p1 u
    using ok_set_loan_proposal [OF that] by (simp add: agree_def all_fields)
  moreover have "kMember u = kMember s" if "set_loan_proposal env p1 s = Ok () u" for p1 u
    using ok_set_loan_proposal [OF that] by (simp add: agree_def all_fields)
  ultimately have "kLoan t = kLoan s"
    using assms(1,2) False
    by (auto simp: concludes_def Let_def agree_def all_fields known_def)
  with False show ?thesis by simp
next
  case True
  define p1 where "p1 = p\<lparr>p_status := ApprovedPendingDisbursement, p_phase := PhExecuted\<rparr>"
  from True assms(1,4) obtain s1 where
    s1: "set_loan_proposal env p1 s = Ok () s1" "approve_and_disburse env p1 s1 = Ok () t"
    by (auto simp: concludes_def Let_def p1_def)
  have "kLoan s1 = kLoan s" using ok_set_loan_proposal [OF s1(1)] by (simp add: agree_def all_fields)
  with settled_terms [OF s1(2)] assms(3) True show ?thesis by (simp add: p1_def)
qed

lemma vote_matures:
  assumes "loans_ok s" and "vote_on_loan_proposal_internal env v i b s = Ok u t"
  shows "matures s t"
proof -
  have ok: "proposals_ok s" using assms(1) by (simp add: loans_ok_def)
  note ev = vote_evolves [OF ok assms(2)]
  obtain p q s1 s2 where bal: "ballots env v i b p q s s1 s2 t" using ok_loan_vote [OF assms(2)] by blast
  then obtain p1 where
    p: "kLoanProposal s i = Some p" "p_phase (refreshed env p) = Voting" and
    cast: "cast_loan_vote env v i b (refreshed env p) s = Ok p1 s1" and
    con: "concludes env p1 q s1 s2" and set: "set_loan_proposal env q s2 = Ok () t"
    by (auto simp: ballots_def)
  from p ok have facts: "p_id p = i" "0 < p_amount p" "known (p_borrower p) s" "stage_of p \<in> loan_stages"
    by (auto simp: proposals_ok_def)
  have p1: "p_id p1 = i" "p_borrower p1 = p_borrower p" "p_amount p1 = p_amount p" "stage_of p1 = (Voting, Pending)"
    using same_but_votes_keeps [OF ok_cast_loan_vote(1) [OF cast]] refreshed_stage [OF p(2) facts(4)] facts(1)
    by simp_all
  have s1: "kLoan s1 = kLoan s" "kMember s1 = kMember s"
    using ok_cast_loan_vote(3) [OF cast] by (simp_all add: agree_def all_fields)
  have t: "kLoan t = kLoan s2" using ok_set_loan_proposal [OF set] by (simp add: agree_def all_fields)
  have upd: "kLoanProposal t = (kLoanProposal s)(i \<mapsto> q)" using ballot_moves(2) [OF bal] facts(1) by simp
  have "p_status (refreshed env p) = Pending" using refreshed_stage [OF p(2) facts(4)] by (simp add: stage_of_def)
  then have open_: "p_status p \<noteq> Approved" using refreshed_approved [of env p] by simp
  have qb: "p_borrower q = p_borrower p" using concludes_proposals(2) [OF con] p1 by simp
  have "known (p_borrower p1) s1" using facts p1 s1 by (simp add: known_def)
  from concludes_lends [OF con this] p1 facts s1 t have
    "kLoan t = kLoan s \<and> p_status q \<noteq> Approved \<or>
     p_status q = Approved \<and> (\<exists>l. kLoan t = (kLoan s)(i \<mapsto> l) \<and> l_id l = i \<and> sound_loan l \<and> l_borrower l = p_borrower p)"
    by (simp add: stage_of_def)
  then show ?thesis
  proof
    assume a: "kLoan t = kLoan s \<and> p_status q \<noteq> Approved"
    have "quietly i s t" using p(1) upd facts(1) a by (auto intro: quietly_to)
    with a show ?thesis by (intro matures_update [OF assms(1) ev]) (auto dest: quietly_approves_none [OF ok])
  next
    assume "p_status q = Approved \<and> (\<exists>l. kLoan t = (kLoan s)(i \<mapsto> l) \<and> l_id l = i \<and> sound_loan l \<and> l_borrower l = p_borrower p)"
    with p(1) open_ upd qb show ?thesis by (auto intro: matures_lend [OF assms(1) ev])
  qed
qed

lemma matures_refl: "loans_ok s \<Longrightarrow> matures s s"
  using ages_refl by (auto simp: matures_def)

lemma batch_matures:
  "loans_ok s \<Longrightarrow>
   for_each votes (\<lambda>v. vote_on_loan_proposal_internal env who (pv_proposal_id v) (pv_vote v)) s = Ok u t \<Longrightarrow>
   matures s t"
proof (induction votes arbitrary: s)
  case (Cons v votes)
  then obtain s1 where s1: "vote_on_loan_proposal_internal env who (pv_proposal_id v) (pv_vote v) s = Ok () s1"
    "for_each votes (\<lambda>v. vote_on_loan_proposal_internal env who (pv_proposal_id v) (pv_vote v)) s1 = Ok u t"
    by (auto simp: ok_simps)
  from vote_matures [OF Cons.prems(1) s1(1)] have m: "matures s s1" .
  then have "loans_ok s1" by (simp add: matures_def)
  from Cons.IH [OF this s1(2)] show ?case by (rule matures_trans [OF m])
qed (auto simp: ok_simps intro: matures_refl)

lemma disburse_matures:
  assumes "loans_ok s" and "disburse_approved_loan env i s = Ok u t" and "evolves s t"
  shows "matures s t"
proof -
  from ok_disburse_approved [OF assms(2)] obtain p policy terms b l s1 where
    p: "kLoanProposal s i = Some p" "p_status p = ApprovedPendingDisbursement" and
    d: "disburses env p policy terms b l s s1" and
    t: "set_loan_proposal env (p\<lparr>p_status := Approved\<rparr>) s1 = Ok () t" by blast
  have pi: "p_id p = i" "0 < p_amount p" using assms(1) p(1) by (auto simp: loans_ok_def proposals_ok_def)
  have s1: "kLoan s1 = (kLoan s)(i \<mapsto> disbursed_loan env p terms)" "kLoanProposal s1 = kLoanProposal s"
    using d pi by (auto simp: disburses_def Let_def)
  have "kLoan t = kLoan s1" "kLoanProposal t = (kLoanProposal s)(i \<mapsto> p\<lparr>p_status := Approved\<rparr>)"
    using ok_set_loan_proposal [OF t] s1 pi by (simp_all add: agree_def all_fields)
  with s1 p pi disbursed_sound [OF d pi(2)] show ?thesis
    by (intro matures_lend [OF assms(1,3) p(1), where q = "p\<lparr>p_status := Approved\<rparr>" and
          l = "disbursed_loan env p terms"]) (simp_all add: disbursed_loan_def)
qed

lemma repay_matures:
  assumes "loans_ok s" and "repay_loan_internal env who i a s = Ok u t" and "evolves s t"
    and "kLoanProposal t = kLoanProposal s"
  shows "matures s t"
proof -
  from ok_repay_internal [OF assms(2)] obtain l paid where "repays env who i a l paid s t" by blast
  then have l: "kLoan s i = Some l" "l_status l = LoanActive" "0 < paid" "paid \<le> owed (settled env s l)"
    "kLoan t = (kLoan s)(l_id l \<mapsto> after_payment (settled env s l) paid)"
    by (auto simp: repays_def Let_def)
  with assms(1) have "l_id l = i" "sound_loan l" by (auto simp: loans_ok_def approved_in_def)
  moreover have "l_status (settled env s l) = LoanActive" using l(2) by (simp add: settled_def)
  ultimately have "sound_loan (after_payment (settled env s l) paid)"
    using settled_sound [OF _ l(2)] payment_sound l by blast
  with l \<open>l_id l = i\<close> ages_payment assms(4) show ?thesis
    by (intro matures_update [OF assms(1,3), where i = i]) auto
qed

lemma dispatch_matures:
  assumes "loans_ok s" and "dispatch env c s = Ok r t" and "unseeded c"
  shows "matures s t"
proof -
  note run = assms(2)
  have ok: "proposals_ok s" using assms(1) by (simp add: loans_ok_def)
  note ev = dispatch_evolves [OF ok run]
  have ag: "agree (footprint c) s t" by (rule writes_Ok [OF writes_dispatch run])
  have rest: "\<not> approves c \<Longrightarrow> FLoan \<notin> footprint c \<Longrightarrow> matures s t"
    using agreeD [OF ag, of FLoan] only_ballots_approve [OF ok run]
    by (intro matures_update [OF assms(1) ev]) auto
  have repay: "matures s t" if "repay_loan_internal env who i a s = Ok () t" "FLoanProposal \<notin> footprint c" for who i a
    using repay_matures [OF assms(1) that(1) ev] agreeD [OF ag that(2)] by simp
  show ?thesis
  proof (cases c)
    case (MarkLoanDefaulted i)
    with run obtain l where l: "kLoan s i = Some l" "l_status l = LoanActive"
      "kLoan t = (kLoan s)(l_id l \<mapsto> l\<lparr>l_status := Defaulted\<rparr>)"
      by (auto simp: ok_simps dest!: ok_mark_loan_defaulted)
    with assms(1) have "l_id l = i" "sound_loan l" by (auto simp: loans_ok_def approved_in_def)
    with l MarkLoanDefaulted show ?thesis
      using only_ballots_approve [OF ok run] default_sound [of l] ages_default [of l]
      by (intro matures_update [OF assms(1) ev, where i = i]) (auto simp: approves_def)
  next
    case BumpDaoTtl
    then show ?thesis by (intro rest) (simp_all add: approves_def)
  qed (use run assms(3) in \<open>auto simp: ok_simps unseeded_def approves_def repay_loan_def repay_loan_partial_def
        repay_loan_in_asset_def vote_on_loan_proposal_def vote_batch_def
        intro: rest repay vote_matures [OF assms(1)] batch_matures [OF assms(1)]
          disburse_matures [OF assms(1) _ ev]\<close>)
qed

section \<open>Every run\<close>

interpretation loans: invariant loans_ok "{FLoan, FLoanProposal, FNextProposalId, FMember}" unseeded
proof unfold_locales
  show "depends {FLoan, FLoanProposal, FNextProposalId, FMember} loans_ok"
    by (rule dependsI) (simp add: loans_ok_def proposals_ok_def get_proposal_count_def known_def)
  show "FLedger \<notin> {FLoan, FLoanProposal, FNextProposalId, FMember}" by simp
  show "loans_ok (fresh_dao l)" for l by (simp add: loans_ok_def proposals_ok_def approved_in_def)
  show "loans_ok t" if "unseeded c" "dispatch env c s = Ok r t" "loans_ok s" for c env s r t
    using dispatch_matures [OF that(3,2,1)] by (simp add: matures_def)
qed

definition aged :: "u32 \<Rightarrow> loan \<Rightarrow> dao \<Rightarrow> bool" where
  "aged i l s \<longleftrightarrow> loans_ok s \<and> (\<exists>l'. kLoan s i = Some l' \<and> ages l l')"

interpretation aged: stable "aged i l" "{FLoan, FLoanProposal, FNextProposalId, FMember}" unseeded
proof unfold_locales
  show "depends {FLoan, FLoanProposal, FNextProposalId, FMember} (aged i l)"
    by (rule dependsI) (simp add: aged_def loans_ok_def proposals_ok_def get_proposal_count_def known_def)
  show "FLedger \<notin> {FLoan, FLoanProposal, FNextProposalId, FMember}" by simp
  show "aged i l t" if "unseeded c" "dispatch env c s = Ok r t" "aged i l s" for c env s r t
    using dispatch_matures [OF _ that(2,1)] that(3) ages_trans unfolding aged_def matures_def by blast
qed

section \<open>A loan paid back\<close>

text \<open>Alice pays the remaining 600 of her loan.\<close>

definition cleared :: dao where
  "cleared = snd (invoke (host 270000) (RepayLoan alice 0) serviced)"

lemma cleared_run: "dispatch (host 270000) (RepayLoan alice 0) serviced = Ok NoValue
  (serviced\<lparr>kLoan := [0 \<mapsto> lent_loan\<lparr>l_amount_repaid := 648, l_status := Repaid\<rparr>],
    kMember := (kMember serviced)(alice \<mapsto> (joiner alice)\<lparr>m_last_loan_time := 259300, m_total_loans := 1, m_repaid_loans := 1\<rparr>),
    ledger := purse(usdc := (purse usdc)(bob := 999000, carol := 999000, alice := 998952, dao_addr := 3048)),
    events := events serviced @ [Ev_loan_rpy 0 alice 0 usdc]\<rparr>)"
  by (simp add: serviced_eq lent_eq backed_eq asked_eq peopled_eq founded_eq eval_simps address_names joiner_def
      lent_loan_def repay_loan_def repay_eval mock_transfer_def purse_def u32_saturating_sub_def Let_def)

lemma cleared_eq: "cleared = serviced\<lparr>kLoan := [0 \<mapsto> lent_loan\<lparr>l_amount_repaid := 648, l_status := Repaid\<rparr>],
    kMember := (kMember serviced)(alice \<mapsto> (joiner alice)\<lparr>m_last_loan_time := 259300, m_total_loans := 1, m_repaid_loans := 1\<rparr>),
    ledger := purse(usdc := (purse usdc)(bob := 999000, carol := 999000, alice := 998952, dao_addr := 3048)),
    events := events serviced @ [Ev_loan_rpy 0 alice 0 usdc]\<rparr>"
  by (simp only: cleared_def invoked [OF cleared_run])

lemma reachable_serviced: "reachable unseeded serviced"
  unfolding serviced_def
  by (intro reachable.call reachable_lent reachable_peopled) (simp_all add: unseeded_def)

lemma reachable_cleared: "reachable unseeded cleared"
  unfolding cleared_def
  by (rule reachable.call [OF reachable_serviced]) (simp add: unseeded_def)

section \<open>Properties\<close>

text \<open>
  C1: on a contract whose loans were not seeded by a migration (no run of \<^verbatim>\<open>seed_loans\<close>, which
  stores loans of any shape), exactly the approved proposals have a loan, under the same id and
  for the same borrower; its balance lies between zero and the total owed, and it counts as repaid
  exactly when the two are equal.
\<close>

theorem loan_book_is_sound:
  assumes "reachable unseeded s"
  shows "(kLoan s i \<noteq> None \<longleftrightarrow> (\<exists>p. kLoanProposal s i = Some p \<and> p_status p = Approved)) \<and>
         (kLoan s i = Some l \<longrightarrow>
            (\<exists>p. kLoanProposal s i = Some p \<and> l_borrower l = p_borrower p) \<and> l_id l = i \<and>
            0 < l_principal l \<and> l_principal l \<le> l_total_repayment l \<and>
            0 \<le> l_amount_repaid l \<and> l_amount_repaid l \<le> l_total_repayment l \<and>
            (l_status l = Repaid \<longleftrightarrow> l_amount_repaid l = l_total_repayment l))"
proof -
  have ok: "loans_ok s" by (rule loans.reachable_holds [OF assms])
  then have "kLoan s i \<noteq> None \<longleftrightarrow> (\<exists>p. kLoanProposal s i = Some p \<and> p_status p = Approved)"
    by (simp add: loans_ok_def approved_in_def)
  with ok show ?thesis by (auto simp: loans_ok_def sound_loan_def)
qed

theorem loan_book_is_sound_witness:
  "\<exists>l. kLoan cleared 0 = Some l \<and> l_amount_repaid l = l_total_repayment l \<and> 600 = l_principal l"
  using loan_book_is_sound [OF reachable_cleared, of 0 "lent_loan\<lparr>l_amount_repaid := 648, l_status := Repaid\<rparr>"]
  by (simp add: cleared_eq lent_loan_def)

text \<open>
  C27: on a contract whose loans were not seeded, no call other than a seeding of loans takes a
  loan back: its borrower and its dates stay, its balances only grow, and once it is repaid or
  defaulted nothing about it changes again.
\<close>

theorem loans_only_age:
  assumes "reachable unseeded s" and "kLoan s i = Some l" and "\<forall>ec \<in> set ecs. unseeded (snd ec)"
  shows "\<exists>l'. kLoan (run_calls ecs s) i = Some l' \<and>
           l_borrower l' = l_borrower l \<and> l_start_time l' = l_start_time l \<and> l_due_time l' = l_due_time l \<and>
           l_amount_repaid l \<le> l_amount_repaid l' \<and> l_total_repayment l \<le> l_total_repayment l' \<and>
           (l_status l \<noteq> LoanActive \<longrightarrow> l' = l)"
proof -
  have "aged i l (run_calls ecs s)"
    using loans.reachable_holds [OF assms(1)] assms(2) ages_refl
    by (intro aged.run_keeps [OF _ assms(3)]) (auto simp: aged_def)
  then show ?thesis by (auto simp: aged_def ages_def)
qed

theorem loans_only_age_witness:
  "kLoan (run_calls [(host 9000000, MarkLoanDefaulted 0), (host 9000000, RepayLoan alice 0)] cleared) 0 = kLoan cleared 0"
proof -
  have "kLoan cleared 0 = Some (lent_loan\<lparr>l_amount_repaid := 648, l_status := Repaid\<rparr>)"
    by (simp add: cleared_eq)
  with loans_only_age [OF reachable_cleared this, of "[(host 9000000, MarkLoanDefaulted 0), (host 9000000, RepayLoan alice 0)]"]
  show ?thesis by (simp add: unseeded_def)
qed

lemma yield_split_adds_up:
  assumes "yields_ok s" and "0 \<le> x" and "(acc, rem) = yield_split x s"
  shows "if 0 < get_active_members s
    then (acc - get_yield_accumulator s) * int (get_active_members s) + rem = get_yield_remainder s + x
    else acc = get_yield_accumulator s \<and> rem = get_yield_remainder s"
proof -
  define n pot where "n = int (get_active_members s)" and "pot = x + get_yield_remainder s"
  have pot: "0 \<le> pot" "pot div n * n + pot mod n = pot" using assms(1,2) by (simp_all add: pot_def yields_ok_def)
  consider "n = 0" | "0 < n" "x = 0" | "0 < n" "0 < x" "0 < pot div n" | "0 < n" "0 < x" "pot div n = 0"
    using pot(1) assms(2) pos_imp_zdiv_nonneg_iff [of n pot] by (fastforce simp: n_def)
  then show ?thesis
  proof cases
    case 4
    then show ?thesis using assms(3) pot
      by (simp add: yield_split_def Let_def n_def [symmetric] pot_def [symmetric] sdiv_nonneg smod_nonneg)
        (simp add: n_def pot_def)
  qed (use assms(3) pot in \<open>simp_all add: yield_split_def Let_def n_def [symmetric] pot_def [symmetric]
      sdiv_nonneg smod_nonneg, simp_all add: n_def pot_def\<close>)
qed

text \<open>
  C16: on a contract whose loans were not seeded, a payment moves exactly its amount from the
  borrower to the contract, never more than is owed, and closes the loan exactly when it covers the
  balance. It counts towards the interest before the principal: with the interest of a loan the
  part of its total above the principal, what the payment adds to the interest paid so far, and
  nothing else, is distributed to the members as yield (what does not divide evenly is carried in
  the remainder). A payment in another token than the base token distributes nothing, and the
  penalty of a late loan counts as principal.
\<close>

theorem payment_settles:
  assumes "repay_loan_partial env who i amount s = Ok u t" and "reachable unseeded s"
    and "token_contract (env_transfer env)" and "who \<noteq> env_self env"
  shows "\<exists>l l1 asset interest. kLoan s i = Some l \<and> l_borrower l = who \<and> l_status l = LoanActive \<and>
           l1 = settled env s l \<and> asset = asset_of (kLoanAsset s) i s \<and>
           0 < amount \<and> amount \<le> owed l1 \<and>
           kLoan t = (kLoan s)(i \<mapsto> l1\<lparr>l_amount_repaid := l_amount_repaid l1 + amount,
                                       l_status := (if amount = owed l1 then Repaid else LoanActive)\<rparr>) \<and>
           ledger t asset who = ledger s asset who - amount \<and>
           ledger t asset (env_self env) = ledger s asset (env_self env) + amount \<and>
           interest = min (l_amount_repaid l1 + amount) (l_total_repayment l1 - l_principal l1)
                      - min (l_amount_repaid l1) (l_total_repayment l1 - l_principal l1) \<and>
           (if kToken s = Some asset \<and> 0 < get_active_members s
            then (get_yield_accumulator t - get_yield_accumulator s) * int (get_active_members s)
                   + get_yield_remainder t = get_yield_remainder s + interest
            else get_yield_accumulator t = get_yield_accumulator s \<and>
                 get_yield_remainder t = get_yield_remainder s)"
proof -
  from assms(1) obtain l paid where r: "repays env who i (Some amount) l paid s t"
    by (auto simp: repay_loan_partial_def dest: ok_repay_internal)
  define l1 where "l1 = settled env s l"
  define asset where "asset = asset_of (kLoanAsset s) i s"
  from r have l: "kLoan s i = Some l" "l_borrower l = who" "l_status l = LoanActive" "0 < amount" "amount \<le> owed l1"
    "kLoan t = (kLoan s)(l_id l \<mapsto> after_payment l1 amount)"
    "env_transfer env asset who (env_self env) amount (ledger s) = Some (ledger t)"
    and split: "(get_yield_accumulator t, get_yield_remainder t) =
        (if kToken s = Some asset then yield_split (interest_part l1 amount) s
         else (get_yield_accumulator s, get_yield_remainder s))"
    by (auto simp: repays_def Let_def l1_def asset_def)
  have "reachable any_call s" by (rule reachable_mono [OF assms(2)]) simp
  then have "yields_ok s" by (rule yields.reachable_holds)
  moreover have "0 \<le> interest_part l1 amount" using l(4) by (auto simp: interest_part_def)
  ultimately have yield: "if kToken s = Some asset \<and> 0 < get_active_members s
      then (get_yield_accumulator t - get_yield_accumulator s) * int (get_active_members s)
             + get_yield_remainder t = get_yield_remainder s + interest_part l1 amount
      else get_yield_accumulator t = get_yield_accumulator s \<and> get_yield_remainder t = get_yield_remainder s"
    using split yield_split_adds_up [of s "interest_part l1 amount"] by (auto split: if_splits)
  have "l_id l = i" "sound_loan l"
    using loans.reachable_holds [OF assms(2)] l(1) by (auto simp: loans_ok_def approved_in_def)
  moreover have "after_payment l1 amount =
      l1\<lparr>l_amount_repaid := l_amount_repaid l1 + amount, l_status := (if amount = owed l1 then Repaid else LoanActive)\<rparr>"
    using l(3) by (auto simp: after_payment_def l1_def settled_def)
  ultimately show ?thesis
    using l yield token_contract.sender_pays [OF assms(3) l(7)] token_contract.receiver_gets [OF assms(3) l(7)] assms(4)
    by (intro exI [of _ l] exI [of _ l1] exI [of _ asset] exI [of _ "interest_part l1 amount"])
      (simp add: l1_def [symmetric] asset_def [symmetric], simp add: interest_part_def interest_total_def)
qed

theorem payment_settles_witness: "ledger serviced usdc alice = ledger lent usdc alice - 48"
proof -
  have run: "repay_loan_partial (host 260000) alice 0 48 lent = Ok () serviced"
    using serviced_run by (auto simp: ok_simps serviced_eq)
  have "reachable unseeded lent"
    by (intro reachable_lent reachable_peopled) (simp_all add: unseeded_def)
  from payment_settles [OF run this mock_host] have
    "ledger serviced (asset_of (kLoanAsset lent) 0 lent) alice = ledger lent (asset_of (kLoanAsset lent) 0 lent) alice - 48"
    by (auto simp: self_addresses)
  then show ?thesis
    by (simp add: asset_of_def lent_eq backed_eq asked_eq peopled_eq founded_eq)
qed

text \<open>
  C17: a disbursement pays the borrower exactly the approved amount out of the loan's asset, the
  amount is covered by the spendable treasury and its loan-to-treasury cap, and the loan and the
  borrower's flag are recorded with it.
\<close>

theorem disbursement_is_covered:
  assumes "approve_and_disburse env p s = Ok u t" and "0 < p_amount p" and "p_borrower p \<noteq> env_self env"
    and "token_contract (env_transfer env)" and "reachable any_call s"
  shows "\<exists>policy l. let asset = asset_of (kLoanAsset s) (p_id p) s; treasury = spendable env asset s in
           kPolicy s = Some policy \<and> p_amount p \<le> treasury \<and>
           p_amount p * 10000 \<le> treasury * int (pol_max_loan_to_treasury_ratio policy) \<and>
           ledger t asset (p_borrower p) = ledger s asset (p_borrower p) + p_amount p \<and>
           ledger t asset (env_self env) = ledger s asset (env_self env) - p_amount p \<and>
           kLoan t = (kLoan s)(p_id p \<mapsto> l) \<and> l_principal l = p_amount p \<and> l_amount_repaid l = 0 \<and>
           l_status l = LoanActive \<and> l_due_time l = env_now env + pol_max_loan_duration policy \<and>
           (\<exists>m. kMember t (p_borrower p) = Some m \<and> m_has_active_loan m)"
proof -
  from ok_approve [OF assms(1)] obtain policy terms b lg where d: "disburses env p policy terms b lg s t" by blast
  define asset where "asset = asset_of (kLoanAsset s) (p_id p) s"
  define treasury where "treasury = spendable env asset s"
  define ratio where "ratio = int (pol_max_loan_to_treasury_ratio policy)"
  from d have f: "kPolicy s = Some policy" "p_amount p \<le> treasury" "p_amount p \<le> (treasury * ratio) sdiv 10000"
    "quote_terms (p_amount p) treasury s = Ok terms s" "kMember s (p_borrower p) = Some b"
    "env_transfer env asset (env_self env) (p_borrower p) (p_amount p) (ledger s) = Some (ledger t)"
    "kLoan t = (kLoan s)(p_id p \<mapsto> disbursed_loan env p terms)"
    "kMember t = (kMember s)(m_address b \<mapsto> indebted (env_now env) b)"
    by (auto simp: disburses_def Let_def returns_def asset_def treasury_def ratio_def)
  have "lt_duration terms = pol_max_loan_duration policy"
    using f(1,4) by (auto simp: quote_terms_def ok_simps)
  moreover have "m_address b = p_borrower p"
    using members.reachable_holds [OF assms(5)] f(5) by (auto simp: members_ok_def book_ok_def)
  moreover have "p_amount p * 10000 \<le> treasury * ratio"
  proof -
    have "0 < treasury" "0 \<le> ratio" using f(2) assms(2) by (simp_all add: ratio_def)
    then have "(treasury * ratio) sdiv 10000 = (treasury * ratio) div 10000" by (simp add: sdiv_nonneg)
    then have "p_amount p \<le> (treasury * ratio) div 10000" using f(3) by simp
    moreover have "(treasury * ratio) div 10000 * 10000 \<le> treasury * ratio" by simp
    ultimately show ?thesis by linarith
  qed
  ultimately show ?thesis
    using f token_contract.sender_pays [OF assms(4) f(6)] token_contract.receiver_gets [OF assms(4) f(6)] assms(3)
    unfolding Let_def asset_def [symmetric] treasury_def [symmetric] ratio_def [symmetric]
    by (intro exI [of _ policy] exI [of _ "disbursed_loan env p terms"])
      (auto simp: disbursed_loan_def indebted_def ratio_def [symmetric])
qed

lemma funded_run:
  "\<exists>t. approve_and_disburse (host 259300) asked_proposal peopled = Ok () t"
  by (simp add: approve_and_disburse_def asked_proposal_def peopled_eq founded_eq eval_simps address_names
      test_policy_def joiner_def loan_eval purse_def mock_transfer_def Let_def)

theorem disbursement_is_covered_witness:
  "\<exists>t. approve_and_disburse (host 259300) asked_proposal peopled = Ok () t \<and>
       ledger t usdc alice = 999000 + 600"
proof -
  obtain t where run: "approve_and_disburse (host 259300) asked_proposal peopled = Ok () t" using funded_run by blast
  have "reachable any_call peopled" by (intro reachable_peopled) simp_all
  moreover have "0 < p_amount asked_proposal" "p_borrower asked_proposal = alice" "p_amount asked_proposal = 600"
    "p_id asked_proposal = 0" by (simp_all add: asked_proposal_def)
  moreover have "asset_of (kLoanAsset peopled) 0 peopled = usdc" "ledger peopled usdc alice = 999000"
    by (simp_all add: asset_of_def peopled_eq founded_eq address_names)
  ultimately show ?thesis
    using disbursement_is_covered [OF run _ _ mock_host] run by (auto simp: self_addresses Let_def)
qed

text \<open>
  A pending proposal whose voting window has passed never gets stuck: on a running contract
  anybody can move it to its expired state, without any authorization.
\<close>

theorem lapsed_proposals_can_be_expired:
  assumes "reachable any_call s" and "is_initialized s" and "\<not> is_paused s"
    and "kLoanProposal s i = Some p" and "p_status p = Pending"
    and "p_editing_period_end p + p_voting_period p < env_now env"
    and "p_editing_period_end p + p_voting_period p \<le> u64_MAX"
  shows "\<exists>t. invoke env (ExpireLoanProposal i) s = (Returned NoValue, t) \<and>
           kLoanProposal t = (kLoanProposal s)(i \<mapsto> p\<lparr>p_phase := PhExpired, p_status := StExpired\<rparr>)"
proof -
  have ok: "p_id p = i" "stage_of p \<in> loan_stages"
    using proposals.reachable_holds [OF assms(1)] assms(4) by (auto simp: proposals_ok_def)
  have st: "p_phase p = Editing \<or> p_phase p = Voting"
    using pending_stages(3) [OF ok(2)] assms(5) by (auto simp: stage_of_def)
  then have ref: "refreshed env p = p\<lparr>p_phase := PhExpired, p_status := StExpired\<rparr>"
    using assms(5,6) by (cases p) (auto simp: refreshed_def Let_def)
  have load: "load_loan_proposal i s = Ok p s" using assms(4) by (simp add: ok_simps)
  have phase: "refresh_phase env p s = Ok (refreshed env p) s" using assms(7) by (simp add: ok_simps)
  have "kLoanProposal t = (kLoanProposal s)(i \<mapsto> refreshed env p)"
    if "dispatch env (ExpireLoanProposal i) s = Ok NoValue t" for t
    using that load phase st assms(4) ref ok(1)
    by (auto simp: ok_simps expire_loan_proposal_def get_loan_proposal_def set_loan_proposal_def split: if_splits)
  moreover have "\<exists>t. dispatch env (ExpireLoanProposal i) s = Ok NoValue t"
    using load phase st assms(2-4) ref
    by (auto simp: eval_simps expire_loan_proposal_def get_open_proposals_def)
  ultimately show ?thesis using ref by (auto simp: invoke_returned)
qed

theorem lapsed_proposals_can_be_expired_witness:
  "\<exists>t. invoke (host 600000) (ExpireLoanProposal 0) asked = (Returned NoValue, t)"
proof -
  have "reachable any_call asked"
    unfolding asked_def by (intro reachable.call reachable_peopled) simp_all
  moreover have "is_initialized asked" "\<not> is_paused asked" "kLoanProposal asked 0 = Some asked_proposal"
    by (simp_all add: asked_eq peopled_eq founded_eq is_initialized_def is_paused_def)
  moreover have "p_status asked_proposal = Pending"
    "p_editing_period_end asked_proposal + p_voting_period asked_proposal < env_now (host 600000)"
    "p_editing_period_end asked_proposal + p_voting_period asked_proposal \<le> u64_MAX"
    by (simp_all add: asked_proposal_def host_def int_bounds)
  ultimately show ?thesis using lapsed_proposals_can_be_expired by blast
qed

end
