(* ===== verification/Withdrawals.thy ===== *)
theory Withdrawals
  imports LoanBook
begin

text \<open>
  The life of a treasury withdrawal: an abstract machine on its status that every call refines,
  the fixed terms of a stored proposal, and the exact payment on the one step into its executed
  status.
\<close>

section \<open>The machine\<close>

inductive withdrawal_step :: "proposal_status \<Rightarrow> proposal_status \<Rightarrow> bool" where
  grant: "withdrawal_step Pending ApprovedPendingDisbursement"
| pay: "withdrawal_step ApprovedPendingDisbursement StExecuted"
| refuse: "withdrawal_step Pending Rejected"
| lapse: "withdrawal_step Pending StExpired"
| withdraw: "withdrawal_step Pending Cancelled"

inductive_cases withdrawal_stepE: "withdrawal_step x y"

definition closed_status :: "proposal_status \<Rightarrow> bool" where
  "closed_status x \<longleftrightarrow> x \<in> {StExecuted, Rejected, StExpired, Cancelled}"

lemma closed_stays: "rtranclp withdrawal_step x y \<Longrightarrow> closed_status x \<Longrightarrow> y = x"
proof (induction rule: rtranclp_induct)
  case (step y z)
  then show ?case by (auto simp: closed_status_def elim: withdrawal_stepE)
qed simp

lemma pay_directly: "rtranclp withdrawal_step Pending StExecuted"
  by (blast intro: grant pay converse_rtranclp_into_rtranclp r_into_rtranclp)

lemma one_step: "withdrawal_step x y \<Longrightarrow> rtranclp withdrawal_step x y"
  by (rule r_into_rtranclp)

text \<open>A proposal moving along the machine: only its status and its tally may differ.\<close>

definition withdraws :: "treasury_proposal \<Rightarrow> treasury_proposal \<Rightarrow> bool" where
  "withdraws p q \<longleftrightarrow>
     t_id q = t_id p \<and> t_proposer q = t_proposer p \<and> t_amount q = t_amount p \<and>
     t_destination q = t_destination p \<and> t_reason q = t_reason p \<and> t_created_at q = t_created_at p \<and>
     t_voting_period q = t_voting_period p \<and> t_treasury_threshold q = t_treasury_threshold p \<and>
     t_private q = t_private p \<and> rtranclp withdrawal_step (t_status p) (t_status q)"

lemma withdraws_status: "rtranclp withdrawal_step (t_status p) st \<Longrightarrow> withdraws p (p\<lparr>t_status := st\<rparr>)"
  by (simp add: withdraws_def)

lemma withdraws_refl: "withdraws p p"
  by (simp add: withdraws_def)

lemma withdraws_trans: "withdraws p q \<Longrightarrow> withdraws q r \<Longrightarrow> withdraws p r"
  unfolding withdraws_def by (auto intro: rtranclp_trans)

section \<open>Every operation on a stored proposal\<close>

lemma ok_set_treasury_proposal:
  "set_treasury_proposal env p s = Ok u t \<Longrightarrow>
   kTreasuryProposal t = (kTreasuryProposal s)(t_id p \<mapsto> p) \<and> agree {FTreasuryProposal, FOpenProposals} s t"
  using writes_Ok [where m = "set_treasury_proposal env p" and F = "{FTreasuryProposal, FOpenProposals}"]
  by (auto simp: writes_intros) (auto simp: set_treasury_proposal_def ok_simps)

text \<open>What an execution pays.\<close>

definition pays :: "env \<Rightarrow> treasury_proposal \<Rightarrow> dao \<Rightarrow> dao \<Rightarrow> bool" where
  "pays env p s t \<longleftrightarrow>
     (let asset = asset_of (kTreasuryAsset s) (t_id p) s in
      t_amount p \<le> spendable env asset s \<and>
      env_transfer env asset (env_self env) (t_destination p) (t_amount p) (ledger s) = Some (ledger t))"

lemma ok_treasury_execute:
  assumes "treasury_execute env p s = Ok q t"
  shows "q = p\<lparr>t_status := StExecuted\<rparr>" and "kTreasuryProposal t = (kTreasuryProposal s)(t_id p \<mapsto> q)"
    and "pays env p s t"
proof -
  from assms obtain s1 where
    q: "q = p\<lparr>t_status := StExecuted\<rparr>" and
    s1: "set_treasury_proposal env q s = Ok () s1" and
    amount: "t_amount p \<le> spendable env (asset_of (kTreasuryAsset s) (t_id p) s) s" and
    pay: "env_transfer env (asset_of (kTreasuryAsset s) (t_id p) s) (env_self env) (t_destination p) (t_amount p) (ledger s1) = Some (ledger t)" and
    t: "kTreasuryProposal t = kTreasuryProposal s1"
    by (auto simp: treasury_execute_def ok_simps Let_def not_less)
  show "q = p\<lparr>t_status := StExecuted\<rparr>" by (rule q)
  have "ledger s1 = ledger s" using ok_set_treasury_proposal [OF s1] by (simp add: agree_def all_fields)
  with amount pay show "pays env p s t" by (simp add: pays_def Let_def)
  show "kTreasuryProposal t = (kTreasuryProposal s)(t_id p \<mapsto> q)"
    using t ok_set_treasury_proposal [OF s1] q by simp
qed

lemma err_treasury_execute: "treasury_execute env p s = Err e t \<Longrightarrow> t = s"
  by (auto simp: treasury_execute_def err_simps ok_simps accessor_defs Let_def)

text \<open>One step of the life of a withdrawal: no money moves, or the amount is paid as the status becomes executed.\<close>

definition decides :: "env \<Rightarrow> treasury_proposal \<Rightarrow> treasury_proposal \<Rightarrow> dao \<Rightarrow> dao \<Rightarrow> bool" where
  "decides env p q s t \<longleftrightarrow>
     withdraws p q \<and>
     (if t_status q = StExecuted then pays env p s t else ledger t = ledger s)"

lemma ok_conclude_treasury_vote:
  assumes "conclude_treasury_vote env n r p s = Ok q t" and "t_status p = Pending"
  shows "decides env p q s t"
    and "kTreasuryProposal t = kTreasuryProposal s \<or> kTreasuryProposal t = (kTreasuryProposal s)(t_id p \<mapsto> q)"
proof -
  define p1 where "p1 = p\<lparr>t_status := ApprovedPendingDisbursement\<rparr>"
  have cases: "treasury_execute env p1 s = Ok q t \<or>
    (q = p1 \<or> q = p \<or> q = p\<lparr>t_status := Rejected\<rparr>) \<and> ledger t = ledger s \<and> kTreasuryProposal t = kTreasuryProposal s"
    using assms(1)
    by (auto simp: conclude_treasury_vote_def try_treasury_execute_def p1_def [symmetric] ok_simps
        split: if_splits outcome.splits dest!: err_treasury_execute)
  have "decides env p q s t \<and> (kTreasuryProposal t = kTreasuryProposal s \<or> kTreasuryProposal t = (kTreasuryProposal s)(t_id p \<mapsto> q))"
  proof (cases "treasury_execute env p1 s = Ok q t")
    case True
    from ok_treasury_execute [OF True] have q: "q = p\<lparr>t_status := StExecuted\<rparr>" "kTreasuryProposal t = (kTreasuryProposal s)(t_id p \<mapsto> q)"
      "pays env p s t" by (simp_all add: p1_def pays_def Let_def)
    then show ?thesis using withdraws_status [of p StExecuted] pay_directly assms(2) by (simp add: decides_def)
  next
    case False
    with cases have "q = p1 \<or> q = p \<or> q = p\<lparr>t_status := Rejected\<rparr>" "ledger t = ledger s" "kTreasuryProposal t = kTreasuryProposal s"
      by auto
    then show ?thesis
      using withdraws_status [of p ApprovedPendingDisbursement] withdraws_status [of p Rejected] withdraws_refl [of p]
        assms(2) one_step grant refuse
      by (auto simp: decides_def p1_def)
  qed
  then show "decides env p q s t"
    "kTreasuryProposal t = kTreasuryProposal s \<or> kTreasuryProposal t = (kTreasuryProposal s)(t_id p \<mapsto> q)" by auto
qed

text \<open>A ballot on a withdrawal, public or revealed.\<close>

definition polls :: "env \<Rightarrow> address \<Rightarrow> treasury_proposal \<Rightarrow> dao \<Rightarrow> dao \<Rightarrow> bool" where
  "polls env v p s t \<longleftrightarrow>
     t_status p = Pending \<and> kTreasuryVoted s (t_id p, v) = None \<and>
     kTreasuryVoted t = (kTreasuryVoted s)((t_id p, v) \<mapsto> True) \<and>
     (\<exists>q. decides env p q s t \<and> kTreasuryProposal t = (kTreasuryProposal s)(t_id p \<mapsto> q))"

lemma ok_cast_treasury_vote:
  assumes "cast_treasury_vote v b p s = Ok q t"
  shows "withdraws p q" and "t_status q = t_status p"
    and "kTreasuryVoted t = (kTreasuryVoted s)((t_id p, v) \<mapsto> True)" and "agree {FTreasuryVoted, FEvents} s t"
proof -
  show "agree {FTreasuryVoted, FEvents} s t"
    using writes_Ok [where m = "cast_treasury_vote v b p", OF _ assms] by (simp add: writes_intros)
  show "withdraws p q" "t_status q = t_status p"
    "kTreasuryVoted t = (kTreasuryVoted s)((t_id p, v) \<mapsto> True)"
    using assms by (cases b; auto simp: cast_treasury_vote_def ok_simps set_treasury_voted_def withdraws_def)+
qed

lemma pays_frame:
  "agree F s u \<Longrightarrow> F \<inter> {FTreasuryAsset, FToken, FLedger, FTotalStaked} = {} \<Longrightarrow> withdraws p q \<Longrightarrow>
   pays env q u t = pays env p s t"
proof -
  assume a: "agree F s u" "F \<inter> {FTreasuryAsset, FToken, FLedger, FTotalStaked} = {}" "withdraws p q"
  then have "kTreasuryAsset u = kTreasuryAsset s" "kToken u = kToken s" "ledger u = ledger s" "kTotalStaked u = kTotalStaked s"
    using agreeD [OF a(1), of FTreasuryAsset] agreeD [OF a(1), of FToken] agreeD [OF a(1), of FLedger]
      agreeD [OF a(1), of FTotalStaked] by auto
  moreover from this have "asset_of (kTreasuryAsset u) i u = asset_of (kTreasuryAsset s) i s" for i
    by (simp add: asset_of_def cong: option.case_cong)
  ultimately show ?thesis using a(3)
    by (simp add: pays_def Let_def spendable_def get_total_staked_def withdraws_def)
qed

lemma ok_required_votes [ok_simps]:
  "required_votes n bps s = Ok r t \<longleftrightarrow> t = s \<and> returns (required_votes n bps) s r"
  by (intro pure_ok writes_intros)

lemma ok_tally:
  assumes "tally env p v b s = Ok u t"
  shows "polls env v p s t"
proof -
  from assms obtain p1 s1 n r q s2 where
    open_: "t_status p = Pending" "kTreasuryVoted s (t_id p, v) = None" and
    cast: "cast_treasury_vote v b p s = Ok p1 s1" and
    con: "conclude_treasury_vote env n r p1 s1 = Ok q s2" and
    set: "set_treasury_proposal env q s2 = Ok () t"
    by (auto simp: tally_def ok_simps has_treasury_voted_def)
  note c = ok_cast_treasury_vote [OF cast]
  have "t_status p1 = Pending" using c(2) open_ by simp
  note d = ok_conclude_treasury_vote [OF con this]
  have ids: "t_id p1 = t_id p" "t_id q = t_id p" using c(1) d(1) by (simp_all add: withdraws_def decides_def)
  have s1: "kTreasuryProposal s1 = kTreasuryProposal s" "ledger s1 = ledger s"
    using c(4) by (simp_all add: agree_def all_fields)
  have t: "kTreasuryProposal t = (kTreasuryProposal s2)(t_id q \<mapsto> q)" "ledger t = ledger s2" "kTreasuryVoted t = kTreasuryVoted s2"
    using ok_set_treasury_proposal [OF set] by (simp_all add: agree_def all_fields)
  have "agree {FTreasuryProposal, FOpenProposals, FLedger, FEvents} s1 s2"
    using writes_Ok [OF writes_tally [OF subset_refl] con] .
  then have voted: "kTreasuryVoted t = (kTreasuryVoted s)((t_id p, v) \<mapsto> True)"
    using t(3) c(3) by (simp add: agree_def all_fields)
  have "decides env p q s t"
    using d(1) withdraws_trans [OF c(1)] pays_frame [OF c(4) _ c(1), of env s2] t(2) s1(2)
    by (auto simp: decides_def pays_def Let_def split: if_splits)
  moreover have "kTreasuryProposal t = (kTreasuryProposal s)(t_id p \<mapsto> q)"
    using d(2) t(1) s1(1) ids by auto
  ultimately show ?thesis using open_ voted by (auto simp: polls_def)
qed

lemma ok_treasury_vote:
  "treasury_vote env v i b s = Ok u t \<Longrightarrow> \<exists>p. kTreasuryProposal s i = Some p \<and> \<not> t_private p \<and> polls env v p s t"
  by (auto simp: treasury_vote_def ok_simps dest!: ok_tally)

text \<open>A reveal opens the stored commitment and then counts as a ballot.\<close>

lemma ok_reveal_vote:
  assumes "reveal_vote env v i b salt s = Ok u t"
  shows "\<exists>p. kTreasuryProposal s i = Some p \<and> t_private p \<and>
    t_created_at p + t_voting_period p < env_now env \<and>
    kCommit s (i, v) = Some (compute_commitment env v i b salt) \<and>
    kCommit t = (kCommit s)((i, v) := None) \<and> polls env v p s t"
proof -
  from assms obtain p s0 where
    p: "kTreasuryProposal s i = Some p" "t_private p" "t_created_at p + t_voting_period p < env_now env"
      "kCommit s (i, v) = Some (compute_commitment env v i b salt)" and
    s0: "s0 = s\<lparr>kCommit := (kCommit s)((i, v) := None), events := events s @ [Ev_revealed i v b]\<rparr>" and
    run: "tally env p v b s0 = Ok () t"
    by (auto simp: reveal_vote_def ok_simps get_commit_def remove_commit_def not_le)
  have "agree {FCommit, FEvents} s s0" by (simp add: s0 agree_def all_fields)
  from pays_frame [OF this _ withdraws_refl, of env p t] have "pays env p s0 t = pays env p s t" by simp
  then have "decides env p q s0 t = decides env p q s t" for q
    by (simp add: decides_def s0)
  with ok_tally [OF run] have "polls env v p s t" by (simp add: polls_def s0)
  moreover have "agree {FTreasuryVoted, FTreasuryProposal, FOpenProposals, FLedger, FEvents} s0 t"
    using writes_Ok [OF writes_tally_full [OF subset_refl] run] .
  then have "kCommit t = (kCommit s)((i, v) := None)" by (simp add: agree_def all_fields s0)
  ultimately show ?thesis using p by auto
qed

lemma ok_execute_approved:
  assumes "execute_approved env i s = Ok u t" and ids: "\<And>p. kTreasuryProposal s i = Some p \<Longrightarrow> t_id p = i"
  shows "\<exists>p q. kTreasuryProposal s i = Some p \<and> t_status p = ApprovedPendingDisbursement \<and>
    t_status q = StExecuted \<and> decides env p q s t \<and> kTreasuryProposal t = (kTreasuryProposal s)(i \<mapsto> q)"
proof -
  from assms obtain p q s1 where
    p: "kTreasuryProposal s i = Some p" "t_status p = ApprovedPendingDisbursement" and
    run: "treasury_execute env p s = Ok q s1" and set: "set_treasury_proposal env q s1 = Ok () t"
    by (auto simp: execute_approved_def ok_simps)
  note x = ok_treasury_execute [OF run]
  have t: "kTreasuryProposal t = (kTreasuryProposal s1)(t_id q \<mapsto> q)" "ledger t = ledger s1"
    using ok_set_treasury_proposal [OF set] by (simp_all add: agree_def all_fields)
  have "t_id p = i" "t_id q = i" using ids [OF p(1)] x(1) by simp_all
  moreover have "decides env p q s t"
    using x withdraws_status [of p StExecuted] one_step [OF pay] p(2) t(2) by (simp add: decides_def pays_def Let_def)
  ultimately show ?thesis
    by (intro exI [of _ p] exI [of _ q]) (use p x(1,2) t(1) in simp)
qed

lemma ok_stop_withdrawal:
  "cancel_treasury_proposal env who i s = Ok u t \<Longrightarrow>
   \<exists>p. kTreasuryProposal s i = Some p \<and> t_status p = Pending \<and>
     kTreasuryProposal t = (kTreasuryProposal s)(t_id p \<mapsto> p\<lparr>t_status := Cancelled\<rparr>)"
  "expire_treasury_proposal env i s = Ok u t \<Longrightarrow>
   \<exists>p. kTreasuryProposal s i = Some p \<and> t_status p = Pending \<and>
     kTreasuryProposal t = (kTreasuryProposal s)(t_id p \<mapsto> p\<lparr>t_status := StExpired\<rparr>)"
  by (auto simp: cancel_treasury_proposal_def expire_treasury_proposal_def ok_simps set_treasury_proposal_def
      split: if_splits)

text \<open>A new proposal is stored under the next id.\<close>

definition tables :: "env \<Rightarrow> i128 \<Rightarrow> address \<Rightarrow> u32 \<Rightarrow> treasury_proposal \<Rightarrow> dao \<Rightarrow> dao \<Rightarrow> bool" where
  "tables env amount dest i p s t \<longleftrightarrow>
     i = get_proposal_count NextTreasuryId s \<and> get_proposal_count NextTreasuryId t = i + 1 \<and>
     kTreasuryProposal t = (kTreasuryProposal s)(i \<mapsto> p) \<and>
     t_id p = i \<and> t_amount p = amount \<and> 0 < amount \<and> t_destination p = dest \<and> dest \<noteq> env_self env \<and>
     t_status p = Pending \<and> t_for_votes p = 0 \<and> t_against_votes p = 0 \<and> t_votes_cast p = 0"

lemma ok_propose_withdrawal:
  "propose_withdrawal_in_asset env who amount asset dest why hidden s = Ok i t \<Longrightarrow> \<exists>p. tables env amount dest i p s t"
  by (auto simp: propose_withdrawal_in_asset_def ok_simps accessor_defs tables_def not_le set_counter_def
      get_proposal_count_def split: if_splits)

section \<open>Every call moves every withdrawal along the machine\<close>

definition withdrawals_ok :: "dao \<Rightarrow> bool" where
  "withdrawals_ok s \<longleftrightarrow>
     (\<forall>i p. kTreasuryProposal s i = Some p \<longrightarrow>
        t_id p = i \<and> i < get_proposal_count NextTreasuryId s \<and> 0 < t_amount p)"

definition continues :: "dao \<Rightarrow> dao \<Rightarrow> bool" where
  "continues s t \<longleftrightarrow>
     withdrawals_ok t \<and>
     (\<forall>i p. kTreasuryProposal s i = Some p \<longrightarrow> (\<exists>q. kTreasuryProposal t i = Some q \<and> withdraws p q))"

lemma continues_frame:
  "withdrawals_ok s \<Longrightarrow> kTreasuryProposal t = kTreasuryProposal s \<Longrightarrow>
   get_proposal_count NextTreasuryId s \<le> get_proposal_count NextTreasuryId t \<Longrightarrow> continues s t"
  by (fastforce simp: continues_def withdrawals_ok_def intro: withdraws_refl)

lemma continues_move:
  "withdrawals_ok s \<Longrightarrow> kTreasuryProposal s i = Some p \<Longrightarrow> withdraws p q \<Longrightarrow>
   kTreasuryProposal t = (kTreasuryProposal s)(t_id p \<mapsto> q) \<Longrightarrow>
   get_proposal_count NextTreasuryId t = get_proposal_count NextTreasuryId s \<Longrightarrow> continues s t"
  by (auto simp: continues_def withdrawals_ok_def withdraws_def)

lemma continues_table: "withdrawals_ok s \<Longrightarrow> tables env amount dest i p s t \<Longrightarrow> continues s t"
  by (auto simp: continues_def withdrawals_ok_def tables_def less_SucI intro: withdraws_refl)

lemma seed_docs_continues:
  assumes "withdrawals_ok s" and "seed_docs env who ds s = Ok u t"
  shows "continues s t"
proof -
  let ?P = "\<lambda>w. kTreasuryProposal w = kTreasuryProposal s \<and> get_proposal_count NextTreasuryId s \<le> get_proposal_count NextTreasuryId w"
  have out: "keeps ?P (set_doc k i h)" "keeps ?P (set_next_proposal_id_at_least n)" "keeps ?P (set_next_treasury_id_at_least n)" for k i h n
    by (auto intro!: keepsI simp: set_doc_def set_next_proposal_id_at_least_def set_next_treasury_id_at_least_def
        ok_simps err_simps set_counter_def get_proposal_count_def split: if_splits)
  have "keeps ?P (seed_doc d)" for d
    by (cases "sde_kind d") (auto simp: seed_doc_def intro!: keeps_intros out)
  then have "keeps ?P (seed_docs env who ds)"
    by (auto simp: seed_docs_def require_seeding_open_def intro!: keeps_intros)
  then have "?P t" using assms(2) by (auto dest: keepsD_Ok)
  then show ?thesis using continues_frame [OF assms(1)] by blast
qed

lemma dispatch_continues:
  assumes "withdrawals_ok s" and "dispatch env c s = Ok r t"
  shows "continues s t"
proof -
  note run = assms(2)
  have ag: "agree (footprint c) s t" by (rule writes_Ok [OF writes_dispatch run])
  have count: "FNextTreasuryId \<notin> footprint c \<Longrightarrow> get_proposal_count NextTreasuryId t = get_proposal_count NextTreasuryId s"
    using agreeD [OF ag, of FNextTreasuryId] by (simp add: get_proposal_count_def)
  have rest: "FTreasuryProposal \<notin> footprint c \<Longrightarrow> FNextTreasuryId \<notin> footprint c \<Longrightarrow> continues s t"
    using agreeD [OF ag, of FTreasuryProposal] continues_frame [OF assms(1)] count by simp
  have move: "continues s t" if "kTreasuryProposal s i = Some p" "withdraws p q" "kTreasuryProposal t = (kTreasuryProposal s)(t_id p \<mapsto> q)"
    "FNextTreasuryId \<notin> footprint c" for i p q
    using continues_move [OF assms(1) that(1-3)] count [OF that(4)] by simp
  have poll: "polls env v p s t \<Longrightarrow> kTreasuryProposal s i = Some p \<Longrightarrow> FNextTreasuryId \<notin> footprint c \<Longrightarrow> continues s t" for v p i
    unfolding polls_def decides_def using move by blast
  show ?thesis
  proof (cases c)
    case (ProposeTreasuryWithdrawal who amount dest why hidden)
    with run show ?thesis
      by (auto simp: ok_simps propose_withdrawal_def dest!: ok_propose_withdrawal intro: continues_table [OF assms(1)])
  next
    case (ProposeWithdrawalInAsset who amount asset dest why hidden)
    with run show ?thesis
      by (auto simp: ok_simps dest!: ok_propose_withdrawal intro: continues_table [OF assms(1)])
  next
    case (VoteOnTreasuryProposal who i b)
    with run show ?thesis by (auto simp: ok_simps dest!: ok_treasury_vote intro: poll)
  next
    case (RevealTreasuryVote who i b salt)
    with run show ?thesis by (auto simp: ok_simps dest!: ok_reveal_vote intro: poll)
  next
    case (CancelTreasuryProposal who i)
    with run obtain p where "kTreasuryProposal s i = Some p" "t_status p = Pending"
      "kTreasuryProposal t = (kTreasuryProposal s)(t_id p \<mapsto> p\<lparr>t_status := Cancelled\<rparr>)"
      by (auto simp: ok_simps dest!: ok_stop_withdrawal)
    then show ?thesis using withdraws_status [of p Cancelled] one_step [OF withdraw] CancelTreasuryProposal
      by (intro move) auto
  next
    case (ExpireTreasuryProposal i)
    with run obtain p where "kTreasuryProposal s i = Some p" "t_status p = Pending"
      "kTreasuryProposal t = (kTreasuryProposal s)(t_id p \<mapsto> p\<lparr>t_status := StExpired\<rparr>)"
      by (auto simp: ok_simps dest!: ok_stop_withdrawal)
    then show ?thesis using withdraws_status [of p StExpired] one_step [OF lapse] ExpireTreasuryProposal
      by (intro move) auto
  next
    case (ExecuteTreasuryProposal i)
    with run obtain p q where "kTreasuryProposal s i = Some p" "decides env p q s t"
      "kTreasuryProposal t = (kTreasuryProposal s)(i \<mapsto> q)"
      using ok_execute_approved [of env i s "()" t] assms(1) by (auto simp: ok_simps withdrawals_ok_def)
    then show ?thesis using ExecuteTreasuryProposal assms(1)
      by (intro move [of i p q]) (auto simp: decides_def withdrawals_ok_def)
  next
    case (SeedDocs who ds)
    with run show ?thesis by (auto simp: ok_simps intro: seed_docs_continues [OF assms(1)])
  qed (auto intro!: rest)
qed

section \<open>Only an execution pays\<close>

definition pays_if_executed :: "env \<Rightarrow> u32 \<Rightarrow> treasury_proposal \<Rightarrow> dao \<Rightarrow> dao \<Rightarrow> bool" where
  "pays_if_executed env i p s t \<longleftrightarrow>
     (\<exists>q. kTreasuryProposal t i = Some q \<and> (t_status q = StExecuted \<longrightarrow> t_status p = StExecuted \<or> pays env p s t))"

lemma pays_if_executed_frame:
  "kTreasuryProposal s i = Some p \<Longrightarrow> kTreasuryProposal t i = kTreasuryProposal s i \<Longrightarrow> pays_if_executed env i p s t"
  by (simp add: pays_if_executed_def)

lemma polls_pays:
  "withdrawals_ok s \<Longrightarrow> polls env v p' s t \<Longrightarrow> kTreasuryProposal s j = Some p' \<Longrightarrow> kTreasuryProposal s i = Some p \<Longrightarrow>
   pays_if_executed env i p s t"
  by (auto simp: polls_def decides_def pays_if_executed_def withdrawals_ok_def split: if_splits)

lemma dispatch_pays:
  assumes "withdrawals_ok s" and "dispatch env c s = Ok r t" and p: "kTreasuryProposal s i = Some p"
  shows "pays_if_executed env i p s t"
proof -
  note run = assms(2)
  have ag: "agree (footprint c) s t" by (rule writes_Ok [OF writes_dispatch run])
  have rest: "FTreasuryProposal \<notin> footprint c \<Longrightarrow> pays_if_executed env i p s t"
    using agreeD [OF ag, of FTreasuryProposal] pays_if_executed_frame [OF p] by simp
  have fresh: "pays_if_executed env i p s t" if "tables env a d j q s t" for a d j q
  proof -
    have "i < j" using that p assms(1) by (auto simp: tables_def withdrawals_ok_def)
    then have "kTreasuryProposal t i = kTreasuryProposal s i" using that by (simp add: tables_def)
    with p show ?thesis by (rule pays_if_executed_frame)
  qed
  have stop: "pays_if_executed env i p s t"
    if "kTreasuryProposal t = (kTreasuryProposal s)(j \<mapsto> q)" "t_status q \<noteq> StExecuted" for j q
    using that p by (auto simp: pays_if_executed_def)
  show ?thesis
  proof (cases c)
    case (ProposeTreasuryWithdrawal who amount dest why hidden)
    with run show ?thesis
      by (auto simp: ok_simps propose_withdrawal_def dest!: ok_propose_withdrawal intro: fresh)
  next
    case (ProposeWithdrawalInAsset who amount asset dest why hidden)
    with run show ?thesis by (auto simp: ok_simps dest!: ok_propose_withdrawal intro: fresh)
  next
    case (VoteOnTreasuryProposal who i b)
    with run show ?thesis by (auto simp: ok_simps dest!: ok_treasury_vote intro: polls_pays [OF assms(1) _ _ p])
  next
    case (RevealTreasuryVote who i b salt)
    with run show ?thesis by (auto simp: ok_simps dest!: ok_reveal_vote intro: polls_pays [OF assms(1) _ _ p])
  next
    case (CancelTreasuryProposal who j)
    with run obtain p' where "kTreasuryProposal t = (kTreasuryProposal s)(t_id p' \<mapsto> p'\<lparr>t_status := Cancelled\<rparr>)"
      by (auto simp: ok_simps dest!: ok_stop_withdrawal)
    then show ?thesis by (rule stop) simp
  next
    case (ExpireTreasuryProposal j)
    with run obtain p' where "kTreasuryProposal t = (kTreasuryProposal s)(t_id p' \<mapsto> p'\<lparr>t_status := StExpired\<rparr>)"
      by (auto simp: ok_simps dest!: ok_stop_withdrawal)
    then show ?thesis by (rule stop) simp
  next
    case (ExecuteTreasuryProposal j)
    with run obtain p' q where "kTreasuryProposal s j = Some p'" "decides env p' q s t" "t_status q = StExecuted"
      "kTreasuryProposal t = (kTreasuryProposal s)(j \<mapsto> q)"
      using ok_execute_approved [of env j s "()" t] assms(1) by (auto simp: ok_simps withdrawals_ok_def)
    then show ?thesis using p by (auto simp: pays_if_executed_def decides_def)
  qed (auto intro!: rest)
qed

section \<open>Every run\<close>

interpretation withdrawals: invariant withdrawals_ok "{FTreasuryProposal, FNextTreasuryId}" any_call
proof unfold_locales
  show "depends {FTreasuryProposal, FNextTreasuryId} withdrawals_ok"
    by (rule dependsI) (simp add: withdrawals_ok_def get_proposal_count_def)
  show "FLedger \<notin> {FTreasuryProposal, FNextTreasuryId}" by simp
  show "withdrawals_ok (fresh_dao l)" for l by (simp add: withdrawals_ok_def)
  show "withdrawals_ok t" if "dispatch env c s = Ok r t" "withdrawals_ok s" for c env s r t
    using dispatch_continues [OF that(2,1)] by (simp add: continues_def)
qed

definition carried :: "u32 \<Rightarrow> treasury_proposal \<Rightarrow> dao \<Rightarrow> bool" where
  "carried i p s \<longleftrightarrow> withdrawals_ok s \<and> (\<exists>q. kTreasuryProposal s i = Some q \<and> withdraws p q)"

interpretation carried: stable "carried i p" "{FTreasuryProposal, FNextTreasuryId}" any_call
proof unfold_locales
  show "depends {FTreasuryProposal, FNextTreasuryId} (carried i p)"
    by (rule dependsI) (simp add: carried_def withdrawals_ok_def get_proposal_count_def)
  show "FLedger \<notin> {FTreasuryProposal, FNextTreasuryId}" by simp
  show "carried i p t" if "dispatch env c s = Ok r t" "carried i p s" for c env s r t
    using dispatch_continues [OF _ that(1)] that(2) withdraws_trans
    unfolding carried_def continues_def by blast
qed

section \<open>Properties\<close>

text \<open>
  C5: whatever calls are made, a stored withdrawal keeps its amount, destination, proposer and
  threshold, only moves along the machine, and is decided for good once it is executed,
  rejected, expired or cancelled.
\<close>

theorem withdrawals_follow_the_machine:
  assumes "reachable any_call s" and "kTreasuryProposal s i = Some p"
  shows "\<exists>q. kTreasuryProposal (run_calls ecs s) i = Some q \<and>
           t_id q = i \<and> t_amount q = t_amount p \<and> t_destination q = t_destination p \<and>
           t_proposer q = t_proposer p \<and> t_treasury_threshold q = t_treasury_threshold p \<and>
           rtranclp withdrawal_step (t_status p) (t_status q) \<and>
           (closed_status (t_status p) \<longrightarrow> t_status q = t_status p)"
proof -
  have ok: "withdrawals_ok s" by (rule withdrawals.reachable_holds [OF assms(1)])
  have "carried i p (run_calls ecs s)"
    by (rule carried.run_keeps) (use ok assms(2) withdraws_refl in \<open>auto simp: carried_def\<close>)
  then obtain q where q: "kTreasuryProposal (run_calls ecs s) i = Some q" "withdraws p q"
    by (auto simp: carried_def)
  moreover have "t_id p = i" using ok assms(2) by (simp add: withdrawals_ok_def)
  moreover have "closed_status (t_status p) \<longrightarrow> t_status q = t_status p"
    using q(2) closed_stays [of "t_status p" "t_status q"] by (simp add: withdraws_def)
  ultimately show ?thesis by (simp add: withdraws_def)
qed

lemma reachable_granted: "reachable any_call granted"
  unfolding granted_def polled_def proposed_def
  by (intro reachable.call reachable_peopled) simp_all

theorem withdrawals_follow_the_machine_witness:
  "\<exists>q. kTreasuryProposal (run_calls [(host 40, ExecuteTreasuryProposal 0), (host 900000, ExpireTreasuryProposal 0)] granted) 0 = Some q \<and>
       t_status q = StExecuted \<and> t_amount q = 300"
proof -
  obtain p where p: "kTreasuryProposal granted 0 = Some p" "t_status p = StExecuted" "t_amount p = 300"
    by (simp add: granted_def invoked [OF granted_run] rent_def)
  from withdrawals_follow_the_machine [OF reachable_granted p(1),
      of "[(host 40, ExecuteTreasuryProposal 0), (host 900000, ExpireTreasuryProposal 0)]"] p(2,3)
  show ?thesis by (auto simp: closed_status_def)
qed

text \<open>
  C11: a call after which a withdrawal is executed, and was not before, moves exactly the
  proposed amount out of the contract to the proposed destination, within the spendable treasury.
  With the machine above, no withdrawal is paid twice.
\<close>

theorem executed_withdrawals_are_paid:
  assumes "reachable any_call s" and "dispatch env c s = Ok r t" and "token_contract (env_transfer env)"
    and "kTreasuryProposal s i = Some p" and "t_status p \<noteq> StExecuted" and "t_destination p \<noteq> env_self env"
    and "kTreasuryProposal t i = Some q" and "t_status q = StExecuted"
  shows "\<exists>asset. asset = asset_of (kTreasuryAsset s) i s \<and> t_amount p \<le> spendable env asset s \<and>
           ledger t asset (t_destination p) = ledger s asset (t_destination p) + t_amount p \<and>
           ledger t asset (env_self env) = ledger s asset (env_self env) - t_amount p"
proof -
  have ok: "withdrawals_ok s" by (rule withdrawals.reachable_holds [OF assms(1)])
  with dispatch_pays [OF ok assms(2,4)] assms(4,5,7,8) have p: "pays env p s t" "t_id p = i"
    by (auto simp: pays_if_executed_def withdrawals_ok_def)
  then have "env_transfer env (asset_of (kTreasuryAsset s) i s) (env_self env) (t_destination p) (t_amount p) (ledger s) = Some (ledger t)"
    by (simp add: pays_def Let_def)
  with p token_contract.sender_pays [OF assms(3) this] token_contract.receiver_gets [OF assms(3) this] assms(6)
  show ?thesis by (auto simp: pays_def Let_def)
qed

theorem executed_withdrawals_are_paid_witness:
  "ledger granted usdc payee = ledger polled usdc payee + 300"
proof -
  define p where "p = (rent False)\<lparr>t_for_votes := 1, t_votes_cast := 1\<rparr>"
  have run: "dispatch (host 30) (VoteOnTreasuryProposal carol 0 True) polled = Ok NoValue granted"
    using granted_run by (simp add: granted_def invoked [OF granted_run])
  have "reachable any_call polled"
    unfolding polled_def proposed_def by (intro reachable.call reachable_peopled) simp_all
  moreover have "kTreasuryProposal polled 0 = Some p" "t_status p \<noteq> StExecuted" "t_destination p = payee" "t_amount p = 300"
    by (simp_all add: polled_eq p_def rent_def)
  moreover have "payee \<noteq> env_self (host 30)" by (simp add: host_def payee_def address_names)
  moreover obtain q where "kTreasuryProposal granted 0 = Some q" "t_status q = StExecuted"
    by (simp add: granted_def invoked [OF granted_run] rent_def)
  ultimately have "ledger granted (asset_of (kTreasuryAsset polled) 0 polled) payee
      = ledger polled (asset_of (kTreasuryAsset polled) 0 polled) payee + 300"
    using executed_withdrawals_are_paid [OF _ run mock_host] by metis
  then show ?thesis by (simp add: asset_of_def polled_eq proposed_eq peopled_eq founded_eq)
qed

end
