(* ===== verification/Ballots.thy ===== *)
theory Ballots
  imports Withdrawals
begin

text \<open>
  Voting across the components: nobody votes twice on a proposal, a batch is the sequence of its
  votes, and a revealed vote is the one that was committed. The interface of a ballot box is a
  locale, interpreted by the loan ballot and by the treasury ballot.
\<close>

section \<open>Ballot boxes\<close>

locale ballot_box =
  fixes marked :: "u32 \<Rightarrow> address \<Rightarrow> dao \<Rightarrow> bool"
    and good :: "dao \<Rightarrow> bool"
    and casts :: "call \<Rightarrow> (u32 \<times> address) list"
  assumes refused: "good s \<Longrightarrow> (i, v) \<in> set (casts c) \<Longrightarrow> dispatch env c s = Ok r t \<Longrightarrow> \<not> marked i v s"
    and recorded: "good s \<Longrightarrow> (i, v) \<in> set (casts c) \<Longrightarrow> dispatch env c s = Ok r t \<Longrightarrow> marked i v t"
    and marked_stays: "marked i v s \<Longrightarrow> marked i v (snd (invoke env c s))"
    and good_stays: "good s \<Longrightarrow> good (snd (invoke env c s))"
begin

lemma run_marked: "marked i v s \<Longrightarrow> marked i v (run_calls ecs s)"
  by (induction ecs arbitrary: s) (simp_all add: marked_stays)

lemma run_good: "good s \<Longrightarrow> good (run_calls ecs s)"
  by (induction ecs arbitrary: s) (simp_all add: good_stays)

lemma once:
  assumes "good s" and "(i, v) \<in> set (casts c)" and "dispatch env c s = Ok r t" and "(i, v) \<in> set (casts c')"
  shows "fst (invoke env' c' (run_calls ecs t)) \<noteq> Returned r'"
proof
  assume "fst (invoke env' c' (run_calls ecs t)) = Returned r'"
  then obtain t' where "dispatch env' c' (run_calls ecs t) = Ok r' t'"
    using invoke_returned by (metis prod.collapse)
  moreover have "good t"
    using good_stays [OF assms(1), of env c] assms(3) by (simp add: invoke_def)
  ultimately show False
    using refused [OF run_good _] assms(4) run_marked [OF recorded [OF assms(1-3)]] by blast
qed

end

section \<open>The loan box and the treasury box\<close>

text \<open>The ballots a call casts: the kind and number of the proposal, and the voter; a batch casts one per vote.\<close>

definition ballots_of :: "call \<Rightarrow> (proposal_kind \<times> u32 \<times> address) list" where
  "ballots_of c =
     (case c of
        VoteOnLoanProposal v i _ \<Rightarrow> [(LoanKind, i, v)]
      | VoteBatch v votes \<Rightarrow> map (\<lambda>x. (LoanKind, pv_proposal_id x, v)) votes
      | VoteOnTreasuryProposal v i _ \<Rightarrow> [(TreasuryKind, i, v)]
      | RevealTreasuryVote v i _ _ \<Rightarrow> [(TreasuryKind, i, v)]
      | _ \<Rightarrow> [])"

definition ballots_in :: "proposal_kind \<Rightarrow> call \<Rightarrow> (u32 \<times> address) list" where
  "ballots_in k c = map snd (filter (\<lambda>b. fst b = k) (ballots_of c))"

lemma ballots_in_iff: "x \<in> set (ballots_in k c) \<longleftrightarrow> (k, x) \<in> set (ballots_of c)"
  by (force simp: ballots_in_def)

lemma loan_ballots:
  "(LoanKind, i, v) \<in> set (ballots_of c) \<longleftrightarrow>
     (\<exists>b. c = VoteOnLoanProposal v i b) \<or> (\<exists>votes. c = VoteBatch v votes \<and> i \<in> pv_proposal_id ` set votes)"
  by (cases c) (auto simp: ballots_of_def)

lemma treasury_ballots:
  "(TreasuryKind, i, v) \<in> set (ballots_of c) \<longleftrightarrow>
     (\<exists>b. c = VoteOnTreasuryProposal v i b) \<or> (\<exists>b salt. c = RevealTreasuryVote v i b salt)"
  by (cases c) (auto simp: ballots_of_def)

definition loan_marked :: "u32 \<Rightarrow> address \<Rightarrow> dao \<Rightarrow> bool" where
  "loan_marked i v s \<longleftrightarrow> kLoanVoted s (i, v) \<noteq> None"

definition treasury_marked :: "u32 \<Rightarrow> address \<Rightarrow> dao \<Rightarrow> bool" where
  "treasury_marked i v s \<longleftrightarrow> kTreasuryVoted s (i, v) \<noteq> None"

lemma loan_marked_depends: "depends {FLoanVoted} (loan_marked i v)"
  by (rule dependsI) (simp add: loan_marked_def)

lemma votes_keep_loan_mark:
  "keeps (loan_marked i v) (vote_on_loan_proposal_internal env w j b)"
  "keeps (loan_marked i v) (vote_on_loan_proposal env w j b)"
  "keeps (loan_marked i v) (vote_batch env w votes)"
proof -
  have k1: "keeps (loan_marked i v) (set_loan_voted j w)" for j w
    by (rule keepsI) (auto simp: set_loan_voted_def ok_simps err_simps loan_marked_def)
  have k2: "keeps (loan_marked i v) (approve_and_disburse env p)" for env p
    by (rule keeps_frame [where F = "{FLoan, FMember, FLedger, FEvents}", OF _ loan_marked_depends])
      (simp_all add: writes_intros)
  have k3: "keeps (loan_marked i v) (set_loan_proposal env p)" for env p
    by (rule keeps_frame [where F = "{FLoanProposal, FOpenProposals}", OF _ loan_marked_depends])
      (simp_all add: writes_intros)
  have k4: "keeps (loan_marked i v) (publish e)" for e
    by (rule keeps_frame [where F = "{FEvents}", OF _ loan_marked_depends]) (simp_all add: writes_intros)
  show "keeps (loan_marked i v) (vote_on_loan_proposal_internal env w j b)"
    "keeps (loan_marked i v) (vote_on_loan_proposal env w j b)" "keeps (loan_marked i v) (vote_batch env w votes)"
    using keeps_ballot [OF k2 k3 k1 k4] by blast+
qed

interpretation loan_mark: stable "loan_marked i v" "{FLoanVoted}" any_call
proof unfold_locales
  show "depends {FLoanVoted} (loan_marked i v)" by (rule loan_marked_depends)
  show "FLedger \<notin> {FLoanVoted}" by simp
  show "loan_marked i v t" if "footprint c \<inter> {FLoanVoted} \<noteq> {}" "dispatch env c s = Ok r t" "loan_marked i v s"
    for c env s r t
    using that
    by (cases c) (auto simp: ok_simps dest: keepsD_Ok [OF votes_keep_loan_mark(2)] keepsD_Ok [OF votes_keep_loan_mark(3)])
qed

text \<open>A loan vote finds its voter unmarked and marks it; so does each vote of a batch, in its turn.\<close>

lemma loan_vote_marks:
  assumes "vote_on_loan_proposal_internal env v i b s = Ok u t"
  shows "\<not> loan_marked i v s" and "loan_marked i v t"
proof -
  obtain p q s1 s2 where bal: "ballots env v i b p q s s1 s2 t" using ok_loan_vote assms by blast
  then show "\<not> loan_marked i v s" by (simp add: ballots_def loan_marked_def)
  from bal obtain p1 where
    cast: "cast_loan_vote env v i b (refreshed env p) s = Ok p1 s1" and
    con: "concludes env p1 q s1 s2" and set: "set_loan_proposal env q s2 = Ok () t"
    by (auto simp: ballots_def)
  have ap: "kLoanVoted u = kLoanVoted w" if "approve_and_disburse env p1 w = Ok () u" for p1 w u
    using writes_Ok [where m = "approve_and_disburse env p1" and F = "{FLoan, FMember, FLedger, FEvents}", OF _ that]
    by (simp add: writes_intros agree_def all_fields)
  have st: "kLoanVoted u = kLoanVoted w" if "set_loan_proposal env p1 w = Ok () u" for p1 w u
    using ok_set_loan_proposal [OF that] by (simp add: agree_def all_fields)
  have "kLoanVoted s2 = kLoanVoted s1"
    using con by (auto simp: concludes_def Let_def agree_def all_fields dest!: ap st)
  with st [OF set] ok_cast_loan_vote(2) [OF cast] show "loan_marked i v t" by (simp add: loan_marked_def)
qed

lemma batch_marks:
  "for_each votes (\<lambda>x. vote_on_loan_proposal_internal env v (pv_proposal_id x) (pv_vote x)) s = Ok u t \<Longrightarrow>
   distinct (map pv_proposal_id votes) \<and>
   (\<forall>i \<in> pv_proposal_id ` set votes. \<not> loan_marked i v s \<and> loan_marked i v t)"
proof (induction votes arbitrary: s)
  case (Cons x votes)
  from Cons.prems obtain s1 where
    one: "vote_on_loan_proposal_internal env v (pv_proposal_id x) (pv_vote x) s = Ok () s1" and
    rest: "for_each votes (\<lambda>x. vote_on_loan_proposal_internal env v (pv_proposal_id x) (pv_vote x)) s1 = Ok u t"
    by (auto simp: ok_simps)
  have stay: "loan_marked i v s \<Longrightarrow> loan_marked i v s1" "loan_marked i v s1 \<Longrightarrow> loan_marked i v t" for i
    using keepsD_Ok [OF votes_keep_loan_mark(1) one]
      keepsD_Ok [OF keeps_for_each [OF votes_keep_loan_mark(1)] rest] by blast+
  from Cons.IH [OF rest] loan_vote_marks [OF one] show ?case by (auto intro: stay)
qed simp

lemma treasury_key: "withdrawals_ok s \<Longrightarrow> kTreasuryProposal s i = Some p \<Longrightarrow> t_id p = i"
  by (simp add: withdrawals_ok_def)

interpretation treasury_mark: stable "treasury_marked i v" "{FTreasuryVoted}" any_call
proof unfold_locales
  show "depends {FTreasuryVoted} (treasury_marked i v)" by (rule dependsI) (simp add: treasury_marked_def)
  show "FLedger \<notin> {FTreasuryVoted}" by simp
  show "treasury_marked i v t" if "footprint c \<inter> {FTreasuryVoted} \<noteq> {}" "dispatch env c s = Ok r t" "treasury_marked i v s"
    for c env s r t
    using that
    by (cases c) (auto simp: ok_simps treasury_marked_def polls_def dest!: ok_treasury_vote ok_reveal_vote)
qed

lemma loan_ballot_marks:
  assumes "(LoanKind, i, v) \<in> set (ballots_of c)" and "dispatch env c s = Ok r t"
  shows "\<not> loan_marked i v s" and "loan_marked i v t"
  using assms by (auto simp: loan_ballots ok_simps vote_on_loan_proposal_def vote_batch_def
      dest: loan_vote_marks dest!: batch_marks)

lemma ballots_distinct: "dispatch env c s = Ok r t \<Longrightarrow> distinct (ballots_of c)"
  by (cases c) (auto simp: ballots_of_def ok_simps vote_batch_def distinct_map inj_on_def dest!: batch_marks)

interpretation loan_box: ballot_box loan_marked "\<lambda>s. True" "ballots_in LoanKind"
  by unfold_locales (auto simp: ballots_in_iff intro: loan_mark.invoke_keeps loan_ballot_marks dest: loan_ballot_marks)

interpretation treasury_box: ballot_box treasury_marked withdrawals_ok "ballots_in TreasuryKind"
proof unfold_locales
  fix i v env s r t c
  assume "withdrawals_ok s" "(i, v) \<in> set (ballots_in TreasuryKind c)" "dispatch env c s = Ok r t"
  then obtain p where p: "polls env v p s t" "t_id p = i"
    by (auto simp: ballots_in_iff treasury_ballots ok_simps withdrawals_ok_def
        dest!: ok_treasury_vote ok_reveal_vote)
  then show "\<not> treasury_marked i v s" "treasury_marked i v t"
    by (auto simp: treasury_marked_def polls_def)
qed (auto intro: treasury_mark.invoke_keeps withdrawals.invoke_keeps)

section \<open>Commitments\<close>

text \<open>A commitment stays until its voter's ballot is counted.\<close>

definition committed :: "u32 \<Rightarrow> address \<Rightarrow> bytes \<Rightarrow> dao \<Rightarrow> bool" where
  "committed i v h s \<longleftrightarrow> withdrawals_ok s \<and> (kCommit s (i, v) = Some h \<or> treasury_marked i v s)"

interpretation committed: stable "committed i v h" "{FTreasuryProposal, FNextTreasuryId, FCommit, FTreasuryVoted}" any_call
proof unfold_locales
  show "depends {FTreasuryProposal, FNextTreasuryId, FCommit, FTreasuryVoted} (committed i v h)"
    by (rule dependsI) (simp add: committed_def withdrawals_ok_def treasury_marked_def get_proposal_count_def)
  show "FLedger \<notin> {FTreasuryProposal, FNextTreasuryId, FCommit, FTreasuryVoted}" by simp
  fix c env s r t
  assume run: "dispatch env c s = Ok r t" and h: "committed i v h s"
  have ok: "withdrawals_ok t" using withdrawals.dispatch_keeps [OF any_callI run] h by (simp add: committed_def)
  have mark: "treasury_marked i v s \<Longrightarrow> treasury_marked i v t" by (rule treasury_mark.dispatch_keeps [OF any_callI run])
  have frame: "FCommit \<notin> footprint c \<Longrightarrow> kCommit t = kCommit s"
    using agreeD [OF writes_Ok [OF writes_dispatch run], of FCommit] by simp
  have "treasury_marked i v t \<or> kCommit t (i, v) = Some h" if "kCommit s (i, v) = Some h"
  proof (cases c)
    case (CommitTreasuryVote w j x)
    with run that show ?thesis
      by (auto simp: ok_simps commit_vote_def get_commit_def set_commit_def split: if_splits)
  next
    case (RevealTreasuryVote w j b salt)
    with run obtain p where p: "kTreasuryProposal s j = Some p" "kCommit t = (kCommit s)((j, w) := None)" "polls env w p s t"
      by (auto simp: ok_simps dest!: ok_reveal_vote)
    moreover have "t_id p = j" using p(1) h by (auto simp: committed_def withdrawals_ok_def)
    ultimately show ?thesis using that by (auto simp: polls_def treasury_marked_def)
  qed (use frame that in auto)
  with ok mark h show "committed i v h t" by (auto simp: committed_def)
qed

text \<open>Two openings of one commitment by the same voter are the same, or exhibit two preimages of one hash.\<close>

lemma preimage_binds:
  "commitment_preimage env v i b salt = commitment_preimage env v i b' salt' \<longleftrightarrow> b = b' \<and> salt = salt'"
  by (cases b; cases b') (auto simp: commitment_preimage_def)

section \<open>A batch of votes\<close>

text \<open>Calls one after the other, each with the same environment, all successful.\<close>

primrec all_succeed :: "env \<Rightarrow> call list \<Rightarrow> dao \<Rightarrow> dao option" where
  "all_succeed env [] s = Some s"
| "all_succeed env (c # cs) s =
     (case dispatch env c s of Ok r t \<Rightarrow> all_succeed env cs t | Err e t \<Rightarrow> None | Panic \<Rightarrow> None)"

definition may_vote :: "env \<Rightarrow> address \<Rightarrow> dao \<Rightarrow> bool" where
  "may_vote env v s \<longleftrightarrow>
     is_initialized s \<and> \<not> is_paused s \<and> env_auth env v \<and> is_member v s \<and>
     (\<forall>a m. kMember s a = Some m \<longrightarrow> m_address m = a)"

lemma may_vote_depends: "depends {FAdmins, FPaused, FMember} (may_vote env v)"
  by (rule dependsI) (simp add: may_vote_def is_initialized_def is_paused_def is_member_def get_member_def)

lemma approve_keeps_may_vote: "keeps (may_vote env v) (approve_and_disburse env' p)"
proof (rule keepsI)
  fix s x t assume "may_vote env v s" "approve_and_disburse env' p s = Ok x t"
  then show "may_vote env v t"
    by (auto dest!: ok_approve simp: disburses_def Let_def may_vote_def is_initialized_def is_paused_def
        is_member_def get_member_def indebted_def split: option.splits if_splits)
next
  fix s e t assume "may_vote env v s" "approve_and_disburse env' p s = Err e t"
  then show "may_vote env v t"
    by (auto dest!: err_approve simp: may_vote_def is_initialized_def is_paused_def is_member_def get_member_def)
qed

lemmas may_vote_frame = keeps_frame [OF _ may_vote_depends]

lemma internal_keeps_may_vote: "keeps (may_vote env v) (vote_on_loan_proposal_internal env' w i b)"
proof -
  have "keeps (may_vote env v) (set_loan_proposal env' p)" for p
    by (rule may_vote_frame [where F = "{FLoanProposal, FOpenProposals}"]) (simp_all add: writes_intros)
  moreover have "keeps (may_vote env v) (set_loan_voted j w)" for j w
    by (rule may_vote_frame [where F = "{FLoanVoted}"]) (simp_all add: writes_intros)
  moreover have "keeps (may_vote env v) (publish e)" for e
    by (rule may_vote_frame [where F = "{FEvents}"]) (simp_all add: writes_intros)
  ultimately show ?thesis using keeps_ballot(1) [OF approve_keeps_may_vote] by blast
qed

lemma may_vote_calls:
  "may_vote env v s \<Longrightarrow> vote_on_loan_proposal env v i b s = vote_on_loan_proposal_internal env v i b s"
  "may_vote env v s \<Longrightarrow> vote_batch env v votes s =
     for_each votes (\<lambda>x. vote_on_loan_proposal_internal env v (pv_proposal_id x) (pv_vote x)) s"
  by (auto simp: may_vote_def is_member_def vote_on_loan_proposal_def vote_batch_def run_simps util_defs
      get_member_def is_initialized_def is_paused_def split: option.splits)

lemma batch_steps:
  "may_vote env v s \<Longrightarrow>
   for_each votes (\<lambda>x. vote_on_loan_proposal_internal env v (pv_proposal_id x) (pv_vote x)) s = Ok () t \<longleftrightarrow>
   all_succeed env (map (\<lambda>x. VoteOnLoanProposal v (pv_proposal_id x) (pv_vote x)) votes) s = Some t"
proof (induction votes arbitrary: s)
  case (Cons x votes)
  show ?case
  proof (cases "vote_on_loan_proposal_internal env v (pv_proposal_id x) (pv_vote x) s")
    case (Ok u s1)
    with keepsD_Ok [OF internal_keeps_may_vote Ok Cons.prems] show ?thesis
      by (simp add: may_vote_calls(1) [OF Cons.prems] reply_with_def run_simps Cons.IH)
  qed (simp_all add: may_vote_calls(1) [OF Cons.prems] reply_with_def run_simps)
qed (auto simp: run_simps)

lemma may_voteI:
  assumes "reachable any_call s" and "is_initialized s" and "\<not> is_paused s" and "env_auth env v"
    and "kMember s v = Some m" and "m_status m = ActiveMember"
  shows "may_vote env v s"
  using members.reachable_holds [OF assms(1)] assms(2-6)
  by (auto simp: may_vote_def is_member_def get_member_def members_ok_def book_ok_def)

section \<open>Properties\<close>

text \<open>
  C7: nobody votes twice: once a call cast a member's ballot on a proposal, by a vote, as one vote
  of a batch or by a reveal, no later call of any of the four voting entrypoints that casts a
  ballot of that member on it is accepted, whatever happens in between; and no accepted batch
  holds two votes on one proposal.
\<close>

theorem no_double_vote:
  assumes "reachable any_call s" and "b \<in> set (ballots_of c)" and "b \<in> set (ballots_of c')"
    and "dispatch env c s = Ok r t"
  shows "distinct (ballots_of c) \<and> fst (invoke env' c' (run_calls ecs t)) \<noteq> Returned r'"
proof -
  obtain k i v where b: "b = (k, i, v)" by (cases b)
  have ok: "withdrawals_ok s" by (rule withdrawals.reachable_holds [OF assms(1)])
  have "fst (invoke env' c' (run_calls ecs t)) \<noteq> Returned r'"
  proof (cases k)
    case LoanKind
    with b assms show ?thesis
      by (intro loan_box.once [where s = s and c = c and i = i and v = v]) (auto simp: ballots_in_iff)
  next
    case TreasuryKind
    with b assms ok show ?thesis
      by (intro treasury_box.once [where s = s and c = c and i = i and v = v]) (auto simp: ballots_in_iff)
  qed
  with ballots_distinct [OF assms(4)] show ?thesis by blast
qed

theorem no_double_vote_witness:
  "fst (invoke (host 40) (VoteOnTreasuryProposal alice 0 False)
     (run_calls [(host 30, VoteOnTreasuryProposal carol 0 True)] polled)) \<noteq> Returned NoValue"
proof -
  have "reachable any_call proposed"
    unfolding proposed_def by (intro reachable.call reachable_peopled) simp_all
  moreover have "dispatch (host 20) (VoteOnTreasuryProposal alice 0 True) proposed = Ok NoValue polled"
    using polled_run by (simp add: polled_eq)
  ultimately show ?thesis
    by (intro no_double_vote [where b = "(TreasuryKind, 0, alice)" and s = proposed and env = "host 20"
          and c = "VoteOnTreasuryProposal alice 0 True" and r = NoValue, THEN conjunct2])
      (simp_all add: ballots_of_def del: dispatch.simps)
qed

text \<open>
  C22: a commitment binds: whatever hash a voter committed to during the commit phase of a private
  proposal, and whatever happened since, a reveal is only accepted after that phase is over and
  with a vote and salt that hash to it; to be able to reveal another vote or salt as well, the
  voter needs two different inputs with the same SHA-256 hash.
\<close>

theorem revealed_vote_was_committed:
  assumes "reachable any_call s"
    and "dispatch env (CommitTreasuryVote v i h) s = Ok r t"
    and "dispatch env' (RevealTreasuryVote v i b salt) (run_calls ecs t) = Ok r' u"
  shows "h = env_sha256 env' (commitment_preimage env' v i b salt) \<and>
    (\<forall>b' salt'. h = env_sha256 env' (commitment_preimage env' v i b' salt') \<longrightarrow>
      b' = b \<and> salt' = salt \<or>
      commitment_preimage env' v i b' salt' \<noteq> commitment_preimage env' v i b salt \<and>
      env_sha256 env' (commitment_preimage env' v i b' salt') = env_sha256 env' (commitment_preimage env' v i b salt)) \<and>
    (\<exists>p. kTreasuryProposal s i = Some p \<and> t_private p \<and>
      env_now env \<le> t_created_at p + t_voting_period p \<and> t_created_at p + t_voting_period p < env_now env')"
proof -
  have ok: "withdrawals_ok s" by (rule withdrawals.reachable_holds [OF assms(1)])
  obtain p where p: "kTreasuryProposal s i = Some p" "t_private p" "env_now env \<le> t_created_at p + t_voting_period p"
    "kCommit t = (kCommit s)((i, v) \<mapsto> h)" "kTreasuryProposal t = kTreasuryProposal s"
    using assms(2) by (auto simp: ok_simps commit_vote_def set_commit_def not_less)
  have ok': "withdrawals_ok t" by (rule withdrawals.dispatch_keeps [OF any_callI assms(2) ok])
  with p(4) have "committed i v h t" by (simp add: committed_def)
  then have com: "committed i v h (run_calls ecs t)" by (rule committed.run_keeps) simp
  have "carried i p t" using ok' p(1,5) by (auto simp: carried_def intro: withdraws_refl)
  then have "carried i p (run_calls ecs t)" by (rule carried.run_keeps) simp
  then obtain q' where q': "kTreasuryProposal (run_calls ecs t) i = Some q'" "withdraws p q'" by (auto simp: carried_def)
  obtain q where q: "kTreasuryProposal (run_calls ecs t) i = Some q" "polls env' v q (run_calls ecs t) u"
    "kCommit (run_calls ecs t) (i, v) = Some (compute_commitment env' v i b salt)"
    "t_created_at q + t_voting_period q < env_now env'"
    using assms(3) by (auto simp: ok_simps dest!: ok_reveal_vote)
  from com q(1-3) have h: "h = env_sha256 env' (commitment_preimage env' v i b salt)"
    by (auto simp: committed_def withdrawals_ok_def polls_def treasury_marked_def compute_commitment_def)
  have "t_created_at p + t_voting_period p < env_now env'" using q(1,4) q' by (simp add: withdraws_def)
  with p(1-3) have "\<exists>p. kTreasuryProposal s i = Some p \<and> t_private p \<and>
      env_now env \<le> t_created_at p + t_voting_period p \<and> t_created_at p + t_voting_period p < env_now env'" by blast
  with h show ?thesis unfolding preimage_binds by simp blast
qed

theorem revealed_vote_was_committed_witness:
  "\<exists>u. dispatch (host 300000) (RevealTreasuryVote alice 0 True [42]) sealed = Ok NoValue u \<and>
       ballot = env_sha256 (host 300000) (commitment_preimage (host 300000) alice 0 True [42]) \<and>
       (\<exists>p. kTreasuryProposal secret 0 = Some p \<and> t_private p \<and>
          20 \<le> t_created_at p + t_voting_period p \<and> t_created_at p + t_voting_period p < 300000)"
proof -
  have "reachable any_call secret"
    unfolding secret_def by (intro reachable.call reachable_peopled) simp_all
  moreover have "dispatch (host 20) (CommitTreasuryVote alice 0 ballot) secret = Ok NoValue sealed"
    using sealed_run by (simp add: sealed_eq)
  moreover obtain u where u: "dispatch (host 300000) (RevealTreasuryVote alice 0 True [42]) (run_calls [] sealed) = Ok NoValue u"
    using opened_run by simp
  ultimately have "ballot = env_sha256 (host 300000) (commitment_preimage (host 300000) alice 0 True [42]) \<and>
    (\<exists>p. kTreasuryProposal secret 0 = Some p \<and> t_private p \<and>
       env_now (host 20) \<le> t_created_at p + t_voting_period p \<and> t_created_at p + t_voting_period p < env_now (host 300000))"
    by (intro conjI revealed_vote_was_committed [THEN conjunct1] revealed_vote_was_committed [THEN conjunct2, THEN conjunct2])
  moreover have "env_now (host 20) = 20" "env_now (host 300000) = 300000" by (simp_all add: host_def)
  ultimately show ?thesis using u by simp
qed

text \<open>
  C28: a batch is its votes one after the other, and all of them or none: it succeeds exactly when
  each single call does in turn, with the same final state.
\<close>

theorem batch_is_its_votes:
  assumes "reachable any_call s" and "votes \<noteq> []"
  shows "dispatch env (VoteBatch v votes) s = Ok NoValue t \<longleftrightarrow>
    all_succeed env (map (\<lambda>x. VoteOnLoanProposal v (pv_proposal_id x) (pv_vote x)) votes) s = Some t"
proof (cases "may_vote env v s")
  case True
  then show ?thesis
    using batch_steps [OF True, of votes t] by (auto simp: ok_simps may_vote_calls(2))
next
  case False
  have "dispatch env (VoteBatch v votes) s \<noteq> Ok NoValue t"
    using False may_voteI [OF assms(1)] by (auto simp: ok_simps vote_batch_def)
  moreover obtain x xs where "votes = x # xs" using assms(2) by (cases votes) auto
  moreover have "dispatch env (VoteOnLoanProposal v i b) s \<noteq> Ok r u" for i b r u
    using False may_voteI [OF assms(1)] by (auto simp: ok_simps vote_on_loan_proposal_def)
  ultimately show ?thesis by (auto split: outcome.splits)
qed

theorem batch_is_its_votes_witness:
  "all_succeed (host 259300) [VoteOnLoanProposal carol 0 True] backed = Some lent"
proof -
  have "reachable any_call backed"
    unfolding backed_def asked_def by (intro reachable.call reachable_peopled) simp_all
  moreover have "dispatch (host 259300) (VoteBatch carol [\<lparr>pv_proposal_id = 0, pv_vote = True\<rparr>]) backed = Ok NoValue lent"
    by (simp add: lent_eq backed_eq asked_eq peopled_eq founded_eq eval_simps address_names test_policy_def joiner_def
        loan_eval asked_proposal_def purse_def vote_eval Let_def lent_loan_def backed_proposal_def mock_transfer_def
        vote_batch_def)
  ultimately show ?thesis
    using batch_is_its_votes [of backed "[\<lparr>pv_proposal_id = 0, pv_vote = True\<rparr>]" "host 259300" carol lent]
    by (simp only: list.map) simp
qed

end
