(* ===== verification/Typing.thy ===== *)
theory Typing
  imports Blocks
begin

text \<open>
  The integers in storage keep their machine types. The model computes on unbounded integers
  and tests the range where the code does; here it is shown that whatever is stored has gone
  through such a test, so every stored balance is an \<open>i128\<close> and every stored counter a \<open>u32\<close>.
\<close>

section \<open>Stored integers\<close>

definition ints_ok :: "dao \<Rightarrow> bool" where
  "ints_ok s \<longleftrightarrow>
     in_i128 (get_total_staked s) \<and> (\<forall>a n. kStake s a = Some n \<longrightarrow> in_i128 n) \<and>
     in_i128 (get_active_contributions s) \<and> in_i128 (get_yield_accumulator s) \<and> in_i128 (get_yield_remainder s) \<and>
     get_total_members s \<le> u32_MAX \<and> get_active_members s \<le> u32_MAX \<and>
     get_proposal_count NextProposalId s \<le> u32_MAX \<and> get_proposal_count NextTreasuryId s \<le> u32_MAX"

text \<open>The arguments that reach storage unchecked have their Rust types.\<close>

definition typed_call :: "call \<Rightarrow> bool" where
  "typed_call c \<longleftrightarrow> (case c of SeedStakes _ es \<Rightarrow> \<forall>e \<in> set es. in_i128 (sse_amount e) | _ \<Rightarrow> True)"

definition int_keys :: "field set" where
  "int_keys = {FTotalStaked, FStake, FActiveContributions, FYieldAccumulator, FYieldRemainder,
     FTotalMembers, FActiveMembers, FNextProposalId, FNextTreasuryId}"

lemma ints_depends: "depends int_keys ints_ok"
  by (rule dependsI)
    (simp add: int_keys_def ints_ok_def accessor_defs)

text \<open>What a checked operation hands to the program behind it.\<close>

lemma keeps_checked_binds:
  "(\<And>x. in_i128 x \<Longrightarrow> keeps P (f x)) \<Longrightarrow> keeps P (and_then (i128_add a b) f)"
  "(\<And>x. in_i128 x \<Longrightarrow> keeps P (f x)) \<Longrightarrow> keeps P (and_then (i128_sub a b) f)"
  "(\<And>n. n \<le> u32_MAX \<Longrightarrow> keeps P (g n)) \<Longrightarrow> keeps P (and_then (u32_add k l) g)"
  by (rule keepsI; auto simp: ok_simps err_simps dest: keepsD_Ok keepsD_Err)+

lemma keeps_sub_bind: "(\<And>n. n \<le> k \<Longrightarrow> keeps P (g n)) \<Longrightarrow> keeps P (and_then (u32_sub k l) g)"
proof -
  assume "\<And>n. n \<le> k \<Longrightarrow> keeps P (g n)"
  then have "keeps P (g (k - l))" by simp
  then show ?thesis by (intro keepsI) (auto simp: ok_simps err_simps dest: keepsD_Ok keepsD_Err)
qed

lemma keeps_reads_bind: "(\<And>s. P s \<Longrightarrow> keeps P (f (g s))) \<Longrightarrow> keeps P (and_then (reads g) f)"
  by (rule keepsI) (auto simp: ok_simps err_simps dest: keepsD_Ok keepsD_Err)

lemma typed_setters:
  "in_i128 x \<Longrightarrow> keeps ints_ok (set_total_staked x)"
  "in_i128 x \<Longrightarrow> keeps ints_ok (set_stake a x)"
  "in_i128 x \<Longrightarrow> keeps ints_ok (set_active_contributions x)"
  "in_i128 x \<Longrightarrow> keeps ints_ok (set_yield_accumulator x)"
  "in_i128 x \<Longrightarrow> keeps ints_ok (set_yield_remainder x)"
  "n \<le> u32_MAX \<Longrightarrow> keeps ints_ok (set_total_members n)"
  "n \<le> u32_MAX \<Longrightarrow> keeps ints_ok (set_active_members n)"
  "n \<le> u32_MAX \<Longrightarrow> keeps ints_ok (set_next_proposal_id_at_least n)"
  "n \<le> u32_MAX \<Longrightarrow> keeps ints_ok (set_next_treasury_id_at_least n)"
  "keeps ints_ok (next_id k)"
  by (rule keepsI; cases k; auto simp: ints_ok_def accessor_defs ok_simps err_simps next_id_def split: if_splits)+

lemma smod_in_i128: "in_i128 a \<Longrightarrow> in_i128 (a smod b)"
proof -
  assume a: "in_i128 a"
  have m: "0 \<le> \<bar>a\<bar> mod \<bar>b\<bar>" "\<bar>a\<bar> mod \<bar>b\<bar> \<le> \<bar>a\<bar>"
    by (cases "b = 0"; simp add: zmod_le_nonneg_dividend)+
  show ?thesis
    using a m by (cases "0 \<le> a") (auto simp: signed_modulo_int_def sgn_if int_bounds)
qed

lemmas ints_frame = keeps_frame [OF _ ints_depends]

text \<open>Programs that write none of these keys.\<close>

lemma untouched [keeps_intros]:
  "keeps ints_ok (set_member m)" "keeps ints_ok (set_members v)" "keeps ints_ok (set_yield_snapshot a x)"
  "keeps ints_ok (publish e)" "keeps ints_ok (token_transfer env tok a b x)" "keeps ints_ok (release_name a)"
  "keeps ints_ok (set_stake_time a n)" "keeps ints_ok (set_loan l)" "keeps ints_ok (set_doc k i h)"
  "keeps ints_ok (set_loan_proposal env p)" "keeps ints_ok (set_treasury_proposal env q)"
  "keeps ints_ok (set_loan_asset i a)" "keeps ints_ok (set_treasury_asset i a)"
  "keeps ints_ok (set_admins v)" "keeps ints_ok (set_threshold n)" "keeps ints_ok (set_membership_fee x)"
  "keeps ints_ok (set_token a)" "keeps ints_ok (set_policy pol)" "keeps ints_ok (set_paused halt)"
  "keeps ints_ok (get_open_proposals env who)"
  by (rule ints_frame [where F = "- int_keys"]; simp add: writes_intros int_keys_def)+

section \<open>Every operation\<close>

lemmas typed_intros = typed_setters keeps_checked_binds keeps_sub_bind

lemma keeps_config [keeps_intros]:
  "keeps P get_membership_fee" "keeps P get_token" "keeps P get_policy"
  by (intro keeps_pure_prog writes_intros)+

lemma typed_membership:
  "keeps ints_ok (register_member env who)" "keeps ints_ok (exit_dao env who)"
  by (auto simp: register_member_def exit_dao_def check_funds_def unlock_stake_def pay_out_def loan_counters_def
      calculate_exit_share_def compute_pending_yield_def Let_def split: prod.splits
      intro!: typed_intros keeps_reads_bind keeps_intros)
    (auto simp: ints_ok_def int_bounds)

lemma typed_staking:
  "keeps ints_ok (stake env who x)" "keeps ints_ok (unstake env who x)"
  by (auto simp: stake_def unstake_def reject_if_any_def intro!: typed_intros keeps_reads_bind keeps_intros)

lemma typed_interest: "keeps ints_ok (distribute_interest x a)"
  unfolding distribute_interest_def Let_def
  by (auto intro!: typed_intros keeps_reads_bind keeps_intros smod_in_i128)

lemma typed_repay: "keeps ints_ok (repay_loan_internal env who i a)" "keeps ints_ok (mark_loan_defaulted env i)"
  by (auto simp: repay_loan_internal_def mark_loan_defaulted_def close_if_repaid_def slash_borrower_def Let_def
      get_loan_asset_def
      intro!: typed_intros typed_interest keeps_reads_bind keeps_intros)

lemma typed_proposals:
  "keeps ints_ok (request_loan_in_asset env who x a cid)"
  "keeps ints_ok (propose_withdrawal_in_asset env who x a d why hidden)"
  by (auto simp: request_loan_in_asset_def propose_withdrawal_in_asset_def Let_def check_metadata_cid_def
      is_eligible_for_loan_def
      intro!: typed_intros keeps_reads_bind keeps_intros)

lemma typed_initialize: "keeps ints_ok (initialize env v n x a pol)"
  by (auto simp: initialize_def validate_policy_def validate_token_def intro!: typed_intros keeps_reads_bind keeps_intros)

text \<open>The seeding loops carry their totals in local variables.\<close>

lemma typed_seed_loops:
  "keeps ints_ok (seed_loans env who ls)" "keeps ints_ok (seed_docs env who ds)"
proof -
  have "keeps ints_ok (seed_doc d)" for d
    by (cases "sde_kind d") (auto simp: seed_doc_def intro!: typed_intros keeps_intros)
  then show "keeps ints_ok (seed_loans env who ls)" "keeps ints_ok (seed_docs env who ds)"
    by (auto simp: seed_loans_def seed_docs_def require_seeding_open_def intro!: typed_intros keeps_reads_bind keeps_intros)
qed

lemma seed_stakes_typed:
  "ints_ok s \<Longrightarrow> in_i128 tot \<Longrightarrow> \<forall>e \<in> set es. in_i128 (sse_amount e) \<Longrightarrow>
   fold_prog seed_stake es tot s = Ok tot' t \<Longrightarrow> ints_ok t \<and> in_i128 tot'"
proof (induction es arbitrary: tot s)
  case (Cons e es)
  then obtain tot1 s1 where
    s1: "seed_stake e tot s = Ok tot1 s1" "fold_prog seed_stake es tot1 s1 = Ok tot' t" by (auto simp: ok_simps)
  have "ints_ok s1 \<and> in_i128 tot1"
    using s1(1) Cons.prems by (auto simp: seed_stake_def ok_simps accessor_defs ints_ok_def)
  with Cons s1(2) show ?case by auto
qed (auto simp: ok_simps)

definition acc_ok :: "seed_acc \<Rightarrow> bool" where
  "acc_ok a \<longleftrightarrow> sa_total a \<le> u32_MAX \<and> sa_active a \<le> u32_MAX \<and> in_i128 (sa_contributions a)"

lemma undo_typed: "acc_ok a \<Longrightarrow> acc_ok (undo_member who already a)"
  by (auto simp: acc_ok_def undo_member_def u32_saturating_sub_def i128_saturating_sub_def int_bounds Let_def
      split: option.splits)

lemma seed_members_typed:
  "ints_ok s \<Longrightarrow> acc_ok a \<Longrightarrow> fold_prog seed_member ms a s = Ok a' t \<Longrightarrow> ints_ok t \<and> acc_ok a'"
proof (induction ms arbitrary: a s)
  case (Cons m ms)
  then obtain a1 s1 where
    s1: "seed_member m a s = Ok a1 s1" "fold_prog seed_member ms a1 s1 = Ok a' t" by (auto simp: ok_simps)
  have "keeps ints_ok (seed_member m a)"
    by (auto simp: seed_member_def intro!: keeps_intros)
  then have "ints_ok s1" using s1(1) Cons.prems(1) by (rule keepsD_Ok)
  moreover have "acc_ok a1"
    using s1(1) undo_typed [OF Cons.prems(2), of "m_address m" "get_member (m_address m) s"]
    by (auto simp: seed_member_def ok_simps acc_ok_def Let_def split: if_splits)
  ultimately show ?case using Cons s1(2) by auto
qed (auto simp: ok_simps)

section \<open>Every run\<close>

interpretation ints: invariant ints_ok int_keys typed_call
proof unfold_locales
  show "depends int_keys ints_ok" by (rule ints_depends)
  show "FLedger \<notin> int_keys" by (simp add: int_keys_def)
  show "ints_ok (fresh_dao l)" for l
    by (simp add: ints_ok_def accessor_defs int_bounds)
  fix c env s r t
  assume c: "typed_call c" "footprint c \<inter> int_keys \<noteq> {}" "dispatch env c s = Ok r t" "ints_ok s"
  from c show "ints_ok t"
  proof (cases c)
    case (SeedStakes who es)
    with c obtain tot t1 where f: "fold_prog seed_stake es (get_total_staked s) s = Ok tot t1"
      and g: "set_total_staked tot t1 = Ok () t"
      by (auto simp: ok_simps seed_stakes_def require_seeding_open_def)
    have "in_i128 (get_total_staked s)" "\<forall>e \<in> set es. in_i128 (sse_amount e)"
      using c(1,4) SeedStakes by (simp_all add: ints_ok_def typed_call_def)
    from seed_stakes_typed [OF c(4) this f] have "ints_ok t1" "in_i128 tot" by auto
    then show ?thesis using keepsD_Ok [OF typed_setters(1) g] by blast
  next
    case (SeedMembers who ms)
    define a0 where "a0 = \<lparr>sa_member_list = get_members s, sa_total = get_total_members s,
          sa_active = get_active_members s, sa_contributions = get_active_contributions s\<rparr>"
    from c SeedMembers obtain a t1 where f: "fold_prog seed_member ms a0 s = Ok a t1"
      and g: "(seq (set_members (sa_member_list a)) (seq (set_total_members (sa_total a))
         (seq (set_active_members (sa_active a)) (set_active_contributions (sa_contributions a))))) t1 = Ok () t"
      by (auto simp: ok_simps seed_members_def require_seeding_open_def a0_def)
    have "acc_ok a0" using c(4) by (simp add: ints_ok_def acc_ok_def a0_def)
    from seed_members_typed [OF c(4) this f] have a: "ints_ok t1" "acc_ok a" by auto
    have "keeps ints_ok (seq (set_members (sa_member_list a)) (seq (set_total_members (sa_total a))
         (seq (set_active_members (sa_active a)) (set_active_contributions (sa_contributions a)))))"
      using a(2) by (auto simp: acc_ok_def intro!: typed_intros keeps_intros)
    from keepsD_Ok [OF this g a(1)] show ?thesis .
  qed (auto simp: int_keys_def ok_simps request_loan_def propose_withdrawal_def repay_loan_def repay_loan_partial_def
        repay_loan_in_asset_def
        dest: keepsD_Ok [OF typed_membership(1)] keepsD_Ok [OF typed_membership(2)] keepsD_Ok [OF typed_staking(1)]
          keepsD_Ok [OF typed_staking(2)] keepsD_Ok [OF typed_repay(1)] keepsD_Ok [OF typed_repay(2)]
          keepsD_Ok [OF typed_proposals(1)] keepsD_Ok [OF typed_proposals(2)] keepsD_Ok [OF typed_initialize]
          keepsD_Ok [OF typed_seed_loops(1)] keepsD_Ok [OF typed_seed_loops(2)])
qed

lemma reachable_pledged_typed: "reachable typed_call pledged"
  by (intro reachable_pledged reachable_peopled) (simp_all add: typed_call_def)

end
