(* ===== verification/Weights.thy ===== *)
theory Weights
  imports Ballots Typing
begin

text \<open>
  Voting power: the integer square root behind the stake bonus, the weight of a ballot with its
  delegations, the total power of the members, the quorum bar, and the locks that keep a stake in
  place while it backs a ballot.
\<close>

section \<open>Every weight is computed\<close>

lemma sane_typed: "sane_stakes c \<Longrightarrow> typed_call c"
  by (cases c) (auto simp: sane_stakes_def typed_call_def)

lemma members_fit: "reachable typed_call s \<Longrightarrow> length (get_members s) \<le> u32_MAX"
proof -
  assume r: "reachable typed_call s"
  have "ints_ok s" by (rule ints.reachable_holds [OF r])
  moreover have "reachable any_call s" by (rule reachable_mono [OF r]) simp
  then have "members_ok s" by (rule members.reachable_holds)
  ultimately show ?thesis by (simp add: ints_ok_def members_ok_def book_ok_def)
qed

lemma typed_stakes: "reachable typed_call s \<Longrightarrow> stakes_typed s"
  using ints.reachable_holds [of s] by (simp add: ints_ok_def stakes_typed_def)

text \<open>The power of the members: what all of them could cast together.\<close>

definition delegators :: "address \<Rightarrow> dao \<Rightarrow> address set" where
  "delegators who s = {m \<in> set (get_members s). kDelegation s m = Some who}"

lemma weight_of_alt:
  assumes "distinct (get_members s)"
  shows "weight_of who s = (if kDelegation s who \<noteq> None then 0
           else member_weight who s + (\<Sum>m \<in> delegators who s. member_weight m s))"
proof -
  have "(\<Sum>m\<leftarrow>get_members s. if kDelegation s m = Some who then member_weight m s else 0)
        = (\<Sum>m \<in> set (get_members s). if kDelegation s m = Some who then member_weight m s else 0)"
    using assms by (simp add: sum_list_distinct_conv_sum_set)
  also have "\<dots> = (\<Sum>m \<in> delegators who s. member_weight m s)"
    by (simp add: delegators_def sum.inter_filter)
  finally show ?thesis by (simp add: weight_of_def)
qed



text \<open>With delegations a weight is zero for the delegator, and one to six votes more for each member behind it.\<close>

lemma weight_with_delegations:
  assumes "reachable typed_call s"
  shows "\<exists>w. voting_weight who s = Ok w s \<and>
           (if kDelegation s who \<noteq> None then w = 0
            else 1 + int (card (delegators who s)) \<le> w \<and> w \<le> 6 + 6 * int (card (delegators who s)))"
proof -
  have "reachable any_call s" by (rule reachable_mono [OF assms]) simp
  then have d: "distinct (get_members s)"
    using members.reachable_holds by (auto simp: members_ok_def book_ok_def)
  have run: "voting_weight who s = Ok (weight_of who s) s"
    by (rule voting_weight_runs [OF typed_stakes [OF assms] members_fit [OF assms]])
  have "(\<Sum>m \<in> delegators who s. 1) \<le> (\<Sum>m \<in> delegators who s. member_weight m s)"
    "(\<Sum>m \<in> delegators who s. member_weight m s) \<le> (\<Sum>m \<in> delegators who s. 6)"
    by (rule sum_mono, rule member_weight_bounds)+
  with run member_weight_bounds [of who s] show ?thesis
    by (auto simp: weight_of_alt [OF d])
qed

section \<open>The steps of the boost\<close>

lemma boost_steps: "1 \<le> k \<Longrightarrow> k \<le> 5 \<Longrightarrow> k \<le> boost_table x \<longleftrightarrow> 100 * (k * k) \<le> x"
proof -
  assume "1 \<le> k" "k \<le> 5"
  then have "k = 1 \<or> k = 2 \<or> k = 3 \<or> k = 4 \<or> k = 5" by arith
  then show ?thesis by (auto simp: boost_table_def)
qed

lemma boost_linear: "0 \<le> x \<Longrightarrow> 100 * boost_table x \<le> x"
  by (simp add: boost_table_def)


section \<open>Properties\<close>

text \<open>
  C32: the stake boost is quadratic and capped: it is computed for every 128-bit stake, lies between
  zero and five, reaches \<open>k\<close> votes exactly from \<open>100 * k^2\<close> staked tokens on, grows with the
  stake, and never pays more than one vote per hundred tokens.
\<close>

theorem stake_boost_is_quadratic:
  assumes "in_i128 staked"
  shows "\<exists>b. stake_boost staked s = Ok b s \<and> 0 \<le> b \<and> b \<le> 5 \<and>
           (\<forall>k. 1 \<le> k \<and> k \<le> 5 \<longrightarrow> (k \<le> b \<longleftrightarrow> 100 * (k * k) \<le> staked)) \<and>
           (\<forall>more. in_i128 more \<and> staked \<le> more \<longrightarrow> (\<exists>b'. stake_boost more s = Ok b' s \<and> b \<le> b')) \<and>
           (0 \<le> staked \<longrightarrow> 100 * b \<le> staked)"
proof -
  have "\<exists>b'. stake_boost more s = Ok b' s \<and> boost_table staked \<le> b'" if "in_i128 more" "staked \<le> more" for more
    using that stake_boost_table boost_table_mono by blast
  with assms show ?thesis by (simp add: stake_boost_table boost_table_bounds boost_steps boost_linear)
qed

theorem stake_boost_is_quadratic_witness: "stake_boost 1400 peopled = Ok 3 peopled"
proof -
  obtain b where b: "stake_boost 1400 peopled = Ok b peopled"
    "\<forall>k. 1 \<le> k \<and> k \<le> 5 \<longrightarrow> (k \<le> b \<longleftrightarrow> 100 * (k * k) \<le> 1400)"
    using stake_boost_is_quadratic [of 1400 peopled] by (auto simp: int_bounds)
  from b(2) have "3 \<le> b" "\<not> 4 \<le> b" by simp_all
  then have "b = 3" by simp
  with b(1) show ?thesis by simp
qed

text \<open>
  C34: the weight of an account that has neither given nor received a delegation is always
  computed and lies between one and six: one base vote, and one more for each of the five bonus
  steps \<open>100 * k^2\<close> that its stake reaches.
\<close>

theorem voting_weight_is_bounded:
  assumes "reachable typed_call s"
    and "kDelegation s who = None" and "\<forall>m. kDelegation s m \<noteq> Some who"
  shows "\<exists>w. voting_weight who s = Ok w s \<and> 1 \<le> w \<and> w \<le> 6 \<and>
           (\<forall>k. 1 \<le> k \<and> k \<le> 5 \<longrightarrow> (k + 1 \<le> w \<longleftrightarrow> 100 * (k * k) \<le> get_stake who s))"
proof -
  have "voting_weight who s = Ok (weight_of who s) s"
    by (rule voting_weight_runs [OF typed_stakes [OF assms(1)] members_fit [OF assms(1)]])
  moreover have "weight_of who s = 1 + boost_table (get_stake who s)"
    using assms(2,3) by (simp add: weight_of_def member_weight_def)
  moreover have "k + 1 \<le> 1 + boost_table x \<longleftrightarrow> k \<le> boost_table x" for k x by linarith
  ultimately show ?thesis using boost_table_bounds [of "get_stake who s"] by (auto simp: boost_steps)
qed

theorem voting_weight_is_bounded_witness:
  "\<exists>w. voting_weight carol pledged = Ok w pledged \<and> 4 \<le> w \<and> w \<le> 6"
proof -
  have "kDelegation pledged carol = None" "\<forall>m. kDelegation pledged m \<noteq> Some carol" "get_stake carol pledged = 1400"
    by (simp_all add: pledged_eq peopled_eq founded_eq get_stake_def)
  with voting_weight_is_bounded [OF reachable_pledged_typed, of carol] obtain w where
    w: "voting_weight carol pledged = Ok w pledged" "w \<le> 6"
      "\<forall>k. 1 \<le> k \<and> k \<le> 5 \<longrightarrow> (k + 1 \<le> w \<longleftrightarrow> 100 * (k * k) \<le> 1400)" by auto
  then have "4 \<le> w" using w(3) [rule_format, of 3] by simp
  with w show ?thesis by blast
qed



text \<open>
  C33: the quorum bar is the exact ceiling of the share of the active members: it is computed for
  all 32-bit inputs, and a vote count meets it precisely when it meets the share.
\<close>

theorem quorum_is_the_ceiling:
  assumes "n \<le> u32_MAX" and "bps \<le> u32_MAX"
  shows "\<exists>r. required_votes n bps s = Ok r s \<and> 0 \<le> r \<and> (\<forall>votes. r \<le> votes \<longleftrightarrow> int n * int bps \<le> votes * 10000) \<and>
           (bps \<le> 10000 \<longrightarrow> r \<le> int n)"
proof -
  define x where "x = int n * int bps"
  have "0 \<le> x + 9999" by (simp add: x_def)
  then have "0 \<le> (x + 9999) div 10000" by simp
  moreover have "bps \<le> 10000 \<longrightarrow> x \<le> int n * 10000" by (simp add: x_def mult_left_mono)
  then have "bps \<le> 10000 \<longrightarrow> (x + 9999) div 10000 \<le> int n" using ceil_bps_le_iff by blast
  moreover have "required_votes n bps s = Ok ((x + 9999) div 10000) s"
    unfolding x_def by (rule required_votes_runs [OF assms])
  ultimately show ?thesis using ceil_bps_le_iff [of x] unfolding x_def [symmetric] by blast
qed

theorem quorum_is_the_ceiling_witness: "required_votes 3 5100 peopled = Ok 2 peopled"
proof -
  have "(3::u32) \<le> u32_MAX" "(5100::u32) \<le> u32_MAX" by (simp_all add: int_bounds)
  from quorum_is_the_ceiling [OF this, of peopled] obtain r where
    r: "required_votes 3 5100 peopled = Ok r peopled" "\<forall>votes. r \<le> votes \<longleftrightarrow> 15300 \<le> votes * 10000" by auto
  from r(2) have "r \<le> 2" "\<not> r \<le> 1" by auto
  with r(1) show ?thesis by simp
qed

text \<open>
  C36: both loops of the square root end, none of their 128-bit operations overflows, and on every
  non-negative input the result is the exact integer square root.
\<close>

theorem square_root_is_exact:
  assumes "in_i128 n"
  shows "\<exists>r. isqrt n s = Ok r s \<and> 0 \<le> r \<and> (n \<le> 0 \<longrightarrow> r = 0) \<and> (0 \<le> n \<longrightarrow> r * r \<le> n \<and> n < (r + 1) * (r + 1))"
  using assms by (rule isqrt_exact)

theorem square_root_is_exact_witness: "isqrt 1700 peopled = Ok 41 peopled"
proof -
  obtain r where r: "isqrt 1700 peopled = Ok r peopled" "0 \<le> r" "r * r \<le> 1700" "1700 < (r + 1) * (r + 1)"
    using square_root_is_exact [of 1700 peopled] by (auto simp: int_bounds)
  have "r < 42"
  proof (rule ccontr)
    assume "\<not> r < 42"
    then have "42 * 42 \<le> r * r" by (intro mult_mono) auto
    with r(3) show False by simp
  qed
  moreover have "40 < r"
  proof (rule ccontr)
    assume "\<not> 40 < r"
    then have "(r + 1) * (r + 1) \<le> 41 * 41" using r(2) by (intro mult_mono) auto
    with r(4) show False by simp
  qed
  ultimately have "r = 41" by simp
  with r(1) show ?thesis by simp
qed

text \<open>
  C30: a stake stays locked while it backs a ballot: unstaking succeeds only for a covered amount
  and after the cooldown, and not while a pending proposal of any kind that the member requested,
  voted on or committed to is still inside its voting window.
\<close>

theorem unstake_respects_locks:
  assumes "reachable any_call s" and "unstake env who amount s = Ok u t"
  shows "0 < amount \<and> amount \<le> get_stake who s \<and>
         get_stake who t = get_stake who s - amount \<and> get_total_staked t = get_total_staked s - amount \<and>
         (\<forall>policy. kPolicy s = Some policy \<longrightarrow> get_stake_time who s + pol_cooldown_period policy \<le> env_now env) \<and>
         (\<forall>i p. kLoanProposal s i = Some p \<and> p_status p = Pending \<and> (p_borrower p = who \<or> kLoanVoted s (i, who) \<noteq> None) \<longrightarrow>
            u64_saturating_add (p_editing_period_end p) (p_voting_period p) < env_now env) \<and>
         (\<forall>i p. kTreasuryProposal s i = Some p \<and> t_status p = Pending \<and>
            (kTreasuryVoted s (i, who) \<noteq> None \<or> kCommit s (i, who) \<noteq> None) \<longrightarrow> treasury_voting_end p < env_now env)"
proof -
  from assms(2) have amount: "0 < amount" "amount \<le> get_stake who s"
    and stakes: "get_stake who t = get_stake who s - amount" "get_total_staked t = get_total_staked s - amount"
    and time: "\<forall>policy. kPolicy s = Some policy \<longrightarrow> get_stake_time who s + pol_cooldown_period policy \<le> env_now env"
    and clear: "\<forall>i < get_proposal_count NextProposalId s. \<not> own_request_open env who s i \<and> \<not> loan_ballot_open env who s i"
      "\<forall>i < get_proposal_count NextTreasuryId s. \<not> treasury_ballot_open env who s i"
    by (auto simp: unstake_def reject_if_any_def ok_simps accessor_defs not_le not_less)
  have "u64_saturating_add (p_editing_period_end p) (p_voting_period p) < env_now env"
    if p: "kLoanProposal s i = Some p" "p_status p = Pending" "p_borrower p = who \<or> kLoanVoted s (i, who) \<noteq> None" for i p
  proof -
    have i: "i < get_proposal_count NextProposalId s" "stage_of p \<in> loan_stages"
      using proposals.reachable_holds [OF assms(1)] p(1) by (auto simp: proposals_ok_def)
    have "p_phase p = Editing \<or> p_phase p = Voting"
      using pending_stages(3) [OF i(2)] p(2) by (auto simp: stage_of_def)
    moreover have "\<not> own_request_open env who s i" "\<not> loan_ballot_open env who s i" using clear(1) i(1) by auto
    ultimately show ?thesis
      using p by (auto simp: own_request_open_def loan_ballot_open_def get_loan_proposal_def has_loan_voted_def not_le)
  qed
  moreover have "treasury_voting_end p < env_now env"
    if p: "kTreasuryProposal s i = Some p" "t_status p = Pending"
      "kTreasuryVoted s (i, who) \<noteq> None \<or> kCommit s (i, who) \<noteq> None" for i p
  proof -
    have "i < get_proposal_count NextTreasuryId s"
      using withdrawals.reachable_holds [OF assms(1)] p(1) by (auto simp: withdrawals_ok_def)
    then have "\<not> treasury_ballot_open env who s i" using clear(2) by auto
    with p show ?thesis
      by (auto simp: treasury_ballot_open_def get_treasury_proposal_def has_treasury_voted_def get_commit_def not_le)
  qed
  ultimately show ?thesis using amount stakes time by blast
qed

lemma unpledged_run: "\<exists>t. unstake (host 30) carol 400 pledged = Ok () t"
proof -
  have boost: "stake_boost 1000 s = Ok 3 s" for s
    by (simp add: stake_boost_table int_bounds boost_table_def)
  show ?thesis
    by (simp add: pledged_eq peopled_eq founded_eq eval_simps address_names unstake_def reject_if_any_def
        test_policy_def boost)
qed

theorem unstake_respects_locks_witness:
  "\<exists>t. unstake (host 30) carol 400 pledged = Ok () t \<and> get_stake carol t = 1000"
proof -
  obtain t where run: "unstake (host 30) carol 400 pledged = Ok () t" using unpledged_run by blast
  have "reachable any_call pledged" by (intro reachable_pledged reachable_peopled) simp_all
  from unstake_respects_locks [OF this run] have "get_stake carol t = get_stake carol pledged - 400" by blast
  with run show ?thesis by (simp add: pledged_eq get_stake_def)
qed

end
