(* ===== verification/Records.thy ===== *)
theory Records
  imports Weights
begin

text \<open>
  The remaining records and the order of the guards: names and owners stay one to one, the
  seeding window closes for good, and the calls of a member fail in a fixed order of checks.
\<close>

section \<open>The name registry\<close>

text \<open>Seeding writes name pairs unchecked, so the registry is stated for the other calls.\<close>

definition own_names :: "call \<Rightarrow> bool" where
  "own_names c \<longleftrightarrow> (case c of SeedNames _ _ \<Rightarrow> False | _ \<Rightarrow> True)"

definition paired :: "(string \<rightharpoonup> address) \<Rightarrow> (address \<rightharpoonup> string) \<Rightarrow> bool" where
  "paired names owners \<longleftrightarrow>
     (\<forall>n a. names n = Some a \<longleftrightarrow> owners a = Some n) \<and> (\<forall>n. names n \<noteq> None \<longrightarrow> wf_name n)"

lemma paired_drop:
  "paired names owners \<Longrightarrow> paired (drop_name a owners names) (owners(a := None))"
  by (auto simp: paired_def drop_name_def split: option.splits) (metis option.inject)

lemma paired_add:
  "paired names owners \<Longrightarrow> names n = None \<Longrightarrow> owners a = None \<Longrightarrow> wf_name n \<Longrightarrow>
   paired (names(n \<mapsto> a)) (owners(a \<mapsto> n))"
  by (auto simp: paired_def) (metis option.distinct(1))

lemma paired_same: "paired names owners \<Longrightarrow> names n = Some a \<Longrightarrow> paired (names(n \<mapsto> a)) (owners(a \<mapsto> n))"
  by (auto simp: paired_def) (metis option.inject)

definition names_ok :: "dao \<Rightarrow> bool" where
  "names_ok s \<longleftrightarrow> paired (kName s) (kNameOf s)"

lemma ok_register_name:
  assumes "register_name env who name s = Ok u t"
  shows "is_initialized s \<and> wf_name name \<and> (kName s name = None \<or> kName s name = Some who) \<and>
    kNameOf t = (kNameOf s)(who \<mapsto> name) \<and>
    kName t = (if kNameOf s who = Some name then kName s else drop_name who (kNameOf s) (kName s))(name \<mapsto> who) \<and>
    kAdmins t = kAdmins s"
proof (cases "kNameOf s who")
  case None
  with assms show ?thesis
    by (auto simp: register_name_def ok_simps accessor_defs drop_name_def split: option.splits)
next
  case (Some old)
  with assms show ?thesis
    by (auto simp: register_name_def ok_simps accessor_defs drop_name_def split: option.splits)
qed

lemma register_keeps_names:
  assumes "names_ok s" and "register_name env who name s = Ok u t"
  shows "names_ok t"
proof -
  note r = ok_register_name [OF assms(2)]
  have p: "paired (kName s) (kNameOf s)" using assms(1) by (simp add: names_ok_def)
  show ?thesis
  proof (cases "kNameOf s who = Some name")
    case True
    then have "kName s name = Some who" using p by (simp add: paired_def)
    with paired_same [OF p this] r True show ?thesis by (simp add: names_ok_def)
  next
    case False
    then have "kName s name \<noteq> Some who" using p by (simp add: paired_def)
    with r have "kName s name = None" by simp
    then have "drop_name who (kNameOf s) (kName s) name = None"
      by (simp add: drop_name_def split: option.splits)
    from paired_add [OF paired_drop [OF p] this _ _, of who] r False show ?thesis
      by (simp add: names_ok_def)
  qed
qed

interpretation names: invariant names_ok "{FName, FNameOf}" own_names
proof unfold_locales
  show "depends {FName, FNameOf} names_ok" by (rule dependsI) (simp add: names_ok_def)
  show "FLedger \<notin> {FName, FNameOf}" by simp
  show "names_ok (fresh_dao l)" for l by (simp add: names_ok_def paired_def)
  fix c env s r t
  assume c: "own_names c" "footprint c \<inter> {FName, FNameOf} \<noteq> {}" "dispatch env c s = Ok r t" "names_ok s"
  from c show "names_ok t"
  proof (cases c)
    case (ExitDao who)
    with c obtain m where "leaves env who m s t" by (auto simp: ok_simps dest: ok_exit_dao)
    with paired_drop [of "kName s" "kNameOf s" who] c(4) show ?thesis by (simp add: leaves_def names_ok_def)
  next
    case (RegisterName who name)
    with c show ?thesis by (auto simp: ok_simps dest: register_keeps_names)
  qed (auto simp: own_names_def)
qed

section \<open>The seeding window\<close>

definition seeds :: "call \<Rightarrow> bool" where
  "seeds c \<longleftrightarrow>
     (case c of SeedMembers _ _ \<Rightarrow> True | SeedStakes _ _ \<Rightarrow> True | SeedPendingYield _ _ \<Rightarrow> True
      | SeedLoans _ _ \<Rightarrow> True | SeedNames _ _ \<Rightarrow> True | SeedDocs _ _ \<Rightarrow> True | LockSeeding _ \<Rightarrow> True | _ \<Rightarrow> False)"

interpretation closed: stable is_seeding_locked "{FMigrationSeedingLocked}" any_call
proof unfold_locales
  show "depends {FMigrationSeedingLocked} is_seeding_locked" by (rule dependsI) (simp add: is_seeding_locked_def)
  show "FLedger \<notin> {FMigrationSeedingLocked}" by simp
  show "is_seeding_locked t" if "footprint c \<inter> {FMigrationSeedingLocked} \<noteq> {}" "dispatch env c s = Ok r t" "is_seeding_locked s"
    for c env s r t
    using that by (cases c) (auto simp: ok_simps lock_seeding_def)
qed

lemma seeding_refused: "seeds c \<Longrightarrow> is_seeding_locked s \<Longrightarrow> dispatch env c s \<noteq> Ok r t"
  by (cases c) (auto simp: seeds_def ok_simps seed_members_def seed_stakes_def seed_pending_yield_def
      seed_loans_def seed_names_def seed_docs_def lock_seeding_def require_seeding_open_def)

section \<open>The guards of a member's call\<close>










section \<open>Properties\<close>

text \<open>
  C38: in every state reached without seeded names, names and owners are in one-to-one
  correspondence: resolving a name yields an owner exactly when that owner carries the name, and
  every registered name is well formed.
\<close>

theorem names_are_one_to_one:
  assumes "reachable own_names s" and "is_initialized s"
  shows "(resolve_name n s = Ok (Some a) s \<longleftrightarrow> name_of a s = Ok (Some n) s) \<and>
         (resolve_name n s \<noteq> Ok None s \<longrightarrow> wf_name n)"
proof -
  have ok: "paired (kName s) (kNameOf s)"
    using names.reachable_holds [OF assms(1)] by (simp add: names_ok_def)
  have "resolve_name n s = Ok (kName s n) s" "name_of a s = Ok (kNameOf s a) s"
    using assms(2) by (simp_all add: resolve_name_def name_of_def run_simps require_initialized_def accessor_defs)
  with ok show ?thesis by (simp add: paired_def)
qed

lemma reachable_named: "reachable own_names named"
  unfolding named_def
  by (intro reachable.call reachable_peopled) (simp_all add: own_names_def)

theorem names_are_one_to_one_witness: "name_of alice named = Ok (Some ''alice'') named"
proof -
  have "is_initialized named" by (simp add: named_eq peopled_eq founded_eq is_initialized_def)
  moreover have "resolve_name ''alice'' named = Ok (Some alice) named"
    by (simp add: resolve_name_def run_simps require_initialized_def accessor_defs is_initialized_def
        named_eq peopled_eq founded_eq)
  ultimately show ?thesis using names_are_one_to_one [OF reachable_named] by blast
qed

text \<open>
  C39: registering round-trips: the name resolves to its new owner and back, the owner's former
  name is free again, and no other member's name changes.
\<close>

theorem registered_names_resolve:
  assumes "reachable own_names s" and "register_name env who name s = Ok u t"
  shows "resolve_name name t = Ok (Some who) t \<and> name_of who t = Ok (Some name) t \<and>
         (\<forall>old. kNameOf s who = Some old \<and> old \<noteq> name \<longrightarrow> resolve_name old t = Ok None t) \<and>
         (\<forall>a. a \<noteq> who \<longrightarrow> kNameOf t a = kNameOf s a)"
proof -
  note r = ok_register_name [OF assms(2)]
  then have "is_initialized t" by (simp add: is_initialized_def)
  then have "resolve_name n t = Ok (kName t n) t" "name_of a t = Ok (kNameOf t a) t" for n a
    by (simp_all add: resolve_name_def name_of_def run_simps require_initialized_def accessor_defs)
  with r show ?thesis by (auto simp: drop_name_def)
qed

theorem registered_names_resolve_witness: "resolve_name ''alice'' named = Ok (Some alice) named"
proof -
  have "reachable own_names peopled"
    by (intro reachable_peopled) (simp_all add: own_names_def)
  moreover have "register_name (host 5) alice ''alice'' peopled = Ok () named"
    using named_run by (auto simp: ok_simps named_eq)
  ultimately show ?thesis using registered_names_resolve by blast
qed

text \<open>
  The seeding window closes for good: after it is locked, no seeding call and no second lock
  ever succeeds again.
\<close>

theorem seeding_stays_locked:
  assumes "dispatch env (LockSeeding who) s = Ok r t" and "seeds c"
  shows "fst (invoke env' c (run_calls ecs t)) \<noteq> Returned r'"
proof -
  have "is_seeding_locked t"
    using assms(1) by (auto simp: ok_simps lock_seeding_def accessor_defs)
  then have "is_seeding_locked (run_calls ecs t)" by (rule closed.run_keeps) simp
  from seeding_refused [OF assms(2) this] show ?thesis
    by (auto simp: invoke_def split: outcome.splits)
qed

theorem seeding_stays_locked_witness:
  "fst (invoke (host 9) (SeedMembers boss [joiner bob]) (snd (invoke (host 8) (LockSeeding boss) founded))) \<noteq> Returned NoValue"
proof -
  obtain t where run: "dispatch (host 8) (LockSeeding boss) founded = Ok NoValue t"
    by (simp add: founded_eq eval_simps address_names lock_seeding_def)
  have "seeds (SeedMembers boss [joiner bob])" by (simp add: seeds_def)
  from seeding_stays_locked [OF run this, of "host 9" "[]" NoValue] show ?thesis
    by (simp add: invoke_def run del: dispatch.simps)
qed



end
