(* ===== verification/Paging.thy ===== *)
theory Paging
  imports Weights
begin

text \<open>
  The paginated view of the members against its specification: pages are slices of one list, in
  the order of joining, with no record missing.
\<close>

section \<open>The specification\<close>

text \<open>All member records, in the order of joining.\<close>

definition roll :: "dao \<Rightarrow> member list" where
  "roll s = map (\<lambda>a. the (kMember s a)) (get_members s)"

definition page :: "nat \<Rightarrow> nat \<Rightarrow> 'a list \<Rightarrow> 'a list" where
  "page start limit xs = take limit (drop start xs)"

lemma page_append: "page start n xs @ page (start + n) k xs = page start (n + k) xs"
  by (simp add: page_def take_add add.commute [of start n])

lemma map_index_page:
  "map (\<lambda>i. f (xs ! i)) [min start (length xs)..<min (start + limit) (length xs)] = page start limit (map f xs)"
proof (cases "start \<le> length xs")
  case True
  then show ?thesis by (intro nth_equalityI) (auto simp: page_def less_diff_conv add.commute)
qed (simp add: page_def)

lemma map_filter_total: "(\<And>x. x \<in> set xs \<Longrightarrow> f x \<noteq> None) \<Longrightarrow> List.map_filter f xs = map (\<lambda>x. the (f x)) xs"
  by (induction xs) (auto simp: List.map_filter_simps split: option.splits)

lemma members_stored: "members_ok s \<Longrightarrow> a \<in> set (get_members s) \<Longrightarrow> kMember s a \<noteq> None"
  by (auto simp: members_ok_def book_ok_def)

section \<open>Properties\<close>

text \<open>
  The paginated member list is the slice of all member records in joining order: no page
  misses or repeats a record, a page past the end is shorter or empty, and two consecutive pages
  are one longer page.
\<close>

theorem member_pages_are_slices:
  assumes "reachable any_call s" and "start + n + k \<le> u32_MAX"
  shows "list_members start n s = Ok (page start n (roll s)) s \<and>
         list_members (start + n) k s = Ok (page (start + n) k (roll s)) s \<and>
         page start n (roll s) @ page (start + n) k (roll s) = page start (n + k) (roll s) \<and>
         length (roll s) = get_total_members s \<and> distinct (map m_address (roll s))"
proof -
  have ok: "members_ok s" by (rule members.reachable_holds [OF assms(1)])
  have run: "list_members a l s = Ok (page a l (roll s)) s" if "a + l \<le> u32_MAX" for a l
  proof -
    let ?xs = "get_members s"
    have "List.map_filter (\<lambda>i. get_member (?xs ! i) s) [min a (length ?xs)..<min (a + l) (length ?xs)]
          = map (\<lambda>i. the (kMember s (?xs ! i))) [min a (length ?xs)..<min (a + l) (length ?xs)]"
      using members_stored [OF ok] by (subst map_filter_total) (auto simp: get_member_def)
    then show ?thesis
      using that map_index_page [of "\<lambda>a. the (kMember s a)" ?xs a l]
      by (simp add: list_members_def run_simps Let_def roll_def)
  qed
  have addr: "m_address (the (kMember s a)) = a" if "a \<in> set (get_members s)" for a
    using ok members_stored [OF ok that] by (auto simp: members_ok_def book_ok_def)
  have "map m_address (roll s) = map id (get_members s)"
    unfolding roll_def map_map by (rule map_cong) (simp_all add: addr)
  moreover have "distinct (get_members s)" "length (get_members s) = get_total_members s"
    using ok by (auto simp: members_ok_def book_ok_def)
  ultimately show ?thesis
    using run [of start n] run [of "start + n" k] assms(2) by (simp add: page_append roll_def)
qed

theorem member_pages_are_slices_witness:
  "list_members 0 2 peopled = Ok [joiner alice, joiner bob] peopled \<and>
   list_members 2 5 peopled = Ok [joiner carol] peopled"
proof -
  have "reachable any_call peopled" by (intro reachable_peopled) simp_all
  moreover have "(0::nat) + 2 + 5 \<le> u32_MAX" by (simp add: int_bounds)
  moreover have "roll peopled = [joiner alice, joiner bob, joiner carol]"
    by (simp add: roll_def peopled_eq get_members_def address_names)
  ultimately show ?thesis
    using member_pages_are_slices [of peopled 0 2 5] by (simp add: page_def numeral_2_eq_2)
qed

end
