(* ===== verification/Tallies.thy ===== *)
theory Tallies
  imports Ballots
begin

text \<open>
  The tallies of both ballot boxes: every stored proposal counts exactly the voters marked for it,
  and a proposal is only ever accepted by a ballot that brings its votes to the quorum of that
  moment.
\<close>

section \<open>Polls\<close>

text \<open>
  What the two ballot boxes promise, on their ballot counters and their marks alone: a poll is
  opened with no ballots, and a ballot of an unmarked voter marks the voter and is counted.
\<close>

type_synonym poll = "(u32 \<rightharpoonup> u32) \<times> (u32 \<times> address \<rightharpoonup> bool)"

inductive poll_step :: "poll \<Rightarrow> poll \<Rightarrow> bool" where
  poll_open: "cast i = None \<Longrightarrow> poll_step (cast, marks) (cast(i \<mapsto> 0), marks)"
| poll_cast: "cast i = Some n \<Longrightarrow> marks (i, v) = None \<Longrightarrow>
    poll_step (cast, marks) (cast(i \<mapsto> n + 1), marks((i, v) \<mapsto> True))"

definition voters :: "u32 \<Rightarrow> (u32 \<times> address \<rightharpoonup> bool) \<Rightarrow> address set" where
  "voters i marks = {v. marks (i, v) \<noteq> None}"

definition fair :: "poll \<Rightarrow> bool" where
  "fair x \<longleftrightarrow>
     (\<forall>i. (fst x i = None \<longrightarrow> voters i (snd x) = {}) \<and>
          (\<forall>n. fst x i = Some n \<longrightarrow> finite (voters i (snd x)) \<and> n = card (voters i (snd x))))"

lemma voters_cast:
  "voters j (marks((i, v) \<mapsto> b)) = (if j = i then insert v (voters j marks) else voters j marks)"
  by (auto simp: voters_def)

lemma poll_step_fair: "poll_step x y \<Longrightarrow> fair x \<Longrightarrow> fair y"
proof (induction rule: poll_step.induct)
  case (poll_open cast i marks)
  then show ?case by (simp add: fair_def)
next
  case (poll_cast cast i n marks v)
  then have "v \<notin> voters i marks" by (simp add: voters_def)
  with poll_cast show ?case by (auto simp: fair_def voters_cast)
qed

locale poll_box =
  fixes poll :: "dao \<Rightarrow> poll" and good :: "dao \<Rightarrow> bool"
  assumes opens_empty: "poll (fresh_dao l) = (Map.empty, Map.empty)"
    and ignores_ledger: "poll (s\<lparr>ledger := l\<rparr>) = poll s"
    and good_reachable: "reachable any_call s \<Longrightarrow> good s"
    and refines: "good s \<Longrightarrow> dispatch env c s = Ok r t \<Longrightarrow> rtranclp poll_step (poll s) (poll t)"
begin

lemma steps_fair: "rtranclp poll_step x y \<Longrightarrow> fair x \<Longrightarrow> fair y"
  by (induction rule: rtranclp_induct) (auto intro: poll_step_fair)

lemma reachable_fair: "reachable any_call s \<Longrightarrow> fair (poll s)"
proof (induction rule: reachable.induct)
  case (fresh l)
  show ?case by (simp add: opens_empty fair_def voters_def)
next
  case (call s c env)
  then show ?case
    using steps_fair [OF refines [OF good_reachable [OF call.hyps(1)]]]
    by (cases rule: invoke_cases [of env c s]) auto
qed (simp add: ignores_ledger)

lemma counted:
  assumes "reachable any_call s" and "fst (poll s) i = Some n"
  shows "finite (voters i (snd (poll s))) \<and> n = card (voters i (snd (poll s)))"
  using reachable_fair [OF assms(1)] assms(2) by (simp add: fair_def)

end

section \<open>What a ballot does to a loan proposal\<close>

definition accepted :: "loan_proposal \<Rightarrow> bool" where
  "accepted p \<longleftrightarrow> p_status p \<in> {ApprovedPendingDisbursement, Approved}"

text \<open>The quorum in force: the policy's own, or the contract's threshold.\<close>

definition loan_threshold :: "dao \<Rightarrow> u32" where
  "loan_threshold s =
     (case kPolicy s of
        None \<Rightarrow> 0
      | Some policy \<Rightarrow> if pol_quorum_bps policy > 0 then pol_quorum_bps policy else unwrap_or (kThreshold s) 0)"

definition meets :: "i128 \<Rightarrow> u32 \<Rightarrow> dao \<Rightarrow> bool" where
  "meets votes threshold s \<longleftrightarrow> int (get_active_members s) * int threshold \<le> votes * 10000"

text \<open>What even six votes from every active member who has not voted could not bring to the quorum.\<close>

definition hopeless :: "i128 \<Rightarrow> u32 \<Rightarrow> u32 \<Rightarrow> dao \<Rightarrow> bool" where
  "hopeless votes n threshold s \<longleftrightarrow>
     \<not> meets (votes + 6 * int (get_active_members s - n)) threshold s"

lemma quorum_met:
  assumes "returns (required_votes n bps) s r"
  shows "r \<le> votes \<longleftrightarrow> int n * int bps \<le> votes * 10000"
proof -
  define x where "x = int n * int bps"
  have "r = (x + 9999) div 10000"
    using assms by (simp add: returns_def required_votes_eq x_def)
  then have "r \<le> votes \<longleftrightarrow> x \<le> votes * 10000" by linarith
  then show ?thesis by (simp add: x_def)
qed

lemma ok_quorum_in_force:
  "loan_quorum n s = Ok r s \<Longrightarrow> returns (required_votes n (loan_threshold s)) s r"
  by (auto simp: loan_quorum_def ok_simps loan_threshold_def get_policy_def get_threshold_def split: if_splits)

text \<open>A proposal that some call touches without a ballot.\<close>

definition untallied :: "loan_proposal \<Rightarrow> loan_proposal \<Rightarrow> bool" where
  "untallied p q \<longleftrightarrow>
     p_id q = p_id p \<and> p_borrower q = p_borrower p \<and> p_votes_cast q = p_votes_cast p \<and>
     p_for_votes q = p_for_votes p \<and> (accepted q \<longrightarrow> accepted p) \<and>
     (p_status q = Rejected \<longrightarrow> p_status p = Rejected)"

lemma untallied_refl [simp]: "untallied p p"
  by (simp add: untallied_def)

lemma untallied_refreshed: "untallied p (refreshed env p)"
  by (auto simp: untallied_def refreshed_def accepted_def Let_def)

definition amends :: "dao \<Rightarrow> dao \<Rightarrow> bool" where
  "amends s t \<longleftrightarrow>
     (kLoanProposal t = kLoanProposal s \<or>
      (\<exists>i p q. kLoanProposal s i = Some p \<and> kLoanProposal t = (kLoanProposal s)(p_id p \<mapsto> q) \<and> untallied p q))"

lemma amendsI:
  "kLoanProposal s i = Some p \<Longrightarrow> kLoanProposal t = (kLoanProposal s)(p_id p \<mapsto> q) \<Longrightarrow> untallied p q \<Longrightarrow> amends s t"
  unfolding amends_def by blast

lemma edits_amend:
  "edit_loan_proposal env who i a s = Ok u t \<Longrightarrow> amends s t"
  "cancel_loan_proposal env who i s = Ok u t \<Longrightarrow> amends s t"
  by (auto simp: edit_loan_proposal_def cancel_loan_proposal_def ok_simps set_loan_proposal_def untallied_def accepted_def
      intro!: amendsI)

lemma expiry_amends:
  assumes "expire_loan_proposal env i s = Ok u t"
  shows "amends s t"
proof -
  from assms obtain p where p: "kLoanProposal s i = Some p"
    and "t = s \<or> (\<exists>v w. set_loan_proposal env (refreshed env p) s = Ok v w \<and> kLoanProposal t = kLoanProposal w)"
    by (auto simp: expire_loan_proposal_def ok_simps split: if_splits)
  then consider "t = s" | v w where "set_loan_proposal env (refreshed env p) s = Ok v w" "kLoanProposal t = kLoanProposal w"
    by blast
  then show ?thesis
  proof cases
    case 2
    with ok_set_loan_proposal [OF 2(1)] show ?thesis by (intro amendsI [OF p _ untallied_refreshed]) simp
  qed (simp add: amends_def)
qed

lemma disbursement_amends: "disburse_approved_loan env i s = Ok u t \<Longrightarrow> amends s t"
  by (auto dest!: ok_disburse_approved ok_set_loan_proposal
      simp: disburses_def Let_def untallied_def accepted_def intro!: amendsI)

text \<open>A counted ballot.\<close>

definition counts :: "u32 \<Rightarrow> address \<Rightarrow> dao \<Rightarrow> dao \<Rightarrow> bool" where
  "counts i v s t \<longleftrightarrow>
     kLoanVoted s (i, v) = None \<and> kLoanVoted t = (kLoanVoted s)((i, v) \<mapsto> True) \<and>
     (\<exists>p q. kLoanProposal s i = Some p \<and> v \<noteq> p_borrower p \<and>
        kLoanProposal t = (kLoanProposal s)(p_id p \<mapsto> q) \<and>
        p_id q = p_id p \<and> p_borrower q = p_borrower p \<and> p_votes_cast q = p_votes_cast p + 1 \<and>
        p_status p = Pending \<and> (accepted q \<longrightarrow> meets (p_for_votes q) (loan_threshold s) s) \<and>
        (p_status q = Rejected \<longrightarrow> hopeless (p_for_votes q) (p_votes_cast q) (loan_threshold s) s))"

lemma cast_counts: "cast_loan_vote env v i b p s = Ok q t \<Longrightarrow> p_votes_cast q = p_votes_cast p + 1"
  by (cases b) (auto simp: cast_loan_vote_def ok_simps)

lemma conclude_counts:
  assumes "conclude_loan_vote env n r p s = Ok q t"
  shows "p_votes_cast q = p_votes_cast p \<and> p_for_votes q = p_for_votes p"
    and "accepted q \<Longrightarrow> accepted p \<or> r \<le> p_for_votes p"
    and "p_status q = Rejected \<Longrightarrow> p_status p = Rejected \<or> p_for_votes p + 6 * int (n - p_votes_cast p) < r"
  using assms by (auto simp: conclude_loan_vote_def ok_simps Let_def accepted_def split: if_splits)

lemma vote_counts:
  assumes "vote_on_loan_proposal_internal env v i b s = Ok u t" and "proposals_ok s"
  shows "counts i v s t"
proof -
  from assms(1) obtain p p1 s1 r q s2 where
    p: "kLoanProposal s i = Some p" "p_phase (refreshed env p) = Voting" "v \<noteq> p_borrower p"
      "env_now env < p_editing_period_end p + p_voting_period p" "kLoanVoted s (i, v) = None" and
    cast: "cast_loan_vote env v i b (refreshed env p) s = Ok p1 s1" and
    quorum: "returns (loan_quorum (get_active_members s1)) s1 r" and
    con: "conclude_loan_vote env (get_active_members s1) r p1 s1 = Ok q s2" and
    set: "set_loan_proposal env q s2 = Ok () t"
    by (auto simp: vote_on_loan_proposal_internal_def ok_simps has_loan_voted_def not_le) blast+
  have bal: "ballots env v i b p q s s1 s2 t"
    unfolding ballots_def using p cast set ok_conclude_loan_vote [OF con] by blast
  note c = ok_cast_loan_vote [OF cast]
  have s1: "get_active_members s1 = get_active_members s" "loan_threshold s1 = loan_threshold s"
    using agreeD [OF c(3), of FActiveMembers] agreeD [OF c(3), of FPolicy] agreeD [OF c(3), of FThreshold]
    by (simp_all add: get_active_members_def loan_threshold_def split: option.split)
  have "agree {FLoanProposal, FOpenProposals, FLoan, FMember, FLedger, FEvents} s1 s2"
    by (rule writes_Ok [OF writes_ballot(2) [OF subset_refl] con])
  then have "kLoanVoted s2 = kLoanVoted s1" by (simp add: agree_def all_fields)
  moreover have "kLoanVoted t = kLoanVoted s2"
    using ok_set_loan_proposal [OF set] by (simp add: agree_def all_fields)
  ultimately have voted: "kLoanVoted t = (kLoanVoted s)((i, v) \<mapsto> True)" using c(2) by simp
  have ids: "p_id q = p_id p" "p_borrower q = p_borrower p"
    using ballot_moves(1) [OF bal] by (simp_all add: proceeds_def)
  have "stage_of p \<in> loan_stages" using assms(2) p(1) by (simp add: proposals_ok_def)
  from refreshed_stage [OF p(2) this] have pending: "p_status p1 = Pending"
    using same_but_votes_keeps [OF c(1)] by (simp add: stage_of_def)
  moreover have "p_status p = Pending"
    using refreshed_stage [OF p(2) \<open>stage_of p \<in> loan_stages\<close>]
    by (auto simp: refreshed_def stage_of_def Let_def split: if_splits)
  moreover have "returns (required_votes (get_active_members s) (loan_threshold s)) s1 r"
    using ok_quorum_in_force [of "get_active_members s1" s1 r] quorum s1 by (simp add: returns_def)
  note bar = quorum_met [OF this]
  have "meets (p_for_votes q) (loan_threshold s) s" if "accepted q"
    using conclude_counts [OF con] that pending bar [of "p_for_votes q"] by (simp add: meets_def accepted_def)
  moreover have "hopeless (p_for_votes q) (p_votes_cast q) (loan_threshold s) s" if "p_status q = Rejected"
    using conclude_counts [OF con] that pending s1 bar [of "p_for_votes q + 6 * int (get_active_members s - p_votes_cast q)"]
    by (simp add: hopeless_def meets_def)
  moreover have "p_votes_cast q = p_votes_cast p + 1"
    using conclude_counts(1) [OF con] cast_counts [OF cast] untallied_refreshed [of p env] by (simp add: untallied_def)
  ultimately show ?thesis
    using p voted ids ballot_moves(2) [OF bal] unfolding counts_def by blast
qed

text \<open>Every call leaves the loan polls alone, opens one, or counts ballots.\<close>

definition loan_poll :: "dao \<Rightarrow> poll" where
  "loan_poll s = (\<lambda>i. map_option p_votes_cast (kLoanProposal s i), kLoanVoted s)"

lemma amends_poll:
  assumes "amends s t" and "proposals_ok s" and "kLoanVoted t = kLoanVoted s"
  shows "loan_poll t = loan_poll s"
proof -
  have "map_option p_votes_cast (kLoanProposal t i) = map_option p_votes_cast (kLoanProposal s i)" for i
    using assms(1,2) by (auto simp: amends_def proposals_ok_def untallied_def)
  with assms(3) show ?thesis by (simp add: loan_poll_def)
qed

lemma counts_poll:
  assumes "counts i v s t" and "proposals_ok s"
  shows "poll_step (loan_poll s) (loan_poll t)"
proof -
  from assms obtain p q where pq: "kLoanVoted s (i, v) = None" "kLoanVoted t = (kLoanVoted s)((i, v) \<mapsto> True)"
    "kLoanProposal s i = Some p" "kLoanProposal t = (kLoanProposal s)(i \<mapsto> q)" "p_votes_cast q = p_votes_cast p + 1"
    by (auto simp: counts_def proposals_ok_def)
  have "(\<lambda>j. map_option p_votes_cast (kLoanProposal t j))
      = (\<lambda>j. map_option p_votes_cast (kLoanProposal s j))(i \<mapsto> p_votes_cast p + 1)"
    using pq(4,5) by auto
  then show ?thesis
    using poll_cast [of "\<lambda>j. map_option p_votes_cast (kLoanProposal s j)" i "p_votes_cast p" "kLoanVoted s" v] pq(1-3)
    by (simp add: loan_poll_def)
qed

lemma asks_poll:
  assumes "asks env who amount i p s t" and "proposals_ok s" and "kLoanVoted t = kLoanVoted s"
  shows "poll_step (loan_poll s) (loan_poll t)"
proof -
  have new: "kLoanProposal t = (kLoanProposal s)(i \<mapsto> p)" "p_votes_cast p = 0" "i = get_proposal_count NextProposalId s"
    using assms(1) by (simp_all add: asks_def)
  then have "kLoanProposal s i = None"
    using assms(2) by (cases "kLoanProposal s i") (auto simp: proposals_ok_def)
  moreover have "(\<lambda>j. map_option p_votes_cast (kLoanProposal t j)) = (\<lambda>j. map_option p_votes_cast (kLoanProposal s j))(i \<mapsto> 0)"
    using new by auto
  ultimately show ?thesis unfolding loan_poll_def assms(3) by (simp add: poll_open)
qed

text \<open>Who was accepted in a state, relative to a state before it.\<close>

definition elected :: "dao \<Rightarrow> dao \<Rightarrow> bool" where
  "elected s t \<longleftrightarrow>
     (\<forall>i q. kLoanProposal t i = Some q \<longrightarrow>
        (accepted q \<longrightarrow>
           (\<exists>p. kLoanProposal s i = Some p \<and> accepted p) \<or> meets (p_for_votes q) (loan_threshold s) s) \<and>
        (p_status q = Rejected \<longrightarrow>
           (\<exists>p. kLoanProposal s i = Some p \<and> p_status p = Rejected) \<or>
           hopeless (p_for_votes q) (p_votes_cast q) (loan_threshold s) s))"

lemma elected_same: "kLoanProposal t = kLoanProposal s \<Longrightarrow> elected s t"
  by (auto simp: elected_def)

lemma amends_elected: "amends s t \<Longrightarrow> proposals_ok s \<Longrightarrow> elected s t"
  by (auto simp: amends_def elected_def untallied_def proposals_ok_def split: if_splits)

lemma asks_elected: "asks env who amount i p s t \<Longrightarrow> elected s t"
  by (auto simp: asks_def elected_def accepted_def stage_of_def)

lemma counts_elected:
  assumes "counts i v s t" and "elected s0 s" and "proposals_ok s"
    and "get_active_members s = get_active_members s0" and "loan_threshold s = loan_threshold s0"
  shows "elected s0 t"
proof -
  from assms(1) obtain p q where p: "kLoanProposal s i = Some p" "kLoanProposal t = (kLoanProposal s)(p_id p \<mapsto> q)"
    and q: "accepted q \<longrightarrow> meets (p_for_votes q) (loan_threshold s0) s0"
      "p_status q = Rejected \<longrightarrow> hopeless (p_for_votes q) (p_votes_cast q) (loan_threshold s0) s0"
    using assms(4,5) by (auto simp: counts_def meets_def hopeless_def)
  then have t: "kLoanProposal t = (kLoanProposal s)(i \<mapsto> q)" using assms(3) by (simp add: proposals_ok_def)
  with q assms(2) show ?thesis by (simp add: elected_def)
qed

lemma vote_keeps_quorum:
  assumes "vote_on_loan_proposal_internal env v i b s = Ok u t"
  shows "get_active_members t = get_active_members s" and "loan_threshold t = loan_threshold s"
proof -
  have a: "agree {FLoanVoted, FLoanProposal, FOpenProposals, FLoan, FMember, FLedger, FEvents} s t"
    using writes_Ok [OF writes_loan_vote [OF subset_refl] assms] .
  show "get_active_members t = get_active_members s" "loan_threshold t = loan_threshold s"
    using agreeD [OF a, of FActiveMembers] agreeD [OF a, of FPolicy] agreeD [OF a, of FThreshold]
    by (simp_all add: get_active_members_def loan_threshold_def split: option.split)
qed

lemma batch_counts:
  assumes "for_each votes (\<lambda>v. vote_on_loan_proposal_internal env who (pv_proposal_id v) (pv_vote v)) s = Ok u t"
    and "proposals_ok s" and "elected s0 s"
    and "get_active_members s = get_active_members s0" and "loan_threshold s = loan_threshold s0"
  shows "rtranclp poll_step (loan_poll s) (loan_poll t) \<and> elected s0 t"
  using assms
proof (induction votes arbitrary: s)
  case (Cons x votes)
  then obtain s1 where
    s1: "vote_on_loan_proposal_internal env who (pv_proposal_id x) (pv_vote x) s = Ok () s1" and
    rest: "for_each votes (\<lambda>v. vote_on_loan_proposal_internal env who (pv_proposal_id v) (pv_vote v)) s1 = Ok u t"
    by (auto simp: ok_simps)
  note c = vote_counts [OF s1 Cons.prems(2)]
  have "proposals_ok s1" using vote_evolves [OF Cons.prems(2) s1] by (simp add: evolves_def)
  moreover have "elected s0 s1" by (rule counts_elected [OF c Cons.prems(3,2,4,5)])
  ultimately have "rtranclp poll_step (loan_poll s1) (loan_poll t) \<and> elected s0 t"
    using vote_keeps_quorum [OF s1] Cons.prems(4,5) by (intro Cons.IH [OF rest]) simp_all
  then show ?case using counts_poll [OF c Cons.prems(2)] by (auto intro: converse_rtranclp_into_rtranclp)
qed (auto simp: ok_simps)

lemma loan_calls:
  assumes "proposals_ok s" and "dispatch env c s = Ok r t"
  shows "rtranclp poll_step (loan_poll s) (loan_poll t) \<and> elected s t"
proof -
  note run = assms(2)
  have ag: "agree (footprint c) s t" by (rule writes_Ok [OF writes_dispatch run])
  have marks: "FLoanVoted \<notin> footprint c \<Longrightarrow> kLoanVoted t = kLoanVoted s"
    using agreeD [OF ag, of FLoanVoted] by simp
  have rest: "FLoanProposal \<notin> footprint c \<Longrightarrow> FLoanVoted \<notin> footprint c \<Longrightarrow> ?thesis"
    using agreeD [OF ag, of FLoanProposal] marks elected_same [of t s] by (simp add: loan_poll_def)
  have change: "amends s t \<Longrightarrow> FLoanVoted \<notin> footprint c \<Longrightarrow> ?thesis"
    using amends_poll [OF _ assms(1)] amends_elected [OF _ assms(1)] marks by simp
  have ask: "asks env who a i p s t \<Longrightarrow> FLoanVoted \<notin> footprint c \<Longrightarrow> ?thesis" for who a i p
    using asks_poll [OF _ assms(1)] asks_elected marks by blast
  have refl: "elected s s" by (rule elected_same) simp
  have vote: "vote_on_loan_proposal_internal env v i b s = Ok u t \<Longrightarrow> ?thesis" for v i b u
    using counts_poll [OF vote_counts assms(1)] counts_elected [OF vote_counts refl assms(1)] assms(1) by blast
  show ?thesis
  proof (cases c)
    case (RequestLoan who a cid)
    with run show ?thesis by (auto simp: ok_simps request_loan_def dest!: ok_request_loan intro: conjunct1 [OF ask] conjunct2 [OF ask])
  next
    case (RequestLoanInAsset who a asset cid)
    with run show ?thesis by (auto simp: ok_simps dest!: ok_request_loan intro: conjunct1 [OF ask] conjunct2 [OF ask])
  next
    case (EditLoanProposal who i a)
    with run show ?thesis by (intro change) (auto simp: ok_simps dest: edits_amend)
  next
    case (CancelLoanProposal who i)
    with run show ?thesis by (intro change) (auto simp: ok_simps dest: edits_amend)
  next
    case (ExpireLoanProposal i)
    with run show ?thesis by (intro change) (auto simp: ok_simps dest: expiry_amends)
  next
    case (DisburseApprovedLoan i)
    with run show ?thesis by (intro change) (auto simp: ok_simps dest: disbursement_amends)
  next
    case (VoteOnLoanProposal who i b)
    with run show ?thesis by (auto simp: ok_simps vote_on_loan_proposal_def intro: conjunct1 [OF vote] conjunct2 [OF vote])
  next
    case (VoteBatch who votes)
    with run have "for_each votes (\<lambda>v. vote_on_loan_proposal_internal env who (pv_proposal_id v) (pv_vote v)) s = Ok () t"
      by (auto simp: ok_simps vote_batch_def)
    from batch_counts [OF this assms(1) refl] show ?thesis by simp
  qed (auto intro!: rest)
qed

interpretation loan_polls: poll_box loan_poll proposals_ok
proof unfold_locales
  show "loan_poll (fresh_dao l) = (Map.empty, Map.empty)" for l by (simp add: loan_poll_def)
  show "loan_poll (s\<lparr>ledger := l\<rparr>) = loan_poll s" for s l by (simp add: loan_poll_def)
  show "reachable any_call s \<Longrightarrow> proposals_ok s" for s by (rule proposals.reachable_holds)
  show "rtranclp poll_step (loan_poll s) (loan_poll t)" if "proposals_ok s" "dispatch env c s = Ok r t" for s env c r t
    using loan_calls [OF that] by blast
qed

section \<open>The treasury box\<close>

definition allowed_out :: "treasury_proposal \<Rightarrow> bool" where
  "allowed_out p \<longleftrightarrow> t_status p \<in> {ApprovedPendingDisbursement, StExecuted}"

definition treasury_poll :: "dao \<Rightarrow> poll" where
  "treasury_poll s = (\<lambda>i. map_option t_votes_cast (kTreasuryProposal s i), kTreasuryVoted s)"

text \<open>A call that only changes the status of one withdrawal.\<close>

definition revises :: "dao \<Rightarrow> dao \<Rightarrow> bool" where
  "revises s t \<longleftrightarrow>
     (\<exists>i p st. kTreasuryProposal s i = Some p \<and> kTreasuryProposal t = (kTreasuryProposal s)(t_id p \<mapsto> p\<lparr>t_status := st\<rparr>) \<and>
        (allowed_out (p\<lparr>t_status := st\<rparr>) \<longrightarrow> allowed_out p) \<and> st \<noteq> Rejected)"

lemma revisesI:
  "kTreasuryProposal s i = Some p \<Longrightarrow> kTreasuryProposal t = (kTreasuryProposal s)(t_id p \<mapsto> p\<lparr>t_status := st\<rparr>) \<Longrightarrow>
   allowed_out (p\<lparr>t_status := st\<rparr>) \<longrightarrow> allowed_out p \<Longrightarrow> st \<noteq> Rejected \<Longrightarrow> revises s t"
  unfolding revises_def by blast

lemma stops_revise:
  "cancel_treasury_proposal env who i s = Ok u t \<Longrightarrow> revises s t"
  "expire_treasury_proposal env i s = Ok u t \<Longrightarrow> revises s t"
  by (auto dest!: ok_stop_withdrawal simp: allowed_out_def intro!: revisesI)

lemma payment_revises:
  assumes "execute_approved env i s = Ok u t"
  shows "revises s t"
proof -
  from assms obtain p q s1 where
    p: "kTreasuryProposal s i = Some p" "t_status p = ApprovedPendingDisbursement" and
    run: "treasury_execute env p s = Ok q s1" and set: "set_treasury_proposal env q s1 = Ok () t"
    by (auto simp: execute_approved_def ok_simps)
  have "kTreasuryProposal t = (kTreasuryProposal s)(t_id p \<mapsto> p\<lparr>t_status := StExecuted\<rparr>)"
    using ok_treasury_execute(1,2) [OF run] ok_set_treasury_proposal [OF set] by simp
  moreover have "allowed_out p" using p(2) by (simp add: allowed_out_def)
  ultimately show ?thesis by (intro revisesI [OF p(1), where st = StExecuted]) simp_all
qed

text \<open>A counted ballot, public or revealed.\<close>

definition registers :: "u32 \<Rightarrow> address \<Rightarrow> dao \<Rightarrow> dao \<Rightarrow> bool" where
  "registers i v s t \<longleftrightarrow>
     kTreasuryVoted s (i, v) = None \<and> kTreasuryVoted t = (kTreasuryVoted s)((i, v) \<mapsto> True) \<and>
     (\<exists>p q. kTreasuryProposal s i = Some p \<and> kTreasuryProposal t = (kTreasuryProposal s)(i \<mapsto> q) \<and>
        t_votes_cast q = t_votes_cast p + 1 \<and>
        (allowed_out q \<longrightarrow> meets (t_for_votes q) (t_treasury_threshold q) s) \<and>
        (t_status q = Rejected \<longrightarrow> hopeless (t_for_votes q) (t_votes_cast q) (t_treasury_threshold q) s))"

lemma cast_registers:
  "cast_treasury_vote v b p s = Ok q t \<Longrightarrow>
   t_votes_cast q = t_votes_cast p + 1 \<and> t_treasury_threshold q = t_treasury_threshold p"
  by (cases b) (auto simp: cast_treasury_vote_def ok_simps)

lemma conclude_registers:
  assumes "conclude_treasury_vote env n r p s = Ok q t" and "t_status p = Pending"
  shows "t_votes_cast q = t_votes_cast p \<and> t_treasury_threshold q = t_treasury_threshold p \<and>
    (allowed_out q \<longrightarrow> r \<le> t_for_votes q) \<and>
    (t_status q = Rejected \<longrightarrow> t_for_votes q + 6 * int (n - t_votes_cast q) < r)"
  using assms
  by (auto simp: conclude_treasury_vote_def try_treasury_execute_def ok_simps allowed_out_def
      split: if_splits outcome.splits dest!: err_treasury_execute ok_treasury_execute(1))

lemma tally_registers:
  assumes "tally env p v b s = Ok u t" and "kTreasuryProposal s i = Some p" and "t_id p = i"
  shows "registers i v s t"
proof -
  from assms(1) obtain p1 s1 r q s2 where
    open_: "t_status p = Pending" and
    cast: "cast_treasury_vote v b p s = Ok p1 s1" and
    quorum: "returns (required_votes (get_active_members s1) (t_treasury_threshold p1)) s1 r" and
    con: "conclude_treasury_vote env (get_active_members s1) r p1 s1 = Ok q s2" and
    set: "set_treasury_proposal env q s2 = Ok () t"
    by (auto simp: tally_def ok_simps)
  note c = ok_cast_treasury_vote [OF cast] cast_registers [OF cast]
  have "t_status p1 = Pending" using c(2) open_ by simp
  note d = conclude_registers [OF con this]
  have active: "get_active_members s1 = get_active_members s"
    using agreeD [OF c(4), of FActiveMembers] by (simp add: get_active_members_def)
  obtain q' where polled: "kTreasuryVoted s (i, v) = None" "kTreasuryVoted t = (kTreasuryVoted s)((i, v) \<mapsto> True)"
    "decides env p q' s t" "kTreasuryProposal t = (kTreasuryProposal s)(i \<mapsto> q')"
    using ok_tally [OF assms(1)] assms(3) by (auto simp: polls_def)
  have "kTreasuryProposal t (t_id q) = Some q" using ok_set_treasury_proposal [OF set] by simp
  moreover have "t_id q = i"
    using ok_conclude_treasury_vote(1) [OF con \<open>t_status p1 = Pending\<close>] c(1) assms(3)
    by (simp add: decides_def withdraws_def)
  ultimately have "q' = q" using polled(4) by simp
  moreover have "allowed_out q \<Longrightarrow> meets (t_for_votes q) (t_treasury_threshold q) s"
    "t_status q = Rejected \<Longrightarrow> hopeless (t_for_votes q) (t_votes_cast q) (t_treasury_threshold q) s"
    using quorum_met [OF quorum, of "t_for_votes q"] d active
      quorum_met [OF quorum, of "t_for_votes q + 6 * int (get_active_members s - t_votes_cast q)"]
    by (auto simp: meets_def hopeless_def)
  ultimately show ?thesis
    using polled assms(2) c(5) d unfolding registers_def by auto
qed

text \<open>Which withdrawals were let through, relative to a state before.\<close>

definition endorsed :: "dao \<Rightarrow> dao \<Rightarrow> bool" where
  "endorsed s t \<longleftrightarrow>
     (\<forall>i q. kTreasuryProposal t i = Some q \<longrightarrow>
        (allowed_out q \<longrightarrow>
           (\<exists>p. kTreasuryProposal s i = Some p \<and> allowed_out p) \<or> meets (t_for_votes q) (t_treasury_threshold q) s) \<and>
        (t_status q = Rejected \<longrightarrow>
           (\<exists>p. kTreasuryProposal s i = Some p \<and> t_status p = Rejected) \<or>
           hopeless (t_for_votes q) (t_votes_cast q) (t_treasury_threshold q) s))"

lemma treasury_frame:
  assumes "kTreasuryProposal t = kTreasuryProposal s" and "kTreasuryVoted t = kTreasuryVoted s"
  shows "rtranclp poll_step (treasury_poll s) (treasury_poll t) \<and> endorsed s t"
  using assms by (auto simp: treasury_poll_def endorsed_def)

lemma treasury_revise:
  assumes "revises s t" and "kTreasuryVoted t = kTreasuryVoted s" and "withdrawals_ok s"
  shows "rtranclp poll_step (treasury_poll s) (treasury_poll t) \<and> endorsed s t"
proof -
  from assms(1,3) obtain i p st where r: "kTreasuryProposal s i = Some p"
    "kTreasuryProposal t = (kTreasuryProposal s)(i \<mapsto> p\<lparr>t_status := st\<rparr>)" "allowed_out (p\<lparr>t_status := st\<rparr>) \<longrightarrow> allowed_out p" "st \<noteq> Rejected"
    unfolding revises_def withdrawals_ok_def by blast
  then have "map_option t_votes_cast (kTreasuryProposal t j) = map_option t_votes_cast (kTreasuryProposal s j)" for j
    by simp
  with assms(2) have "treasury_poll t = treasury_poll s" by (simp add: treasury_poll_def)
  with r show ?thesis by (auto simp: endorsed_def split: if_splits)
qed

lemma treasury_register:
  assumes "registers i v s t"
  shows "rtranclp poll_step (treasury_poll s) (treasury_poll t) \<and> endorsed s t"
proof -
  from assms obtain p q where q: "kTreasuryVoted s (i, v) = None" "kTreasuryVoted t = (kTreasuryVoted s)((i, v) \<mapsto> True)"
    "kTreasuryProposal s i = Some p" "kTreasuryProposal t = (kTreasuryProposal s)(i \<mapsto> q)" "t_votes_cast q = t_votes_cast p + 1"
    "allowed_out q \<longrightarrow> meets (t_for_votes q) (t_treasury_threshold q) s"
    "t_status q = Rejected \<longrightarrow> hopeless (t_for_votes q) (t_votes_cast q) (t_treasury_threshold q) s"
    by (auto simp: registers_def)
  have "(\<lambda>j. map_option t_votes_cast (kTreasuryProposal t j))
      = (\<lambda>j. map_option t_votes_cast (kTreasuryProposal s j))(i \<mapsto> t_votes_cast p + 1)"
    using q(4,5) by auto
  then have "poll_step (treasury_poll s) (treasury_poll t)"
    using poll_cast [of "\<lambda>j. map_option t_votes_cast (kTreasuryProposal s j)" i "t_votes_cast p" "kTreasuryVoted s" v] q(1-3)
    by (simp add: treasury_poll_def)
  moreover have "endorsed s t" using q(4,6,7) by (auto simp: endorsed_def split: if_splits)
  ultimately show ?thesis by blast
qed

lemma treasury_table:
  assumes "tables env amount dest i p s t" and "withdrawals_ok s" and "kTreasuryVoted t = kTreasuryVoted s"
  shows "rtranclp poll_step (treasury_poll s) (treasury_poll t) \<and> endorsed s t"
proof -
  have new: "kTreasuryProposal t = (kTreasuryProposal s)(i \<mapsto> p)" "t_votes_cast p = 0" "t_status p = Pending"
    "i = get_proposal_count NextTreasuryId s"
    using assms(1) by (simp_all add: tables_def)
  then have "kTreasuryProposal s i = None"
    using assms(2) by (cases "kTreasuryProposal s i") (auto simp: withdrawals_ok_def)
  moreover have "(\<lambda>j. map_option t_votes_cast (kTreasuryProposal t j))
      = (\<lambda>j. map_option t_votes_cast (kTreasuryProposal s j))(i \<mapsto> 0)"
    using new by auto
  ultimately have "poll_step (treasury_poll s) (treasury_poll t)"
    unfolding treasury_poll_def assms(3) by (simp add: poll_open)
  moreover have "endorsed s t" using new(1,3) by (auto simp: endorsed_def allowed_out_def split: if_splits)
  ultimately show ?thesis by blast
qed

lemma public_registers:
  assumes "treasury_vote env v i b s = Ok u t" and "withdrawals_ok s"
  shows "registers i v s t"
  using assms by (auto simp: treasury_vote_def ok_simps withdrawals_ok_def intro: tally_registers)

lemma reveal_registers:
  assumes "reveal_vote env v i b salt s = Ok u t" and "withdrawals_ok s"
  shows "registers i v s t"
proof -
  from assms(1) obtain p s0 where
    p: "kTreasuryProposal s i = Some p" and
    s0: "s0 = s\<lparr>kCommit := (kCommit s)((i, v) := None), events := events s @ [Ev_revealed i v b]\<rparr>" and
    run: "tally env p v b s0 = Ok () t"
    by (auto simp: reveal_vote_def ok_simps get_commit_def remove_commit_def not_le)
  have "registers i v s0 t"
    using tally_registers [OF run, of i] p assms(2) s0 by (simp add: withdrawals_ok_def)
  then show ?thesis by (simp add: registers_def meets_def hopeless_def s0 get_active_members_def)
qed

lemma treasury_calls:
  assumes "withdrawals_ok s" and "dispatch env c s = Ok r t"
  shows "rtranclp poll_step (treasury_poll s) (treasury_poll t) \<and> endorsed s t"
proof -
  note run = assms(2)
  have ag: "agree (footprint c) s t" by (rule writes_Ok [OF writes_dispatch run])
  have marks: "FTreasuryVoted \<notin> footprint c \<Longrightarrow> kTreasuryVoted t = kTreasuryVoted s"
    using agreeD [OF ag, of FTreasuryVoted] by simp
  have rest: "FTreasuryProposal \<notin> footprint c \<Longrightarrow> FTreasuryVoted \<notin> footprint c \<Longrightarrow> ?thesis"
    using agreeD [OF ag, of FTreasuryProposal] marks treasury_frame by simp
  have revise: "revises s t \<Longrightarrow> FTreasuryVoted \<notin> footprint c \<Longrightarrow> ?thesis"
    using treasury_revise [OF _ marks assms(1)] .
  have table: "tables env a d i p s t \<Longrightarrow> FTreasuryVoted \<notin> footprint c \<Longrightarrow> ?thesis" for a d i p
    using treasury_table [OF _ assms(1) marks] .
  show ?thesis
  proof (cases c)
    case (ProposeTreasuryWithdrawal who amount dest why hidden)
    with run show ?thesis
      by (auto simp: ok_simps propose_withdrawal_def dest!: ok_propose_withdrawal intro: conjunct1 [OF table] conjunct2 [OF table])
  next
    case (ProposeWithdrawalInAsset who amount asset dest why hidden)
    with run show ?thesis
      by (auto simp: ok_simps dest!: ok_propose_withdrawal intro: conjunct1 [OF table] conjunct2 [OF table])
  next
    case (VoteOnTreasuryProposal who i b)
    with run show ?thesis
      by (intro treasury_register [OF public_registers [OF _ assms(1), of env who i b "()"]]) (simp add: ok_simps)
  next
    case (RevealTreasuryVote who i b salt)
    with run show ?thesis
      by (intro treasury_register [OF reveal_registers [OF _ assms(1), of env who i b salt "()"]]) (simp add: ok_simps)
  next
    case (CancelTreasuryProposal who i)
    with run show ?thesis by (intro revise) (auto simp: ok_simps dest: stops_revise)
  next
    case (ExpireTreasuryProposal i)
    with run show ?thesis by (intro revise) (auto simp: ok_simps dest: stops_revise)
  next
    case (ExecuteTreasuryProposal i)
    with run show ?thesis by (intro revise) (auto simp: ok_simps dest: payment_revises)
  qed (auto intro!: rest)
qed

interpretation treasury_polls: poll_box treasury_poll withdrawals_ok
proof unfold_locales
  show "treasury_poll (fresh_dao l) = (Map.empty, Map.empty)" for l by (simp add: treasury_poll_def)
  show "treasury_poll (s\<lparr>ledger := l\<rparr>) = treasury_poll s" for s l by (simp add: treasury_poll_def)
  show "reachable any_call s \<Longrightarrow> withdrawals_ok s" for s by (rule withdrawals.reachable_holds)
  show "rtranclp poll_step (treasury_poll s) (treasury_poll t)" if "withdrawals_ok s" "dispatch env c s = Ok r t" for s env c r t
    using treasury_calls [OF that] by blast
qed

section \<open>Properties\<close>

text \<open>
  C8: votes are counted once and only once: in every state a contract can reach, the number of
  votes a loan proposal or a withdrawal records is the number of accounts marked as its voters.
\<close>

theorem ballots_are_counted_once:
  assumes "reachable any_call s"
  shows "(kLoanProposal s i = Some p \<longrightarrow>
            finite {v. kLoanVoted s (i, v) \<noteq> None} \<and> p_votes_cast p = card {v. kLoanVoted s (i, v) \<noteq> None}) \<and>
         (kTreasuryProposal s i = Some q \<longrightarrow>
            finite {v. kTreasuryVoted s (i, v) \<noteq> None} \<and> t_votes_cast q = card {v. kTreasuryVoted s (i, v) \<noteq> None})"
  using loan_polls.counted [OF assms, of i "p_votes_cast p"] treasury_polls.counted [OF assms, of i "t_votes_cast q"]
  by (simp add: loan_poll_def treasury_poll_def voters_def)

theorem ballots_are_counted_once_witness:
  "card {v. kLoanVoted lent (0, v) \<noteq> None} = 2"
proof -
  obtain p where "kLoanProposal lent 0 = Some p" "p_votes_cast p = 2" by (simp add: lent_eq)
  with ballots_are_counted_once [OF reachable_lent_any, of 0 p] show ?thesis by simp
qed

text \<open>
  C9: nothing is approved without its quorum: whenever a call turns a loan proposal or a withdrawal
  into an approved, disbursed or executed one, the votes for it, in basis points, cover the
  threshold in force times the active members of that moment.
\<close>

theorem approvals_need_a_quorum:
  assumes "reachable any_call s" and "dispatch env c s = Ok r t"
  shows "(kLoanProposal t i = Some q \<and> accepted q \<and> \<not> (\<exists>p. kLoanProposal s i = Some p \<and> accepted p) \<longrightarrow>
            int (get_active_members s) * int (loan_threshold s) \<le> p_for_votes q * 10000) \<and>
         (kTreasuryProposal t i = Some w \<and> allowed_out w \<and>
            \<not> (\<exists>p. kTreasuryProposal s i = Some p \<and> allowed_out p) \<longrightarrow>
            int (get_active_members s) * int (t_treasury_threshold w) \<le> t_for_votes w * 10000)"
proof -
  have "elected s t" "endorsed s t"
    using loan_calls [OF proposals.reachable_holds [OF assms(1)] assms(2)]
      treasury_calls [OF withdrawals.reachable_holds [OF assms(1)] assms(2)] by blast+
  then show ?thesis unfolding elected_def endorsed_def meets_def by blast
qed

lemma reachable_backed: "reachable any_call backed"
  unfolding backed_def asked_def by (intro reachable.call reachable_peopled) simp_all

lemma lent_run: "\<exists>r. dispatch (host 259300) (VoteOnLoanProposal carol 0 True) backed = Ok r lent"
proof -
  have "kLoan lent 0 \<noteq> kLoan backed 0"
    by (simp add: lent_eq backed_eq asked_eq peopled_eq founded_eq)
  then have "lent \<noteq> backed" by auto
  then show ?thesis
    unfolding lent_def by (cases rule: invoke_cases [of "host 259300" "VoteOnLoanProposal carol 0 True" backed]) auto
qed

theorem approvals_need_a_quorum_witness:
  "\<exists>q. kLoanProposal lent 0 = Some q \<and> int (get_active_members backed) * int (loan_threshold backed) \<le> p_for_votes q * 10000"
proof -
  obtain r where "dispatch (host 259300) (VoteOnLoanProposal carol 0 True) backed = Ok r lent" using lent_run by blast
  moreover obtain q where "kLoanProposal lent 0 = Some q" "accepted q" by (simp add: lent_eq accepted_def)
  moreover have "kLoanProposal backed 0 = Some backed_proposal" "\<not> accepted backed_proposal"
    by (simp_all add: backed_eq backed_proposal_def asked_proposal_def accepted_def)
  ultimately show ?thesis using approvals_need_a_quorum [OF reachable_backed] by fastforce
qed

text \<open>The members without a ballot, and the voters who have since left.\<close>

definition yet_to_vote :: "u32 \<Rightarrow> (u32 \<times> address \<rightharpoonup> bool) \<Rightarrow> dao \<Rightarrow> address set" where
  "yet_to_vote i marks s = {a. is_member a s \<and> marks (i, a) = None}"

definition departed_voters :: "u32 \<Rightarrow> (u32 \<times> address \<rightharpoonup> bool) \<Rightarrow> dao \<Rightarrow> address set" where
  "departed_voters i marks s = {a. \<not> is_member a s \<and> marks (i, a) \<noteq> None}"

text \<open>The code takes the ballots from the active members; those of departed voters are taken too.\<close>

lemma ballots_taken_off:
  assumes "reachable any_call s" and "finite (voters i marks)"
  shows "get_active_members s - card (voters i marks) =
    card (yet_to_vote i marks s) - card (departed_voters i marks s)"
proof -
  have ok: "book_ok (get_members s) (kMember s) (get_total_members s) (get_active_members s)"
    using members.reachable_holds [OF assms(1)] by (simp add: members_ok_def)
  have fin: "finite (active_in (kMember s))"
    using finite_active [of "get_members s"] ok by (simp add: book_ok_def)
  define A where "A = active_in (kMember s)"
  define V where "V = voters i marks"
  have mem: "is_member a s \<longleftrightarrow> a \<in> A" for a
    by (simp add: A_def active_in_def is_member_def get_member_def split: option.splits)
  have "yet_to_vote i marks s = A - V" "departed_voters i marks s = V - A"
    by (auto simp: yet_to_vote_def departed_voters_def mem V_def voters_def)
  moreover have "card A = card (A - V) + card (A \<inter> V)"
    using fin by (metis A_def card_Int_Diff add.commute)
  moreover have "card V = card (V - A) + card (A \<inter> V)"
    using assms(2) by (metis V_def card_Int_Diff add.commute inf_commute)
  ultimately show ?thesis using ok by (simp add: book_ok_def A_def V_def)
qed

text \<open>
  C29: what a rejection rules out: whenever a call rejects a loan proposal or a withdrawal, six
  votes, the most a member has without delegations, from every active member without a ballot on
  it would not have brought it to its quorum, provided nobody who voted on it has left since. The
  code counts the ballots of voters who have left against the members still to vote, so for every
  such voter one member too few is counted: the inequality states how many are.
\<close>

theorem rejections_are_hopeless:
  assumes "reachable any_call s" and "dispatch env c s = Ok r t"
  shows "(kLoanProposal t i = Some q \<and> p_status q = Rejected \<and>
            \<not> (\<exists>p. kLoanProposal s i = Some p \<and> p_status p = Rejected) \<longrightarrow>
            (p_for_votes q + 6 * int (card (yet_to_vote i (kLoanVoted t) s) - card (departed_voters i (kLoanVoted t) s)))
              * 10000 < int (get_active_members s) * int (loan_threshold s)) \<and>
         (kTreasuryProposal t i = Some w \<and> t_status w = Rejected \<and>
            \<not> (\<exists>p. kTreasuryProposal s i = Some p \<and> t_status p = Rejected) \<longrightarrow>
            (t_for_votes w + 6 * int (card (yet_to_vote i (kTreasuryVoted t) s) - card (departed_voters i (kTreasuryVoted t) s)))
              * 10000 < int (get_active_members s) * int (t_treasury_threshold w))"
proof -
  have calls: "elected s t" "endorsed s t"
    using loan_calls [OF proposals.reachable_holds [OF assms(1)] assms(2)]
      treasury_calls [OF withdrawals.reachable_holds [OF assms(1)] assms(2)] by blast+
  have t: "reachable any_call t" using reachable.call [OF assms(1), of c env] assms(2) by (simp add: invoke_def)
  have "p_votes_cast q = card (voters i (kLoanVoted t)) \<and> finite (voters i (kLoanVoted t))" if "kLoanProposal t i = Some q"
    using loan_polls.counted [OF t, of i "p_votes_cast q"] that by (simp add: loan_poll_def)
  moreover have "t_votes_cast w = card (voters i (kTreasuryVoted t)) \<and> finite (voters i (kTreasuryVoted t))"
    if "kTreasuryProposal t i = Some w"
    using treasury_polls.counted [OF t, of i "t_votes_cast w"] that by (simp add: treasury_poll_def)
  ultimately show ?thesis
    using calls unfolding elected_def endorsed_def hopeless_def meets_def not_le
    by (metis ballots_taken_off [OF assms(1)])
qed

text \<open>A withdrawal all three members vote down.\<close>

definition doubted :: dao where
  "doubted = run_calls [(host 20, VoteOnTreasuryProposal alice 0 False), (host 21, VoteOnTreasuryProposal bob 0 False)] proposed"

lemma doubt_runs:
  "dispatch (host 20) (VoteOnTreasuryProposal alice 0 False) proposed = Ok NoValue
    (proposed\<lparr>kTreasuryVoted := [(0, alice) \<mapsto> True],
      kTreasuryProposal := [0 \<mapsto> (rent False)\<lparr>t_against_votes := 1, t_votes_cast := 1\<rparr>],
      kOpenProposals := [bob \<mapsto> 1], events := events proposed @ [Ev_tre_vote 0 alice False]\<rparr>)"
  "dispatch (host 21) (VoteOnTreasuryProposal bob 0 False) (proposed\<lparr>kTreasuryVoted := [(0, alice) \<mapsto> True],
      kTreasuryProposal := [0 \<mapsto> (rent False)\<lparr>t_against_votes := 1, t_votes_cast := 1\<rparr>],
      kOpenProposals := [bob \<mapsto> 1], events := events proposed @ [Ev_tre_vote 0 alice False]\<rparr>) = Ok NoValue
    (proposed\<lparr>kTreasuryVoted := [(0, alice) \<mapsto> True, (0, bob) \<mapsto> True],
      kTreasuryProposal := [0 \<mapsto> (rent False)\<lparr>t_against_votes := 2, t_votes_cast := Suc 1\<rparr>],
      kOpenProposals := [bob \<mapsto> 1], events := events proposed @ [Ev_tre_vote 0 alice False, Ev_tre_vote 0 bob False]\<rparr>)"
  by (simp_all add: proposed_eq peopled_eq founded_eq eval_simps address_names joiner_def stake_boost_def
      treasury_eval tally_eval signed_divide_int_def)

lemma doubted_eq: "doubted =
    proposed\<lparr>kTreasuryVoted := [(0, alice) \<mapsto> True, (0, bob) \<mapsto> True],
      kTreasuryProposal := [0 \<mapsto> (rent False)\<lparr>t_against_votes := 2, t_votes_cast := Suc 1\<rparr>],
      kOpenProposals := [bob \<mapsto> 1], events := events proposed @ [Ev_tre_vote 0 alice False, Ev_tre_vote 0 bob False]\<rparr>"
  by (simp only: doubted_def run_calls.simps fst_conv snd_conv invoked [OF doubt_runs(1)] invoked [OF doubt_runs(2)])

lemma refused_run:
  "\<exists>t. dispatch (host 22) (VoteOnTreasuryProposal carol 0 False) doubted = Ok NoValue t \<and>
     kTreasuryProposal t 0 = Some ((rent False)\<lparr>t_against_votes := 3, t_votes_cast := 3, t_status := Rejected\<rparr>)"
  by (simp add: doubted_eq proposed_eq peopled_eq founded_eq eval_simps address_names joiner_def stake_boost_def
      treasury_eval tally_eval signed_divide_int_def)

theorem rejections_are_hopeless_witness:
  "\<exists>t w. dispatch (host 22) (VoteOnTreasuryProposal carol 0 False) doubted = Ok NoValue t \<and>
     kTreasuryProposal t 0 = Some w \<and> t_status w = Rejected \<and>
     (t_for_votes w + 6 * int (card (yet_to_vote 0 (kTreasuryVoted t) doubted) - card (departed_voters 0 (kTreasuryVoted t) doubted)))
       * 10000 < int (get_active_members doubted) * int (t_treasury_threshold w)"
proof -
  obtain t w where run: "dispatch (host 22) (VoteOnTreasuryProposal carol 0 False) doubted = Ok NoValue t"
    and w: "kTreasuryProposal t 0 = Some w" "t_status w = Rejected"
    using refused_run by auto
  have "reachable any_call doubted"
    unfolding doubted_def proposed_def by (intro reachable_run_calls reachable.call reachable_peopled) simp_all
  moreover have "\<not> (\<exists>p. kTreasuryProposal doubted 0 = Some p \<and> t_status p = Rejected)"
    by (simp add: doubted_eq rent_def)
  ultimately show ?thesis using rejections_are_hopeless [of doubted] run w by blast
qed

section \<open>A voter who leaves takes a vote along\<close>

text \<open>
  Alice votes against a withdrawal and leaves, Bob votes against it: it is rejected, although Carol
  has not voted. The code sees two active members and two ballots.
\<close>

lemma an_exit_takes_a_vote:
  "\<exists>s t u. dispatch (host 20) (VoteOnTreasuryProposal alice 0 False) proposed = Ok NoValue s \<and>
     dispatch (host 21) (ExitDao alice) s = Ok NoValue t \<and>
     dispatch (host 22) (VoteOnTreasuryProposal bob 0 False) t = Ok NoValue u \<and>
     map_option t_status (kTreasuryProposal u 0) = Some Rejected \<and>
     yet_to_vote 0 (kTreasuryVoted u) t = {carol} \<and> departed_voters 0 (kTreasuryVoted u) t = {alice}"
  unfolding doubt_runs(1) outcome.inject
  by (simp add: proposed_eq peopled_eq founded_eq eval_simps address_names joiner_def departed_def
      treasury_eval tally_eval signed_divide_int_def
      exit_dao_def calculate_exit_share_def compute_pending_yield_def check_funds_def unlock_stake_def
      pay_out_def release_name_def share_from_contributions_def checked_mul_def checked_div_def
      checked_i128_def mock_transfer_def purse_def yet_to_vote_def departed_voters_def is_member_def)
    auto

section \<open>A vote that counts twice\<close>

text \<open>
  Delegating after voting: Alice votes for a withdrawal, delegates to Carol, and Carol votes. Nobody
  has staked, two ballots are recorded, and they bring three votes.
\<close>

lemma delegation_run: "dispatch (host 21) (DelegateVote alice carol) polled = Ok NoValue
    (polled\<lparr>kDelegation := [alice \<mapsto> carol], events := events polled @ [Ev_delegate alice carol]\<rparr>)"
  by (simp add: polled_eq proposed_eq peopled_eq founded_eq eval_simps address_names joiner_def delegate_vote_def)

lemma delegation_counts_twice:
  "kTreasuryProposal (run_calls [(host 21, DelegateVote alice carol), (host 22, VoteOnTreasuryProposal carol 0 True)] polled) 0
     = Some ((rent False)\<lparr>t_for_votes := 3, t_votes_cast := 2, t_status := StExecuted\<rparr>)"
proof -
  obtain t where t: "dispatch (host 22) (VoteOnTreasuryProposal carol 0 True)
        (polled\<lparr>kDelegation := [alice \<mapsto> carol], events := events polled @ [Ev_delegate alice carol]\<rparr>) = Ok NoValue t"
      "kTreasuryProposal t 0 = Some ((rent False)\<lparr>t_for_votes := 3, t_votes_cast := 2, t_status := StExecuted\<rparr>)"
    by (simp add: polled_eq proposed_eq peopled_eq founded_eq eval_simps address_names joiner_def stake_boost_def
        treasury_eval tally_eval signed_divide_int_def mock_transfer_def purse_def Let_def)
  show ?thesis
    by (simp only: run_calls.simps fst_conv snd_conv invoked [OF delegation_run] invoked [OF t(1)] t(2))
qed

end
