(* ===== verification/Spending.thy ===== *)
theory Spending
  imports Payouts
begin

text \<open>
  Whose money a call can move: a judgement on programs, read like the frame calculus, that
  bounds the accounts a program transfers from.
\<close>

section \<open>Movements of the ledger\<close>

inductive moved :: "env \<Rightarrow> address set \<Rightarrow> ledger \<Rightarrow> ledger \<Rightarrow> bool" for env A where
  stay: "moved env A l l"
| send: "moved env A l l' \<Longrightarrow> a \<in> A \<Longrightarrow> env_transfer env token a b n l' = Some l'' \<Longrightarrow> moved env A l l''"

lemma moved_trans: "moved env A l' l'' \<Longrightarrow> moved env A l l' \<Longrightarrow> moved env A l l''"
  by (induction rule: moved.induct) (auto intro: send)

lemma moved_nobody: "moved env {} l l' \<Longrightarrow> l' = l"
  by (induction rule: moved.induct) auto

lemma moved_keeps:
  assumes "moved env A l l'" and "token_contract (env_transfer env)" and "c \<notin> A"
  shows "l token c \<le> l' token c"
  using assms(1)
proof (induction rule: moved.induct)
  case (send l l' a tok b n l'')
  then have "c \<noteq> a" using assms(3) by auto
  from token_contract.only_the_sender_loses [OF assms(2) send.hyps(3) this, of token] send.IH
  show ?case by simp
qed simp

section \<open>The judgement\<close>

named_theorems spends_intros \<open>rules for the accounts a program may transfer from\<close>

definition spends :: "env \<Rightarrow> address set \<Rightarrow> 'a run \<Rightarrow> bool" where
  "spends env A m \<longleftrightarrow>
     (\<forall>s. (\<forall>x t. m s = Ok x t \<longrightarrow> moved env A (ledger s) (ledger t)) \<and>
          (\<forall>e t. m s = Err e t \<longrightarrow> moved env A (ledger s) (ledger t)))"

lemma spendsI:
  "(\<And>s x t. m s = Ok x t \<Longrightarrow> moved env A (ledger s) (ledger t)) \<Longrightarrow>
   (\<And>s e t. m s = Err e t \<Longrightarrow> moved env A (ledger s) (ledger t)) \<Longrightarrow> spends env A m"
  by (simp add: spends_def)

lemma spends_Ok: "spends env A m \<Longrightarrow> m s = Ok x t \<Longrightarrow> moved env A (ledger s) (ledger t)"
  by (simp add: spends_def)

lemma spends_Err: "spends env A m \<Longrightarrow> m s = Err e t \<Longrightarrow> moved env A (ledger s) (ledger t)"
  by (simp add: spends_def)

lemma spends_frame: "writes F m \<Longrightarrow> FLedger \<notin> F \<Longrightarrow> spends env A m"
proof -
  assume w: "writes F m" and F: "FLedger \<notin> F"
  have "moved env A (ledger s) (ledger t)" if "agree F s t" for s t
    using agreeD [OF that F] by (simp add: stay)
  then show ?thesis by (blast intro: spendsI dest: writes_Ok [OF w] writes_Err [OF w])
qed

lemma spends_nothing: "writes (- {FLedger}) m \<Longrightarrow> spends env A m"
  by (erule spends_frame) simp

lemma spends_and_then [spends_intros]:
  "spends env A m \<Longrightarrow> (\<And>x. spends env A (f x)) \<Longrightarrow> spends env A (and_then m f)"
  by (rule spendsI) (auto simp: ok_simps err_simps intro: moved_trans stay dest: spends_Ok spends_Err)

lemma spends_seq [spends_intros]: "spends env A m \<Longrightarrow> spends env A k \<Longrightarrow> spends env A (seq m k)"
  by (simp add: seq_def spends_and_then)

lemma spends_is_ok [spends_intros]: "spends env A m \<Longrightarrow> spends env A (is_ok m)"
  by (rule spendsI) (auto simp: ok_simps err_simps dest: spends_Ok spends_Err)

lemma spends_when_do [spends_intros]: "spends env A m \<Longrightarrow> spends env A (when_do c m)"
  by (rule spendsI) (auto simp: ok_simps err_simps stay split: if_splits dest: spends_Ok spends_Err)

lemma spends_if [spends_intros]: "spends env A m \<Longrightarrow> spends env A k \<Longrightarrow> spends env A (if c then m else k)"
  by simp

lemma spends_option [spends_intros]:
  "spends env A m \<Longrightarrow> (\<And>x. spends env A (f x)) \<Longrightarrow> spends env A (case v of None \<Rightarrow> m | Some x \<Rightarrow> f x)"
  by (cases v) simp_all

lemma spends_prod [spends_intros]:
  "(\<And>a b. spends env A (f a b)) \<Longrightarrow> spends env A (case v of (a, b) \<Rightarrow> f a b)"
  by (cases v) simp

lemma spends_let [spends_intros]: "(\<And>x. spends env A (f x)) \<Longrightarrow> spends env A (let x = v in f x)"
  by simp

lemma spends_for_each [spends_intros]: "(\<And>x. spends env A (body x)) \<Longrightarrow> spends env A (for_each xs body)"
  by (induction xs) (auto intro: spends_intros spends_nothing writes_intros)

lemma spends_reply_with [spends_intros]: "spends env A m \<Longrightarrow> spends env A (reply_with f m)"
  by (auto simp: reply_with_def intro!: spends_intros intro: spends_nothing writes_intros)

lemma spends_transfer [spends_intros]: "a \<in> A \<Longrightarrow> spends env A (token_transfer env token a b n)"
  by (rule spendsI) (auto simp: ok_simps err_simps intro: send stay)

section \<open>Every entrypoint\<close>

lemma spends_treasury [spends_intros]:
  "env_self env \<in> A \<Longrightarrow> spends env A (treasury_execute env p)"
  "env_self env \<in> A \<Longrightarrow> spends env A (try_treasury_execute env p)"
proof -
  assume self: "env_self env \<in> A"
  show x: "spends env A (treasury_execute env p)" for p
    using self by (auto simp: treasury_execute_def Let_def intro!: spends_intros intro: spends_nothing writes_intros)
  show "spends env A (try_treasury_execute env p)"
  proof (rule spendsI)
    fix s x t assume "try_treasury_execute env p s = Ok x t"
    then show "moved env A (ledger s) (ledger t)"
      by (auto simp: try_treasury_execute_def ok_simps split: outcome.splits dest: spends_Ok [OF x] spends_Err [OF x])
  next
    fix s e t assume "try_treasury_execute env p s = Err e t"
    then show "moved env A (ledger s) (ledger t)"
      by (auto simp: try_treasury_execute_def err_simps split: outcome.splits)
  qed
qed

lemma spends_membership [spends_intros]:
  "who \<in> A \<Longrightarrow> spends env A (register_member env who)"
  "env_self env \<in> A \<Longrightarrow> spends env A (exit_dao env who)"
  "env_self env \<in> A \<Longrightarrow> spends env A (claim_rewards env who)"
  by (auto simp: register_member_def exit_dao_def pay_out_def claim_rewards_def check_funds_def unlock_stake_def
      Let_def split_beta intro!: spends_intros intro: spends_nothing writes_intros)

lemma spends_loans [spends_intros]:
  "env_self env \<in> A \<Longrightarrow> spends env A (approve_and_disburse env p)"
  "who \<in> A \<Longrightarrow> spends env A (repay_loan_internal env who i x)"
  by (auto simp: approve_and_disburse_def repay_loan_internal_def Let_def
      intro!: spends_intros intro: spends_nothing writes_intros)

lemma spends_ballots [spends_intros]:
  "env_self env \<in> A \<Longrightarrow> spends env A (vote_on_loan_proposal_internal env who i b)"
  "env_self env \<in> A \<Longrightarrow> spends env A (disburse_approved_loan env i)"
  "env_self env \<in> A \<Longrightarrow> spends env A (tally env w who b)"
  by (auto simp: vote_on_loan_proposal_internal_def conclude_loan_vote_def disburse_approved_loan_def tally_def
      conclude_treasury_vote_def Let_def intro!: spends_intros intro: spends_nothing writes_intros)

text \<open>
  The accounts a call may take money from: the caller's where the caller pays in (a registration, a
  repayment, a stake), the contract's where it pays out (an unstake among them).
\<close>

definition payers :: "env \<Rightarrow> call \<Rightarrow> address set" where
  "payers env c =
     (case c of
        RegisterMember who \<Rightarrow> {who}
      | RepayLoan who _ \<Rightarrow> {who}
      | RepayLoanInAsset who _ _ \<Rightarrow> {who}
      | RepayLoanPartial who _ _ \<Rightarrow> {who}
      | Stake who _ \<Rightarrow> {who}
      | Unstake _ _ \<Rightarrow> {env_self env}
      | _ \<Rightarrow> if FLedger \<in> footprint c then {env_self env} else {})"

lemma spends_dispatch: "spends env (payers env c) (dispatch env c)"
proof (cases "FLedger \<in> footprint c")
  case True
  then show ?thesis
    by (cases c)
      (auto simp: payers_def vote_on_loan_proposal_def vote_batch_def repay_loan_def repay_loan_in_asset_def
        repay_loan_partial_def treasury_vote_def reveal_vote_def execute_approved_def
        intro!: spends_intros intro: spends_nothing writes_intros)
qed (use spends_frame [OF writes_dispatch] in blast)

section \<open>Properties\<close>

text \<open>
  C10: nobody pays for somebody else: in any call under a token that moves exactly what it is asked
  to, the only balances that can fall are the joining member's in a registration, the borrower's
  in a repayment, the staker's in a stake, and the contract's own in the calls that pay out.
\<close>

theorem only_the_payer_pays:
  assumes "token_contract (env_transfer env)" and "a \<notin> payers env c"
  shows "ledger s token a \<le> ledger (snd (invoke env c s)) token a"
proof (cases rule: invoke_cases [of env c s])
  case (returned r t)
  from spends_Ok [OF spends_dispatch returned(1)] show ?thesis
    using moved_keeps [OF _ assms] returned(2) by simp
qed simp_all

theorem only_the_payer_pays_witness:
  "ledger lent usdc bob \<le> ledger serviced usdc bob"
proof -
  have "snd (invoke (host 260000) (RepayLoanPartial alice 0 48) lent) = serviced" by (simp add: serviced_def)
  moreover have "bob \<notin> payers (host 260000) (RepayLoanPartial alice 0 48)" by (simp add: payers_def address_names)
  ultimately show ?thesis
    using only_the_payer_pays [OF mock_host, of bob 260000 "RepayLoanPartial alice 0 48" lent usdc] by simp
qed

end
