(* ===== verification/Liveness.thy ===== *)
theory Liveness
  imports Governance Weights Tallies Spending
begin

text \<open>
  What nobody can take away from a member: with the contract running, the funds there and a token
  that accepts the transfer, an exit goes through.
\<close>

section \<open>Leaving\<close>

lemma exit_runs:
  assumes "is_initialized s" and "\<not> is_paused s" and "env_auth env who" and "kToken s = Some base"
    and "env_is_token env base" and m: "kMember s who = Some m" "m_status m = ActiveMember" "\<not> m_has_active_loan m"
    and fits: "in_i128 (spendable env base s)" "in_i128 (get_yield_accumulator s - get_yield_snapshot who s)"
      "in_i128 (exit_share env m s + get_stake who s)" "in_i128 (payout_of env who m s)"
      "0 < get_stake who s \<longrightarrow> in_i128 (get_total_staked s - get_stake who s)"
      "0 < get_active_members s" "in_i128 (get_active_contributions s - m_contribution m)"
    and funds: "payout_of env who m s \<le> ledger s base (env_self env)"
    and accepts: "0 < payout_of env who m s \<longrightarrow>
      env_transfer env base (env_self env) who (payout_of env who m s) (ledger s) \<noteq> None"
  shows "\<exists>t. exit_dao env who s = Ok () t"
proof -
  obtain l where l: "paid_out env base who (payout_of env who m s) (ledger s) = Some l"
    using accepts by (cases "0 < payout_of env who m s") (auto simp: paid_out_def)
  show ?thesis
    using assms l unfolding exit_dao_def payout_of_def
    by (simp add: ok_simps accessor_defs is_initialized_def)
qed

section \<open>Repaying\<close>

lemma close_runs:
  assumes "\<And>m. kMember s who = Some m \<Longrightarrow> m_repaid_loans m < u32_MAX"
  shows "close_if_repaid who r l s =
    Ok (if r = 0 then l\<lparr>l_status := Repaid\<rparr> else l) (s\<lparr>kMember := relieve who (r = 0) (kMember s)\<rparr>)"
  using assms
  by (cases "kMember s who")
    (auto simp: close_if_repaid_def run_simps accessor_defs relieve_def relieved_def u32_saturating_sub_def)

lemma distribute_runs:
  assumes "yields_ok s" and "get_yield_accumulator s + get_yield_remainder s + interest \<le> i128_MAX"
  shows "\<exists>t. distribute_interest interest asset s = Ok () t \<and> agree {FYieldAccumulator, FYieldRemainder, FEvents} s t"
proof (cases "interest \<le> 0 \<or> get_active_members s = 0")
  case True
  then have "distribute_interest interest asset s = Ok () s" by (auto simp: distribute_interest_def run_simps Let_def)
  then show ?thesis by auto
next
  case False
  define pot where "pot = interest + get_yield_remainder s"
  define n where "n = int (get_active_members s)"
  have pos: "0 < interest" "0 < n" "0 \<le> get_yield_remainder s" "0 \<le> get_yield_accumulator s"
    using False assms(1) by (auto simp: n_def yields_ok_def)
  then have "0 \<le> pot" by (simp add: pot_def)
  then have share: "pot sdiv n = pot div n" "0 \<le> pot div n" "pot div n \<le> pot"
    using pos(2) zdiv_mono2 [of pot 1 n] by (simp_all add: sdiv_nonneg pos_imp_zdiv_nonneg_iff)
  have fits: "in_i128 pot" "in_i128 (get_yield_accumulator s + pot sdiv n)"
    using pos share assms(2) \<open>0 \<le> pot\<close> by (simp_all add: in_i128_def pot_def i128_MIN_def)
  have "\<exists>t. distribute_interest interest asset s = Ok () t"
    using False fits unfolding distribute_interest_def Let_def pot_def n_def accessor_defs
    by (auto simp: run_simps publish_def)
  then show ?thesis using ok_distribute_interest(1) by blast
qed

lemma repay_runs:
  assumes "is_initialized s" and "\<not> is_paused s" and "env_auth env who" and "kToken s = Some base"
    and l: "kLoan s i = Some l" "l_borrower l = who" "l_status l = LoanActive" "sound_loan l"
    and "yields_ok s" and "kPolicy s \<noteq> None" and l1: "l1 = settled env s l"
    and room: "get_yield_accumulator s + get_yield_remainder s + l_total_repayment l1 \<le> i128_MAX"
    and counters: "\<And>m. kMember s who = Some m \<Longrightarrow> m_repaid_loans m < u32_MAX"
    and pays: "env_transfer env (asset_of (kLoanAsset s) i s) who (env_self env) (owed l1) (ledger s) = Some lg"
  shows "\<exists>t. repay_loan env who i s = Ok () t"
proof -
  have s1: "sound_loan l1" "0 < owed l1" using settled_sound l(3,4) l1 by blast+
  have pos: "0 \<le> get_yield_accumulator s + get_yield_remainder s" using assms(9) by (simp add: yields_ok_def)
  then have bounds: "0 < l_principal l1" "l_principal l1 \<le> l_total_repayment l1" "0 \<le> l_amount_repaid l1"
    "l_amount_repaid l1 \<le> l_total_repayment l1" "l_total_repayment l1 \<le> i128_MAX"
    using s1(1) room by (simp_all add: sound_loan_def)
  have pen: "0 \<le> penalty_due env s l" by (rule penalty_nonneg)
  have settle: "settle_overdue env l s = Ok (owed l1, l1) s"
    using bounds pen l(4) assms(10) l1
    by (simp add: ok_simps in_i128_def i128_MIN_def settled_def owed_def sound_loan_def)
  define v where "v = s\<lparr>kMember := relieve who True (kMember s),
    kLoan := (kLoan s)(l_id l1 \<mapsto> l1\<lparr>l_amount_repaid := l_total_repayment l1, l_status := Repaid\<rparr>)\<rparr>"
  define x where "x = min (l_total_repayment l1) (interest_total l1) - min (l_amount_repaid l1) (interest_total l1)"
  have "x \<le> l_total_repayment l1" using bounds by (auto simp: x_def interest_total_def min_def)
  then have "get_yield_accumulator v + get_yield_remainder v + x \<le> i128_MAX" "yields_ok v"
    using room assms(9) by (simp_all add: v_def accessor_defs yields_ok_def)
  from distribute_runs [OF this(2,1), of base] obtain d where
    d: "distribute_interest x base v = Ok () d" "agree {FYieldAccumulator, FYieldRemainder, FEvents} v d" by blast
  then have lg: "ledger d = ledger s" using agreeD [OF d(2), of FLedger] by (simp add: v_def)
  have sums: "l_amount_repaid l1 + owed l1 = l_total_repayment l1" by (simp add: owed_def)
  have inner: "l_total_repayment l1 - l_principal l1 = interest_total l1" by (simp add: interest_total_def)
  have fits: "in_i128 (interest_total l1)" "in_i128 (l_total_repayment l1)" "in_i128 x" "in_i128 0"
    using bounds by (auto simp: in_i128_def i128_MIN_def x_def interest_total_def min_def i128_MAX_def)
  have close: "close_if_repaid who 0 (l1\<lparr>l_amount_repaid := l_total_repayment l1\<rparr>) s =
      Ok (l1\<lparr>l_amount_repaid := l_total_repayment l1, l_status := Repaid\<rparr>) (s\<lparr>kMember := relieve who True (kMember s)\<rparr>)"
    using close_runs [OF counters] by simp
  have loaded: "get_loan_asset i s = Ok (asset_of (kLoanAsset s) i s) s"
    using assms(4) by (simp add: ok_simps)
  have v: "kToken v = Some base" "ledger v = ledger s" using assms(4) by (simp_all add: v_def)
  show ?thesis
    using assms(1-3) l s1 d v lg pays assms(4) fits settle close loaded sums inner
    unfolding repay_loan_def repay_loan_internal_def
    by (cases "asset_of (kLoanAsset s) i s = base")
      (simp_all add: run_simps accessor_defs require_initialized_def require_not_paused_def require_auth_def
        x_def [symmetric] v_def [symmetric] get_token_def publish_def Let_def)
qed

section \<open>Properties\<close>

text \<open>
  C13: members can always leave: while the contract runs, an active member without a loan gets out
  in one call, as long as the contract holds what it owes them and the token accepts the transfer.
\<close>

theorem members_can_leave:
  assumes "reachable sane_stakes s" and "is_initialized s" and "\<not> is_paused s" and "env_auth env who"
    and "kMember s who = Some m" and "m_status m = ActiveMember" and "\<not> m_has_active_loan m"
    and "kToken s = Some base" and "env_is_token env base"
    and "0 \<le> ledger s base (env_self env)" and "ledger s base (env_self env) \<le> i128_MAX"
    and "payout_of env who m s \<le> ledger s base (env_self env)"
    and "0 < payout_of env who m s \<longrightarrow>
      env_transfer env base (env_self env) who (payout_of env who m s) (ledger s) \<noteq> None"
    and "in_i128 (get_active_contributions s - m_contribution m)"
  shows "\<exists>t. invoke env (ExitDao who) s = (Returned NoValue, t) \<and> \<not> is_member who t"
proof -
  have any: "reachable any_call s" using assms(1) by (rule reachable_mono) simp
  have "reachable typed_call s" using assms(1) by (rule reachable_mono) (rule sane_typed)
  then have ints: "ints_ok s" by (rule ints.reachable_holds)
  have "stake_book (kStake s) (get_total_staked s)"
    using stakes.reachable_holds [OF assms(1)] by (simp add: stakes_ok_def)
  from stake_book_le [OF this, of who]
  have st: "0 \<le> get_stake who s" "get_stake who s \<le> get_total_staked s" by (simp_all add: get_stake_def)
  have staked: "in_i128 (get_total_staked s)" using ints by (simp add: ints_ok_def)
  have share: "0 \<le> exit_share env m s" by (simp add: exit_share_def share_nonneg)
  have yield: "get_yield_snapshot who s \<le> get_yield_accumulator s"
    using yields.reachable_holds [OF any] by (simp add: yields_ok_def)
  have parts: "exit_share env m s + get_stake who s \<le> i128_MAX"
    "get_yield_accumulator s - get_yield_snapshot who s \<le> i128_MAX" "payout_of env who m s \<le> i128_MAX" "0 \<le> payout_of env who m s"
    using assms(11,12) st share yield by (simp_all add: payout_of_def unclaimed_yield_def)
  have "is_member who s" using assms(5,6) by (simp add: is_member_def get_member_def)
  then have "0 < get_active_members s"
    using members_counted [OF members.reachable_holds [OF any]] by (metis card_gt_0_iff empty_iff mem_Collect_eq)
  moreover have "in_i128 (spendable env base s)"
    using staked st assms(8,10,11) by (simp add: spendable_def in_i128_def i128_MIN_def i128_MAX_def)
  ultimately obtain t where run: "exit_dao env who s = Ok () t"
    using exit_runs [OF assms(2-4,8,9,5-7)] assms(12-14) parts yield share st staked
    by (auto simp: in_i128_def i128_MIN_def i128_MAX_def)
  from ok_exit_dao [OF run] obtain m' where "leaves env who m' s t" by blast
  then have "\<not> is_member who t"
    using members.reachable_holds [OF any]
    by (auto simp: leaves_def members_ok_def book_ok_def is_member_def get_member_def departed_def)
  with run show ?thesis by (simp add: invoke_def reply_with_def run_simps)
qed

theorem members_can_leave_witness:
  "\<exists>t. invoke (host 30) (ExitDao carol) pledged = (Returned NoValue, t) \<and> \<not> is_member carol t"
proof (rule members_can_leave [OF reachable_pledged_sane, where m = "joiner carol" and base = usdc])
qed (simp_all add: pledged_eq peopled_eq founded_eq address_names host_def joiner_def is_initialized_def
    payout_of_def exit_share_def share_from_contributions_def spendable_def unclaimed_yield_def accessor_defs
    checked_mul_def checked_div_def checked_i128_def signed_divide_int_def int_bounds mock_transfer_def)

text \<open>
  C14: a borrower can repay: on a contract that is not paused and whose loans were not seeded by a
  migration, the borrower of an active loan who signs the call closes the loan in one call, as long
  as the token accepts the payment, the accumulated yield and the total owed together fit 128 bits,
  and the borrower's count of repaid loans is not at its 32-bit maximum.
\<close>

theorem borrowers_can_repay:
  assumes "reachable unseeded s" and "is_initialized s" and "\<not> is_paused s" and "env_auth env who"
    and "kLoan s i = Some l" and "l_borrower l = who" and "l_status l = LoanActive"
    and "env_transfer env (asset_of (kLoanAsset s) i s) who (env_self env) (owed (settled env s l)) (ledger s) \<noteq> None"
    and "get_yield_accumulator s + get_yield_remainder s + l_total_repayment (settled env s l) \<le> i128_MAX"
    and "\<forall>m. kMember s who = Some m \<longrightarrow> m_repaid_loans m < u32_MAX"
  shows "\<exists>t l'. invoke env (RepayLoan who i) s = (Returned NoValue, t) \<and>
                kLoan t i = Some l' \<and> l_status l' = Repaid \<and> l_amount_repaid l' = l_total_repayment l'"
proof -
  have any: "reachable any_call s" using assms(1) by (rule reachable_mono) simp
  then have y: "yields_ok s" by (rule yields.reachable_holds)
  have "settings_ok s" by (rule settings.reachable_holds [OF any])
  with assms(2) obtain base where set: "kToken s = Some base" "kPolicy s \<noteq> None" by (auto simp: settings_ok_def)
  have "loans_ok s" by (rule loans.reachable_holds [OF assms(1)])
  then have l: "sound_loan l" "l_id l = i" using assms(5) by (auto simp: loans_ok_def approved_in_def)
  obtain lg where "env_transfer env (asset_of (kLoanAsset s) i s) who (env_self env) (owed (settled env s l)) (ledger s) = Some lg"
    using assms(8) by blast
  from repay_runs [OF assms(2-4) set(1) assms(5-7) l(1) y set(2) refl assms(9) _ this] assms(10)
  obtain t where run: "repay_loan env who i s = Ok () t" by blast
  from ok_repay_internal [of env who i None s "()" t] run
  obtain l' paid where r: "repays env who i None l' paid s t" by (auto simp: repay_loan_def)
  then have "l' = l" "paid = owed (settled env s l)" using assms(5) by (auto simp: repays_def Let_def)
  with r l(2) have "kLoan t i = Some (after_payment (settled env s l) (owed (settled env s l)))"
    by (simp add: repays_def Let_def)
  with run show ?thesis
    by (simp add: invoke_def reply_with_def run_simps after_payment_def owed_def)
qed

theorem borrowers_can_repay_witness:
  "\<exists>t l'. invoke (host 270000) (RepayLoan alice 0) serviced = (Returned NoValue, t) \<and> kLoan t 0 = Some l' \<and> l_status l' = Repaid"
proof -
  have "\<exists>t l'. invoke (host 270000) (RepayLoan alice 0) serviced = (Returned NoValue, t) \<and>
                kLoan t 0 = Some l' \<and> l_status l' = Repaid \<and> l_amount_repaid l' = l_total_repayment l'"
    by (rule borrowers_can_repay [OF reachable_serviced, where l = "lent_loan\<lparr>l_amount_repaid := 48\<rparr>"])
      (simp_all add: serviced_eq lent_eq backed_eq asked_eq peopled_eq founded_eq address_names host_def joiner_def
        is_initialized_def lent_loan_def settled_def penalty_due_def owed_def asset_of_def accessor_defs
        mock_transfer_def purse_def int_bounds)
  then show ?thesis by blast
qed

end
