(* ===== verification/Log.thy ===== *)
theory Log
  imports Records Spending
begin

text \<open>
  The event log: it only grows, and each entrypoint adds events of its own kinds. \<open>logs E s t\<close>
  says that \<open>t\<close> has the events of \<open>s\<close> and then some out of \<open>E\<close>; \<open>emits E m\<close> is the judgement for
  the events a program may publish, read like the frame calculus of \<open>Frame\<close>.
\<close>

section \<open>Published events\<close>

definition logs :: "event set \<Rightarrow> dao \<Rightarrow> dao \<Rightarrow> bool" where
  "logs E s t \<longleftrightarrow> (\<exists>es. events t = events s @ es \<and> set es \<subseteq> E)"

lemma logs_refl: "events t = events s \<Longrightarrow> logs E s t"
  by (simp add: logs_def)

lemma logs_trans: "logs E s t \<Longrightarrow> logs E t u \<Longrightarrow> logs E s u"
  by (fastforce simp: logs_def)

named_theorems emits_intros \<open>rules for the events a program may publish\<close>

definition emits :: "event set \<Rightarrow> 'a run \<Rightarrow> bool" where
  "emits E m \<longleftrightarrow> (\<forall>s. (\<forall>x t. m s = Ok x t \<longrightarrow> logs E s t) \<and> (\<forall>e t. m s = Err e t \<longrightarrow> logs E s t))"

lemma emitsI:
  "(\<And>s x t. m s = Ok x t \<Longrightarrow> logs E s t) \<Longrightarrow> (\<And>s e t. m s = Err e t \<Longrightarrow> logs E s t) \<Longrightarrow> emits E m"
  by (simp add: emits_def)

lemma emits_Ok: "emits E m \<Longrightarrow> m s = Ok x t \<Longrightarrow> logs E s t"
  by (simp add: emits_def)

lemma emits_Err: "emits E m \<Longrightarrow> m s = Err e t \<Longrightarrow> logs E s t"
  by (simp add: emits_def)

lemma emits_frame: "writes F m \<Longrightarrow> FEvents \<notin> F \<Longrightarrow> emits E m"
proof -
  assume w: "writes F m" and F: "FEvents \<notin> F"
  have "logs E s t" if "agree F s t" for s t
    using agreeD [OF that F] by (simp add: logs_refl)
  then show ?thesis by (blast intro: emitsI dest: writes_Ok [OF w] writes_Err [OF w])
qed

lemma emits_nothing: "writes (- {FEvents}) m \<Longrightarrow> emits E m"
  by (erule emits_frame) simp

lemma emits_publish [emits_intros]: "e \<in> E \<Longrightarrow> emits E (publish e)"
  by (rule emitsI) (auto simp: ok_simps err_simps logs_def)

lemma emits_and_then [emits_intros]:
  "emits E m \<Longrightarrow> (\<And>x. emits E (f x)) \<Longrightarrow> emits E (and_then m f)"
  by (rule emitsI) (auto simp: ok_simps err_simps intro: logs_trans dest: emits_Ok emits_Err)

lemma emits_seq [emits_intros]: "emits E m \<Longrightarrow> emits E k \<Longrightarrow> emits E (seq m k)"
  by (simp add: seq_def emits_and_then)

lemma emits_is_ok [emits_intros]: "emits E m \<Longrightarrow> emits E (is_ok m)"
  by (rule emitsI) (auto simp: ok_simps err_simps dest: emits_Ok emits_Err)

lemma emits_when_do [emits_intros]: "emits E m \<Longrightarrow> emits E (when_do c m)"
  by (rule emitsI) (auto simp: ok_simps err_simps logs_refl split: if_splits dest: emits_Ok emits_Err)

lemma emits_if [emits_intros]: "emits E m \<Longrightarrow> emits E k \<Longrightarrow> emits E (if c then m else k)"
  by simp

lemma emits_option [emits_intros]:
  "emits E m \<Longrightarrow> (\<And>x. emits E (f x)) \<Longrightarrow> emits E (case v of None \<Rightarrow> m | Some x \<Rightarrow> f x)"
  by (cases v) simp_all

lemma emits_prod [emits_intros]:
  "(\<And>a b. emits E (f a b)) \<Longrightarrow> emits E (case v of (a, b) \<Rightarrow> f a b)"
  by (cases v) simp

lemma emits_let [emits_intros]: "(\<And>x. emits E (f x)) \<Longrightarrow> emits E (let x = v in f x)"
  by simp

lemma emits_for_each [emits_intros]: "(\<And>x. x \<in> set xs \<Longrightarrow> emits E (body x)) \<Longrightarrow> emits E (for_each xs body)"
  by (induction xs) (auto intro: emits_intros emits_nothing writes_intros)

lemma emits_reply_with [emits_intros]: "emits E m \<Longrightarrow> emits E (reply_with f m)"
  by (auto simp: reply_with_def intro!: emits_intros intro: emits_nothing writes_intros)

section \<open>The events of the entrypoints\<close>

text \<open>How the tally of a loan proposal and of a withdrawal may end.\<close>

definition loan_verdict :: "event \<Rightarrow> bool" where
  "loan_verdict e \<longleftrightarrow>
     (case e of Ev_loan_wait _ _ \<Rightarrow> True | Ev_loan_rej _ _ _ \<Rightarrow> True | Ev_loan_appr _ _ _ _ _ \<Rightarrow> True | _ \<Rightarrow> False)"

definition treasury_verdict :: "event \<Rightarrow> bool" where
  "treasury_verdict e \<longleftrightarrow>
     (case e of Ev_tre_wait _ _ \<Rightarrow> True | Ev_tre_rej _ _ _ \<Rightarrow> True | Ev_tre_exec _ _ _ \<Rightarrow> True | _ \<Rightarrow> False)"

text \<open>The kinds of events of every entrypoint, with the arguments of the call they repeat.\<close>

primrec announces :: "call \<Rightarrow> event \<Rightarrow> bool" where
  "announces (Initialize admins threshold fee token policy) e = (e = Ev_init admins threshold fee token)"
| "announces (AddAdmin caller admin) e = (e = Ev_admin_add admin)"
| "announces (RemoveAdmin caller admin) e = (e = Ev_admin_rem admin)"
| "announces (SetPauser caller pauser) e = (e = Ev_pset pauser)"
| "announces (RevokePauser caller) e = (e = Ev_prev caller)"
| "announces (SetConsensusThreshold caller threshold) e = (\<exists>old. e = Ev_threshold old threshold)"
| "announces (ProposePolicyUpdate caller policy) e = (\<exists>n. e = Ev_pol_prop caller n)"
| "announces (ExecutePolicyUpdate caller) e = (\<exists>old new. e = Ev_policy old new)"
| "announces (CancelPolicyUpdate caller) e = (e = Ev_pol_canc caller)"
| "announces (SetLoanPolicy caller policy) e = (\<exists>n. e = Ev_pol_prop caller n)"
| "announces (Pause caller) e = (e = Ev_paused caller)"
| "announces (Unpause caller) e = (e = Ev_unpaused caller)"
| "announces (RegisterMember who) e = (\<exists>fee. e = Ev_joined who fee)"
| "announces (ExitDao who) e = ((\<exists>n. e = Ev_name_rel n who) \<or> (\<exists>x y. e = Ev_exited who x y))"
| "announces (ClaimRewards who) e = (\<exists>n r. e = Ev_claimed who n r)"
| "announces (DelegateVote delegator delegatee) e = (e = Ev_delegate delegator delegatee)"
| "announces (RequestLoan borrower amount cid) e =
     (\<exists>i a n. e = Ev_loan_asst i a \<or> e = Ev_loan_req i borrower amount n a)"
| "announces (RequestLoanInAsset borrower amount asset cid) e =
     (\<exists>i n. e = Ev_loan_asst i asset \<or> e = Ev_loan_req i borrower amount n asset)"
| "announces (EditLoanProposal borrower i amount) e = (\<exists>n. e = Ev_loan_edit i borrower amount n)"
| "announces (CancelLoanProposal borrower i) e = (\<exists>now. e = Ev_prop_canc i now)"
| "announces (VoteOnLoanProposal voter i support) e = (e = Ev_loan_vote i voter support \<or> loan_verdict e)"
| "announces (VoteBatch voter votes) e =
     ((\<exists>v \<in> set votes. e = Ev_loan_vote (pv_proposal_id v) voter (pv_vote v)) \<or> loan_verdict e)"
| "announces (DisburseApprovedLoan i) e = loan_verdict e"
| "announces (RepayLoan borrower i) e =
     ((\<exists>n m a. e = Ev_interest n m a) \<or> (\<exists>n a. e = Ev_loan_rpy i borrower n a))"
| "announces (RepayLoanInAsset borrower i asset) e =
     ((\<exists>n m a. e = Ev_interest n m a) \<or> (\<exists>n a. e = Ev_loan_rpy i borrower n a))"
| "announces (RepayLoanPartial borrower i amount) e =
     ((\<exists>n m a. e = Ev_interest n m a) \<or> (\<exists>n a. e = Ev_loan_rpy i borrower n a))"
| "announces (MarkLoanDefaulted i) e = (\<exists>b n. e = Ev_loan_dflt i b n)"
| "announces (ExpireLoanProposal i) e = (\<exists>b. e = Ev_loan_exp i b)"
| "announces (ProposeTreasuryWithdrawal proposer amount destination reason private) e =
     (\<exists>i a. e = Ev_tre_asset i a \<or> e = Ev_tre_prop i amount destination private)"
| "announces (ProposeWithdrawalInAsset proposer amount asset destination reason private) e =
     (\<exists>i. e = Ev_tre_asset i asset \<or> e = Ev_tre_prop i amount destination private)"
| "announces (VoteOnTreasuryProposal voter i support) e =
     ((\<exists>j. e = Ev_tre_vote j voter support) \<or> treasury_verdict e)"
| "announces (CancelTreasuryProposal proposer i) e = (\<exists>now. e = Ev_prop_canc i now)"
| "announces (ExpireTreasuryProposal i) e = False"
| "announces (ExecuteTreasuryProposal i) e = (\<exists>j n a. e = Ev_tre_exec j n a)"
| "announces BumpDaoTtl e = (e = Ev_TtlBumped)"
| "announces (Stake who amount) e = (\<exists>n w. e = Ev_staked who amount n w)"
| "announces (Unstake who amount) e = (\<exists>n w. e = Ev_unstaked who amount n w)"
| "announces (RegisterName owner name) e = (e = Ev_name_reg name owner \<or> (\<exists>n. e = Ev_name_rel n owner))"
| "announces (CommitTreasuryVote voter i commitment) e = (e = Ev_committed i voter)"
| "announces (RevealTreasuryVote voter i support salt) e =
     (e = Ev_revealed i voter support \<or> (\<exists>j. e = Ev_tre_vote j voter support) \<or> treasury_verdict e)"
| "announces (AttachDocument caller kind i content_hash) e = (e = Ev_doc_attn kind i caller)"
| "announces (ProposeTokenAddition caller token) e = (\<exists>n. e = Ev_tok_prop caller token n)"
| "announces (ExecuteTokenAddition caller token) e = (e = Ev_tok_add caller token)"
| "announces (RemoveToken caller token) e = (e = Ev_tok_rem caller token)"
| "announces (SeedMembers caller members) e = False"
| "announces (SeedStakes caller stakes) e = False"
| "announces (SeedPendingYield caller yields) e = False"
| "announces (SeedLoans caller loans) e = False"
| "announces (SeedNames caller names) e = False"
| "announces (SeedDocs caller docs) e = False"
| "announces (LockSeeding caller) e = False"

lemma emits_tallies [emits_intros]:
  "(\<And>b n d a. Ev_loan_appr (p_id p) b n d a \<in> E) \<Longrightarrow> emits E (approve_and_disburse env p)"
  "(\<And>n a. Ev_tre_exec (t_id w) n a \<in> E) \<Longrightarrow> emits E (treasury_execute env w)"
  by (auto simp: approve_and_disburse_def treasury_execute_def Let_def
      intro!: emits_intros intro: emits_nothing writes_intros)

lemma emits_verdicts [emits_intros]:
  "Collect loan_verdict \<subseteq> E \<Longrightarrow> emits E (conclude_loan_vote env n r p)"
  "Collect loan_verdict \<subseteq> E \<Longrightarrow> emits E (disburse_approved_loan env i)"
  by (auto simp: conclude_loan_vote_def disburse_approved_loan_def loan_verdict_def Let_def
      intro!: emits_intros intro: emits_nothing writes_intros)

lemma emits_try [emits_intros]:
  assumes "Collect treasury_verdict \<subseteq> E"
  shows "emits E (try_treasury_execute env p)"
proof -
  have x: "emits E (treasury_execute env p)" "emits E (publish (Ev_tre_wait (t_id p) (t_amount p)))"
    using assms by (auto simp: treasury_verdict_def intro!: emits_intros)
  show ?thesis
  proof (rule emitsI)
    fix s q t assume "try_treasury_execute env p s = Ok q t"
    then show "logs E s t"
      by (auto simp: try_treasury_execute_def ok_seq ok_ret split: outcome.splits
          intro: logs_trans dest: emits_Ok [OF x(1)] emits_Err [OF x(1)] emits_Ok [OF x(2)])
  next
    fix s e t assume "try_treasury_execute env p s = Err e t"
    then show "logs E s t" by (auto simp: try_treasury_execute_def err_simps split: outcome.splits)
  qed
qed

lemma emits_ballots [emits_intros]:
  "Ev_loan_vote i who b \<in> E \<Longrightarrow> Collect loan_verdict \<subseteq> E \<Longrightarrow> emits E (vote_on_loan_proposal_internal env who i b)"
  "(\<And>j. Ev_tre_vote j who b \<in> E) \<Longrightarrow> Collect treasury_verdict \<subseteq> E \<Longrightarrow> emits E (tally env w who b)"
  by (auto simp: vote_on_loan_proposal_internal_def cast_loan_vote_def tally_def cast_treasury_vote_def
      conclude_treasury_vote_def treasury_verdict_def Let_def
      intro!: emits_intros intro: emits_nothing writes_intros)


lemmas speaking_defs = initialize_def add_admin_def remove_admin_def admin_set_pauser_def revoke_pauser_def
  set_consensus_threshold_def propose_policy_update_def execute_policy_update_def cancel_policy_update_def
  admin_set_policy_def pause_def unpause_def propose_token_addition_def execute_token_addition_def
  remove_token_def register_member_def exit_dao_def release_name_def claim_rewards_def delegate_vote_def
  request_loan_def request_loan_in_asset_def edit_loan_proposal_def cancel_loan_proposal_def
  vote_on_loan_proposal_def vote_batch_def repay_loan_def repay_loan_in_asset_def repay_loan_partial_def
  repay_loan_internal_def distribute_interest_def mark_loan_defaulted_def expire_loan_proposal_def
  propose_withdrawal_def propose_withdrawal_in_asset_def treasury_vote_def cancel_treasury_proposal_def
  execute_approved_def stake_def unstake_def register_name_def commit_vote_def reveal_vote_def
  attach_document_def validate_policy_def validate_token_def check_funds_def unlock_stake_def pay_out_def
  reject_if_any_def validate_name_def

lemma emits_dispatch: "emits (Collect (announces c)) (dispatch env c)"
proof (cases "FEvents \<in> footprint c")
  case True
  then show ?thesis
    by (cases c)
      (auto simp: speaking_defs Let_def split_beta intro!: emits_intros intro: emits_nothing writes_intros)
qed (use emits_frame [OF writes_dispatch] in blast)

end
