(* ===== verification/Replay.thy ===== *)
theory Replay
  imports Log Liveness
begin

text \<open>
  What can be read off the event log alone. A chronicle is a reader of events that ends, on the log
  of any contract, in the very records the contract stores. \<^verbatim>\<open>docs/MIGRATION.md\<close> relies on this:
  members check a migration against their own replay of the events.
\<close>

section \<open>Chronicles\<close>

definition told :: "(dao \<Rightarrow> 'v) \<Rightarrow> (event \<Rightarrow> 'v \<Rightarrow> 'v) \<Rightarrow> dao \<Rightarrow> dao \<Rightarrow> bool" where
  "told view jot s t \<longleftrightarrow> (\<exists>es. events t = events s @ es \<and> view t = fold jot es (view s))"

lemma toldI: "events t = events s @ es \<Longrightarrow> view t = fold jot es (view s) \<Longrightarrow> told view jot s t"
  by (auto simp: told_def)

lemma told_one: "events t = events s @ [e] \<Longrightarrow> view t = jot e (view s) \<Longrightarrow> told view jot s t"
  by (rule toldI [of _ _ "[e]"]) simp_all

lemma told_trans: "told view jot s t \<Longrightarrow> told view jot t u \<Longrightarrow> told view jot s u"
  by (fastforce simp: told_def)

lemma told_silent:
  assumes "logs E s t" and "\<And>e v. e \<in> E \<Longrightarrow> jot e v = v" and "view t = view s"
  shows "told view jot s t"
proof -
  from assms(1) obtain es where es: "events t = events s @ es" "set es \<subseteq> E" by (auto simp: logs_def)
  have "fold jot es v = v" for v using es(2) assms(2) by (induction es) auto
  from this [of "view s"] es(1) assms(3) show ?thesis by (intro toldI [of t s es]) simp_all
qed

locale chronicle =
  fixes view :: "dao \<Rightarrow> 'v" and jot :: "event \<Rightarrow> 'v \<Rightarrow> 'v" and start :: 'v
    and D :: "field set" and allowed :: "call \<Rightarrow> bool"
  assumes reads_only: "\<forall>f \<in> D. same f s t \<Longrightarrow> view t = view s"
    and no_ledger: "FLedger \<notin> D"
    and blank: "view (fresh_dao l) = start"
    and unrelated: "allowed c \<Longrightarrow> footprint c \<inter> D = {} \<Longrightarrow> announces c e \<Longrightarrow> jot e v = v"
    and related: "reachable allowed s \<Longrightarrow> allowed c \<Longrightarrow> footprint c \<inter> D \<noteq> {} \<Longrightarrow>
      dispatch env c s = Ok r t \<Longrightarrow> told view jot s t"
begin

lemma call_told:
  assumes "reachable allowed s" and "allowed c" and "dispatch env c s = Ok r t"
  shows "told view jot s t"
proof (cases "footprint c \<inter> D = {}")
  case True
  have "agree (footprint c) s t" by (rule writes_Ok [OF writes_dispatch assms(3)])
  with True have "view t = view s" by (intro reads_only) (auto dest: agreeD)
  moreover have "jot e v = v" if "e \<in> Collect (announces c)" for e v
    using that unrelated [OF assms(2) True] by simp
  ultimately show ?thesis by (intro told_silent [OF emits_Ok [OF emits_dispatch assms(3)]])
qed (use related assms in blast)

lemma invoke_told: "reachable allowed s \<Longrightarrow> allowed c \<Longrightarrow> told view jot s (snd (invoke env c s))"
  by (cases rule: invoke_cases [of env c s]) (auto simp: told_def dest: call_told)

lemma outside_told: "told view jot s (s\<lparr>ledger := l\<rparr>)"
proof -
  have "view (s\<lparr>ledger := l\<rparr>) = view s"
    using no_ledger by (intro reads_only) (metis same_ledger)
  then show ?thesis by (simp add: told_def)
qed

lemma replay: "reachable allowed s \<Longrightarrow> view s = fold jot (events s) start"
proof (induction rule: reachable.induct)
  case (call s c env)
  with invoke_told [OF call.hyps, of env] show ?case by (auto simp: told_def)
next
  case (outside s l)
  with outside_told [of s l] show ?case by (auto simp: told_def)
qed (simp add: blank)

lemma replay_since:
  "reachable allowed s \<Longrightarrow> \<forall>ec \<in> set ecs. allowed (snd ec) \<Longrightarrow> told view jot s (run_calls ecs s)"
proof (induction ecs arbitrary: s)
  case (Cons ec ecs)
  have "reachable allowed (snd (invoke (fst ec) (snd ec) s))"
    using Cons.prems by (auto intro: reachable.call)
  with Cons invoke_told [of s "snd ec" "fst ec"] show ?case by (auto intro: told_trans)
qed (simp add: told_def)

end

section \<open>Governance\<close>

record governance =
  g_admins :: "address list"
  g_threshold :: "u32 option"
  g_fee :: "i128 option"
  g_base :: "address option"
  g_paused :: bool
  g_pauser :: "address option"
  g_pending :: "address \<rightharpoonup> u64"
  g_listed :: "address \<rightharpoonup> bool"

definition governance_of :: "dao \<Rightarrow> governance" where
  "governance_of s =
     \<lparr>g_admins = unwrap_or (kAdmins s) [], g_threshold = kThreshold s, g_fee = kMembershipFee s,
      g_base = kToken s, g_paused = is_paused s, g_pauser = kPauser s,
      g_pending = kPendingTokenAddition s, g_listed = kTokenWhitelisted s\<rparr>"

definition jot_governance :: "event \<Rightarrow> governance \<Rightarrow> governance" where
  "jot_governance e g =
     (case e of
        Ev_init admins threshold fee token \<Rightarrow>
          g\<lparr>g_admins := admins, g_threshold := Some threshold, g_fee := Some fee, g_base := Some token,
            g_paused := False\<rparr>
      | Ev_admin_add a \<Rightarrow> g\<lparr>g_admins := g_admins g @ [a]\<rparr>
      | Ev_admin_rem a \<Rightarrow> g\<lparr>g_admins := remove1 a (g_admins g)\<rparr>
      | Ev_pset a \<Rightarrow> g\<lparr>g_pauser := Some a\<rparr>
      | Ev_prev _ \<Rightarrow> g\<lparr>g_pauser := None\<rparr>
      | Ev_threshold _ n \<Rightarrow> g\<lparr>g_threshold := Some n\<rparr>
      | Ev_paused _ \<Rightarrow> g\<lparr>g_paused := True\<rparr>
      | Ev_unpaused _ \<Rightarrow> g\<lparr>g_paused := False\<rparr>
      | Ev_tok_prop _ token ripe \<Rightarrow> g\<lparr>g_pending := (g_pending g)(token \<mapsto> ripe)\<rparr>
      | Ev_tok_add _ token \<Rightarrow> g\<lparr>g_pending := (g_pending g)(token := None), g_listed := (g_listed g)(token \<mapsto> True)\<rparr>
      | Ev_tok_rem _ token \<Rightarrow> g\<lparr>g_listed := (g_listed g)(token := None)\<rparr>
      | _ \<Rightarrow> g)"

definition no_governance :: governance where
  "no_governance =
     \<lparr>g_admins = [], g_threshold = None, g_fee = None, g_base = None, g_paused = False,
      g_pauser = None, g_pending = Map.empty, g_listed = Map.empty\<rparr>"

abbreviation (input) governance_keys :: "field set" where
  "governance_keys \<equiv> {FAdmins, FThreshold, FMembershipFee, FToken, FPaused, FPauser, FPendingTokenAddition, FTokenWhitelisted}"

lemma verdict_cases:
  "loan_verdict e \<Longrightarrow> (\<exists>i n. e = Ev_loan_wait i n) \<or> (\<exists>i a b. e = Ev_loan_rej i a b) \<or> (\<exists>i b n d a. e = Ev_loan_appr i b n d a)"
  "treasury_verdict e \<Longrightarrow> (\<exists>i n. e = Ev_tre_wait i n) \<or> (\<exists>i a b. e = Ev_tre_rej i a b) \<or> (\<exists>i n a. e = Ev_tre_exec i n a)"
  by (cases e; simp add: loan_verdict_def treasury_verdict_def)+

interpretation gov: chronicle governance_of jot_governance no_governance governance_keys any_call
proof unfold_locales
  show "governance_of t = governance_of s" if "\<forall>f \<in> governance_keys. same f s t" for s t
    using that by (simp add: governance_of_def accessor_defs)
  show "governance_of (fresh_dao l) = no_governance" for l
    by (simp add: governance_of_def no_governance_def accessor_defs)
  show "jot_governance e v = v" if "footprint c \<inter> governance_keys = {}" "announces c e" for c e v
    using that by (cases c) (auto simp: jot_governance_def dest!: verdict_cases)
  fix s c env r t
  assume "footprint c \<inter> governance_keys \<noteq> {}" "dispatch env c s = Ok r t"
  then show "told governance_of jot_governance s t"
    by (cases c)
      (auto simp: ok_simps speaking_defs accessor_defs governance_of_def jot_governance_def
        set_token_whitelisted_def Let_def unwrap_or_def remove_at_first_index intro!: told_one split: option.splits)
qed simp_all


section \<open>Ballots\<close>

record ballot_sheet =
  loan_voters :: "(u32 \<times> address) set"
  treasury_voters :: "(u32 \<times> address) set"
  sealed_votes :: "(u32 \<times> address) set"

definition ballots_of :: "dao \<Rightarrow> ballot_sheet" where
  "ballots_of s =
     \<lparr>loan_voters = dom (kLoanVoted s), treasury_voters = dom (kTreasuryVoted s), sealed_votes = dom (kCommit s)\<rparr>"

definition jot_ballot :: "event \<Rightarrow> ballot_sheet \<Rightarrow> ballot_sheet" where
  "jot_ballot e b =
     (case e of
        Ev_loan_vote i v _ \<Rightarrow> b\<lparr>loan_voters := insert (i, v) (loan_voters b)\<rparr>
      | Ev_tre_vote i v _ \<Rightarrow> b\<lparr>treasury_voters := insert (i, v) (treasury_voters b)\<rparr>
      | Ev_committed i v \<Rightarrow> b\<lparr>sealed_votes := insert (i, v) (sealed_votes b)\<rparr>
      | Ev_revealed i v _ \<Rightarrow> b\<lparr>sealed_votes := sealed_votes b - {(i, v)}\<rparr>
      | _ \<Rightarrow> b)"

definition no_ballots :: ballot_sheet where
  "no_ballots = \<lparr>loan_voters = {}, treasury_voters = {}, sealed_votes = {}\<rparr>"

abbreviation (input) ballot_keys :: "field set" where
  "ballot_keys \<equiv> {FLoanVoted, FTreasuryVoted, FCommit}"

lemma ballots_reads: "\<forall>f \<in> ballot_keys. same f s t \<Longrightarrow> ballots_of t = ballots_of s"
  by (simp add: ballots_of_def)

lemma told_for_each:
  assumes "\<And>x s t. x \<in> set xs \<Longrightarrow> good s \<Longrightarrow> body x s = Ok () t \<Longrightarrow> told view jot s t \<and> good t"
  shows "good s \<Longrightarrow> for_each xs body s = Ok () t \<Longrightarrow> told view jot s t \<and> good t"
  using assms
proof (induction xs arbitrary: s)
  case (Cons x xs)
  then obtain u where u: "body x s = Ok () u" "for_each xs body u = Ok () t" by (auto simp: ok_simps)
  with Cons.prems have one: "told view jot s u" "good u" by auto
  have "told view jot u t \<and> good t"
    by (rule Cons.IH [OF one(2) u(2)]) (rule Cons.prems(3), simp_all)
  with one show ?case by (auto intro: told_trans)
qed (auto simp: ok_simps told_def)

text \<open>A ballot in its three parts: the vote is cast, the tally concluded, the proposal stored.\<close>

lemma loan_vote_parts:
  assumes "vote_on_loan_proposal_internal env v i b s = Ok u t"
  shows "\<exists>p p1 q n r s1 s2. kLoanProposal s i = Some p \<and>
    cast_loan_vote env v i b (refreshed env p) s = Ok p1 s1 \<and>
    conclude_loan_vote env n r p1 s1 = Ok q s2 \<and> set_loan_proposal env q s2 = Ok () t"
  using assms by (clarsimp simp: vote_on_loan_proposal_internal_def ok_simps) blast

lemma tally_parts:
  assumes "tally env p v b s = Ok u t"
  shows "\<exists>p1 q n r s1 s2. cast_treasury_vote v b p s = Ok p1 s1 \<and>
    conclude_treasury_vote env n r p1 s1 = Ok q s2 \<and> set_treasury_proposal env q s2 = Ok () t"
  using assms by (clarsimp simp: tally_def ok_simps) blast

lemma cast_events:
  "cast_loan_vote env v i b p s = Ok q t \<Longrightarrow>
     events t = events s @ [Ev_loan_vote i v b] \<and> kLoanVoted t = (kLoanVoted s)((i, v) \<mapsto> True)"
  "cast_treasury_vote v b w s = Ok x t \<Longrightarrow>
     events t = events s @ [Ev_tre_vote (t_id w) v b] \<and> kTreasuryVoted t = (kTreasuryVoted s)((t_id w, v) \<mapsto> True)"
  by (cases b; auto simp: cast_loan_vote_def cast_treasury_vote_def ok_simps accessor_defs)+


lemma told_reading:
  assumes "writes F m" and "emits E m" and "m s = Ok x t"
    and "\<And>e v. e \<in> E \<Longrightarrow> jot e v = v" and "agree F s t \<Longrightarrow> view t = view s"
  shows "told view jot s t"
proof (rule told_silent [OF emits_Ok [OF assms(2,3)]])
  show "view t = view s" using assms(5) writes_Ok [OF assms(1,3)] .
qed (rule assms(4))

lemma loan_vote_told:
  assumes "vote_on_loan_proposal_internal env v i b s = Ok u t"
  shows "told ballots_of jot_ballot s t"
proof -
  from loan_vote_parts [OF assms] obtain p p1 q n r s1 s2 where
    cast: "cast_loan_vote env v i b (refreshed env p) s = Ok p1 s1"
    and con: "conclude_loan_vote env n r p1 s1 = Ok q s2" and set: "set_loan_proposal env q s2 = Ok () t" by blast
  have "told ballots_of jot_ballot s s1"
    using cast_events(1) [OF cast] ok_cast_loan_vote(3) [OF cast]
    by (intro told_one [where e = "Ev_loan_vote i v b"]) (simp_all add: ballots_of_def jot_ballot_def agree_def all_fields)
  moreover have "told ballots_of jot_ballot s1 s2"
    by (rule told_reading [where F = "- ballot_keys" and E = "Collect loan_verdict" and m = "conclude_loan_vote env n r p1", OF _ _ con])
      (auto intro!: writes_intros emits_intros ballots_reads dest!: verdict_cases dest: agreeD simp: jot_ballot_def)
  moreover have "told ballots_of jot_ballot s2 t"
    by (rule told_reading [where F = "- insert FEvents ballot_keys" and E = "{}" and m = "set_loan_proposal env q", OF _ _ set])
      (auto intro!: writes_intros emits_nothing ballots_reads dest: agreeD)
  ultimately show ?thesis by (blast intro: told_trans)
qed

lemma tally_told:
  assumes "tally env p v b s = Ok u t"
  shows "told ballots_of jot_ballot s t"
proof -
  from tally_parts [OF assms] obtain p1 q n r s1 s2 where
    cast: "cast_treasury_vote v b p s = Ok p1 s1"
    and con: "conclude_treasury_vote env n r p1 s1 = Ok q s2" and set: "set_treasury_proposal env q s2 = Ok () t" by blast
  have "told ballots_of jot_ballot s s1"
    using cast_events(2) [OF cast] ok_cast_treasury_vote(4) [OF cast]
    by (intro told_one [where e = "Ev_tre_vote (t_id p) v b"]) (simp_all add: ballots_of_def jot_ballot_def agree_def all_fields)
  moreover have "told ballots_of jot_ballot s1 s2"
    by (rule told_reading [where F = "- ballot_keys" and E = "Collect treasury_verdict" and m = "conclude_treasury_vote env n r p1", OF _ _ con])
      (auto simp: conclude_treasury_vote_def treasury_verdict_def jot_ballot_def
        intro!: writes_intros emits_intros ballots_reads intro: emits_nothing dest!: verdict_cases dest: agreeD split: event.splits)
  moreover have "told ballots_of jot_ballot s2 t"
    by (rule told_reading [where F = "- insert FEvents ballot_keys" and E = "{}" and m = "set_treasury_proposal env q", OF _ _ set])
      (auto intro!: writes_intros emits_nothing ballots_reads dest: agreeD)
  ultimately show ?thesis by (blast intro: told_trans)
qed

lemma reveal_told:
  assumes "reveal_vote env v i b salt s = Ok u t"
  shows "told ballots_of jot_ballot s t"
proof -
  from assms obtain p s0 where
    s0: "s0 = s\<lparr>kCommit := (kCommit s)((i, v) := None), events := events s @ [Ev_revealed i v b]\<rparr>" and
    run: "tally env p v b s0 = Ok () t"
    by (auto simp: reveal_vote_def ok_simps get_commit_def remove_commit_def)
  have "told ballots_of jot_ballot s s0"
    by (rule told_one [where e = "Ev_revealed i v b"]) (simp_all add: s0 ballots_of_def jot_ballot_def)
  from told_trans [OF this tally_told [OF run]] show ?thesis .
qed

interpretation sheet: chronicle ballots_of jot_ballot no_ballots ballot_keys any_call
proof unfold_locales
  show "ballots_of t = ballots_of s" if "\<forall>f \<in> ballot_keys. same f s t" for s t
    using that by (rule ballots_reads)
  show "ballots_of (fresh_dao l) = no_ballots" for l by (simp add: ballots_of_def no_ballots_def)
  show "jot_ballot e v = v" if "footprint c \<inter> ballot_keys = {}" "announces c e" for c e v
    using that by (cases c) (auto simp: jot_ballot_def dest!: verdict_cases)
  fix s c env r t
  assume "footprint c \<inter> ballot_keys \<noteq> {}" "dispatch env c s = Ok r t"
  then show "told ballots_of jot_ballot s t"
  proof (cases c)
    case (VoteBatch voter votes)
    with \<open>dispatch env c s = Ok r t\<close> obtain u where
      "for_each votes (\<lambda>v. vote_on_loan_proposal_internal env voter (pv_proposal_id v) (pv_vote v)) s = Ok () t"
      by (auto simp: ok_simps vote_batch_def)
    from told_for_each [where good = "\<lambda>s. True", OF _ _ this] loan_vote_told show ?thesis by blast
  next
    case (CommitTreasuryVote voter i h)
    with \<open>dispatch env c s = Ok r t\<close> show ?thesis
      by (auto simp: ok_simps commit_vote_def accessor_defs ballots_of_def jot_ballot_def
          intro!: told_one [where e = "Ev_committed i voter"])
  qed (auto simp: ok_simps vote_on_loan_proposal_def treasury_vote_def dest: loan_vote_told tally_told reveal_told)
qed simp_all


section \<open>The registry of members\<close>

text \<open>Names, delegations, stakes, the joining order of the members and who of them is active.\<close>

record registry =
  r_roll :: "address list"
  r_active :: "address set"
  r_names :: "string \<rightharpoonup> address"
  r_owners :: "address \<rightharpoonup> string"
  r_delegates :: "address \<rightharpoonup> address"
  r_stakes :: "address \<Rightarrow> i128"

definition registry_of :: "dao \<Rightarrow> registry" where
  "registry_of s =
     \<lparr>r_roll = get_members s, r_active = active_in (kMember s), r_names = kName s, r_owners = kNameOf s,
      r_delegates = kDelegation s, r_stakes = (\<lambda>a. get_stake a s)\<rparr>"

definition jot_registry :: "event \<Rightarrow> registry \<Rightarrow> registry" where
  "jot_registry e g =
     (case e of
        Ev_joined who _ \<Rightarrow>
          g\<lparr>r_roll := (if who \<in> set (r_roll g) then r_roll g else r_roll g @ [who]),
            r_active := insert who (r_active g)\<rparr>
      | Ev_exited who _ _ \<Rightarrow> g\<lparr>r_active := r_active g - {who}, r_stakes := (r_stakes g)(who := 0)\<rparr>
      | Ev_name_reg name who \<Rightarrow> g\<lparr>r_names := (r_names g)(name \<mapsto> who), r_owners := (r_owners g)(who \<mapsto> name)\<rparr>
      | Ev_name_rel name who \<Rightarrow> g\<lparr>r_names := (r_names g)(name := None), r_owners := (r_owners g)(who := None)\<rparr>
      | Ev_delegate a b \<Rightarrow> g\<lparr>r_delegates := (r_delegates g)(a \<mapsto> b)\<rparr>
      | Ev_staked who _ held _ \<Rightarrow> g\<lparr>r_stakes := (r_stakes g)(who := held)\<rparr>
      | Ev_unstaked who _ held _ \<Rightarrow> g\<lparr>r_stakes := (r_stakes g)(who := held)\<rparr>
      | _ \<Rightarrow> g)"

definition no_registry :: registry where
  "no_registry =
     \<lparr>r_roll = [], r_active = {}, r_names = Map.empty, r_owners = Map.empty, r_delegates = Map.empty,
      r_stakes = (\<lambda>_. 0)\<rparr>"

text \<open>Seeding publishes nothing, so the log says nothing about seeded records.\<close>

definition announced :: "call \<Rightarrow> bool" where
  "announced c \<longleftrightarrow>
     (case c of SeedMembers _ _ \<Rightarrow> False | SeedStakes _ _ \<Rightarrow> False | SeedNames _ _ \<Rightarrow> False | _ \<Rightarrow> True)"

abbreviation (input) registry_keys :: "field set" where
  "registry_keys \<equiv> {FMembers, FMember, FName, FNameOf, FDelegation, FStake}"

lemma registry_reads: "\<forall>f \<in> registry_keys. same f s t \<Longrightarrow> registry_of t = registry_of s"
  by (simp add: registry_of_def accessor_defs)

lemma announced_any: "reachable announced s \<Longrightarrow> reachable any_call s"
  by (erule reachable_mono) simp

lemma register_event:
  "register_member env who s = Ok u t \<Longrightarrow> kMembershipFee s = Some fee \<Longrightarrow> events t = events s @ [Ev_joined who fee]"
  by (cases "kMember s who")
    (auto simp: register_member_def ok_simps accessor_defs loan_counters_def Let_def)

lemma exit_events:
  assumes "exit_dao env who s = Ok u t" and "kMember s who = Some m"
  shows "events t = events s @ drop_event who (kNameOf s) @ [Ev_exited who (exit_share env m s) (unclaimed_yield who s)]"
  using assms(1) by (clarsimp simp: exit_dao_def ok_simps is_initialized_def assms(2) accessor_defs)

lemma register_told:
  assumes "members_ok s" and "register_member env who s = Ok u t"
  shows "told registry_of jot_registry s t"
proof -
  from ok_register_member [OF assms(2)] obtain fee where j: "joins env who fee s t" by blast
  have ag: "agree {FMember, FMemberYieldSnapshot, FMembers, FTotalMembers, FActiveMembers, FActiveContributions, FLedger, FEvents} s t"
    by (rule writes_Ok [where m = "register_member env who", OF _ assms(2)]) (auto intro!: writes_intros)
  have "active_in (kMember t) = insert who (active_in (kMember s))"
    using j by (simp add: joins_def active_in_upd new_member_def)
  moreover have "kMember s who = None \<longleftrightarrow> who \<notin> set (get_members s)"
    using assms(1) by (auto simp: members_ok_def book_ok_def)
  ultimately have "registry_of t = jot_registry (Ev_joined who fee) (registry_of s)"
    using j ag by (simp add: registry_of_def jot_registry_def joins_def agree_def all_fields accessor_defs fun_eq_iff)
  moreover have "events t = events s @ [Ev_joined who fee]"
    using register_event [OF assms(2)] j by (simp add: joins_def)
  ultimately show ?thesis by (intro told_one)
qed

lemma exit_told:
  assumes "members_ok s" and "stakes_ok s" and "exit_dao env who s = Ok u t"
  shows "told registry_of jot_registry s t"
proof -
  from ok_exit_dao [OF assms(3)] obtain m where l: "leaves env who m s t" by blast
  then have m: "kMember s who = Some m" by (simp add: leaves_def)
  let ?es = "drop_event who (kNameOf s) @ [Ev_exited who (exit_share env m s) (unclaimed_yield who s)]"
  have ag: "agree {FStake, FTotalStaked, FMemberYieldSnapshot, FName, FNameOf, FMember, FActiveMembers, FActiveContributions, FLedger, FEvents} s t"
    by (rule writes_Ok [where m = "exit_dao env who", OF _ assms(3)]) (auto intro!: writes_intros)
  have "m_address m = who" using assms(1) m by (simp add: members_ok_def book_ok_def)
  then have "active_in (kMember t) = active_in (kMember s) - {who}"
    using l by (simp add: leaves_def active_in_upd departed_def)
  moreover have "get_stake a t = (if a = who then 0 else get_stake a s)" for a
    using l stake_book_le [of "kStake s" "get_total_staked s" who] assms(2)
    by (auto simp: leaves_def zero_stake_def get_stake_def stakes_ok_def)
  ultimately have "registry_of t = fold jot_registry ?es (registry_of s)"
    using l ag by (cases "kNameOf s who")
      (auto simp: registry_of_def jot_registry_def leaves_def agree_def all_fields drop_event_def drop_name_def
        accessor_defs fun_eq_iff)
  with exit_events [OF assms(3) m] show ?thesis by (intro toldI)
qed

lemma register_name_told:
  assumes "register_name env who nm s = Ok u t"
  shows "told registry_of jot_registry s t"
proof -
  have ag: "agree {FName, FNameOf, FEvents} s t"
    by (rule writes_Ok [where m = "register_name env who nm", OF _ assms]) (auto intro!: writes_intros)
  let ?es = "(if kNameOf s who = Some nm then [] else drop_event who (kNameOf s)) @ [Ev_name_reg nm who]"
  have "events t = events s @ ?es"
    using assms by (cases "kNameOf s who")
      (auto simp: register_name_def ok_simps accessor_defs drop_event_def split: option.splits)
  moreover have "(\<lambda>a. get_stake a t) = (\<lambda>a. get_stake a s)" using ag by (simp add: agree_def all_fields accessor_defs)
  then have "registry_of t = fold jot_registry ?es (registry_of s)"
    using ok_register_name [OF assms] ag by (cases "kNameOf s who")
      (simp_all add: registry_of_def jot_registry_def agree_def all_fields drop_event_def drop_name_def accessor_defs)
  ultimately show ?thesis by (rule toldI)
qed


text \<open>The calls that rewrite member records without changing who is active.\<close>

definition active_are :: "address set \<Rightarrow> dao \<Rightarrow> bool" where
  "active_are A s \<longleftrightarrow> members_ok s \<and> active_in (kMember s) = A"

lemma active_are_depends: "depends (insert FMember member_keys) (active_are A)"
  using members_ok_depends by (auto simp: depends_def active_are_def)

lemma active_are_outside: "writes (- insert FMember member_keys) m \<Longrightarrow> keeps (active_are A) m"
  by (rule keeps_frame [OF _ active_are_depends]) auto

lemma active_in_same:
  "mm a = Some x \<Longrightarrow> m_status m = m_status x \<Longrightarrow> active_in (mm(a \<mapsto> m)) = active_in mm"
  by (auto simp: active_in_upd) (auto simp: active_in_def)


lemma approve_keeps_active: "keeps (active_are A) (approve_and_disburse env p)"
proof (rule keepsI)
  fix s u t assume ok: "active_are A s" "approve_and_disburse env p s = Ok u t"
  then have m: "members_ok s" "members_ok t"
    using keepsD_Ok [OF approve_keeps_members] by (auto simp: active_are_def)
  from ok_approve [OF ok(2)] obtain policy terms b l where d: "disburses env p policy terms b l s t" by blast
  then have "kMember s (m_address b) = Some b"
    using m(1) by (auto simp: disburses_def Let_def members_ok_def book_ok_def)
  with d have "active_in (kMember t) = active_in (kMember s)"
    by (auto simp: disburses_def Let_def indebted_def intro!: active_in_same)
  with ok(1) m(2) show "active_are A t" by (simp add: active_are_def)
next
  fix s e t assume a: "active_are A s" "approve_and_disburse env p s = Err e t"
  then have "members_ok t" using keepsD_Err [OF approve_keeps_members] by (auto simp: active_are_def)
  with a show "active_are A t" by (auto dest!: err_approve simp: active_are_def)
qed

lemma ballots_keep_active:
  "keeps (active_are A) (vote_on_loan_proposal env who i b)"
  "keeps (active_are A) (vote_batch env who votes)"
  "keeps (active_are A) (disburse_approved_loan env i)"
  by (rule keeps_ballot; auto intro!: approve_keeps_active active_are_outside writes_intros)+

lemma ballots_same_active:
  assumes "members_ok s"
  shows "vote_on_loan_proposal env who i b s = Ok u t \<Longrightarrow> active_in (kMember t) = active_in (kMember s)"
    and "vote_batch env who votes s = Ok u t \<Longrightarrow> active_in (kMember t) = active_in (kMember s)"
    and "disburse_approved_loan env i s = Ok u t \<Longrightarrow> active_in (kMember t) = active_in (kMember s)"
proof -
  have now: "active_are (active_in (kMember s)) s" using assms by (simp add: active_are_def)
  note after = ballots_keep_active [THEN keepsD_Ok, OF _ now]
  show "vote_on_loan_proposal env who i b s = Ok u t \<Longrightarrow> active_in (kMember t) = active_in (kMember s)"
    "vote_batch env who votes s = Ok u t \<Longrightarrow> active_in (kMember t) = active_in (kMember s)"
    "disburse_approved_loan env i s = Ok u t \<Longrightarrow> active_in (kMember t) = active_in (kMember s)"
    using after unfolding active_are_def by blast+
qed

lemma repay_keeps_active:
  assumes "members_ok s" and "repay_loan_internal env who i amount s = Ok u t"
  shows "active_in (kMember t) = active_in (kMember s)"
proof -
  from ok_repay_internal [OF assms(2)] obtain closed where "kMember t = relieve who closed (kMember s)"
    by (auto simp: repays_def Let_def)
  then show ?thesis
    using assms(1) by (auto simp: relieve_def relieved_def members_ok_def book_ok_def split: option.splits
        intro!: active_in_same)
qed

lemma default_keeps_active:
  assumes "members_ok s" and "mark_loan_defaulted env i s = Ok u t"
  shows "active_in (kMember t) = active_in (kMember s)"
proof -
  from ok_mark_loan_defaulted [OF assms(2)] obtain policy who where "defaults policy who s t" by blast
  then show ?thesis
    using assms(1) by (cases "kMember s who")
      (auto simp: defaults_def Let_def slashed_def members_ok_def book_ok_def intro!: active_in_same)
qed

text \<open>A call of the lending side only rewrites member records, and tells the registry nothing.\<close>

lemma lending_told:
  assumes "dispatch env c s = Ok r t" and "footprint c \<inter> registry_keys = {FMember}"
    and "active_in (kMember t) = active_in (kMember s)"
    and "\<And>e v. announces c e \<Longrightarrow> jot_registry e v = v"
  shows "told registry_of jot_registry s t"
proof (rule told_silent [OF emits_Ok [OF emits_dispatch assms(1)]])
  have "same f s t" if "f \<in> registry_keys" "f \<noteq> FMember" for f
    using writes_Ok [OF writes_dispatch assms(1)] that assms(2) by (blast intro: agreeD)
  from this [of FMembers] this [of FName] this [of FNameOf] this [of FDelegation] this [of FStake] assms(3)
  show "registry_of t = registry_of s" by (simp add: registry_of_def accessor_defs)
qed (use assms(4) in simp)

interpretation rolls: chronicle registry_of jot_registry no_registry registry_keys announced
proof unfold_locales
  show "registry_of t = registry_of s" if "\<forall>f \<in> registry_keys. same f s t" for s t
    using that by (rule registry_reads)
  show "registry_of (fresh_dao l) = no_registry" for l
    by (simp add: registry_of_def no_registry_def accessor_defs active_in_def)
  show "jot_registry e v = v" if "footprint c \<inter> registry_keys = {}" "announces c e" for c e v
    using that by (cases c) (auto simp: jot_registry_def dest!: verdict_cases)
  fix s c env r t
  assume c: "reachable announced s" "announced c" "footprint c \<inter> registry_keys \<noteq> {}" "dispatch env c s = Ok r t"
  have m: "members_ok s" by (rule members.reachable_holds [OF announced_any [OF c(1)]])
  have "reachable sane_stakes s"
    using c(1) by (rule reachable_mono) (simp add: announced_def sane_stakes_def split: call.splits)
  then have st: "stakes_ok s" by (rule stakes.reachable_holds)
  have lends: "active_in (kMember t) = active_in (kMember s)" if "footprint c \<inter> registry_keys = {FMember}"
    using that c(2,4) m
    by (cases c) (auto simp: ok_simps announced_def repay_loan_def repay_loan_partial_def repay_loan_in_asset_def
      dest: repay_keeps_active default_keeps_active ballots_same_active)
  show "told registry_of jot_registry s t"
  proof (cases "footprint c \<inter> registry_keys = {FMember}")
    case True
    have "jot_registry e v = v" if "announces c e" for e v
      using that True c(2) by (cases c) (auto simp: jot_registry_def announced_def dest!: verdict_cases)
    from lending_told [OF c(4) True lends [OF True] this] show ?thesis .
  next
    case False
    with c m st show ?thesis
    proof (cases c)
      case (Initialize admins threshold fee token policy)
      with c(4) m show ?thesis
        by (auto simp: ok_simps speaking_defs accessor_defs is_initialized_def members_ok_def registry_of_def
            jot_registry_def fun_eq_iff intro!: told_one)
    next
      case (DelegateVote a b)
      with c(4) show ?thesis
        by (auto simp: ok_simps delegate_vote_def accessor_defs registry_of_def jot_registry_def intro!: told_one)
    next
      case (Stake who n)
      with c(4) show ?thesis
        by (auto simp: ok_simps stake_def accessor_defs registry_of_def jot_registry_def fun_eq_iff intro!: told_one)
    next
      case (Unstake who n)
      with c(4) show ?thesis
        by (auto simp: ok_simps unstake_def reject_if_any_def accessor_defs registry_of_def jot_registry_def fun_eq_iff intro!: told_one)
    qed (auto simp: ok_simps announced_def dest: register_told exit_told register_name_told)
  qed
qed simp_all

section \<open>Properties\<close>

text \<open>
  C20: The event log replays the governance of the contract: in every reachable state the admins in
  order, the consensus threshold, the membership fee, the base token, the pause flag, the pauser,
  the pending token additions and the accepted tokens are those a reader of the events arrives at.
  An observer of the log needs no view of the contract to know who governs it and by which rules.
\<close>

theorem log_replays_governance:
  assumes "reachable any_call s"
  shows "governance_of s = fold jot_governance (events s) no_governance"
  using assms by (rule gov.replay)

theorem log_replays_governance_witness:
  "fold jot_governance (events adopted) no_governance =
     \<lparr>g_admins = [boss], g_threshold = Some 5100, g_fee = Some 1000, g_base = Some usdc, g_paused = False,
      g_pauser = None, g_pending = Map.empty, g_listed = [euro \<mapsto> True]\<rparr>"
proof -
  have "reachable any_call adopted"
    unfolding adopted_def nominated_def by (intro reachable.call reachable_peopled) simp_all
  from log_replays_governance [OF this] show ?thesis
    by (simp add: adopted_eq peopled_eq founded_eq governance_of_def accessor_defs)
qed

text \<open>
  C19: The event log replays the ballots: in every reachable state the accounts marked as voters on
  loan proposals and on withdrawals, and the sealed ballots not yet opened, are those a reader of
  the events arrives at. Every ballot that counted was published, and every published ballot counted,
  through the direct vote, the batch, the seal and the reveal alike.
\<close>

theorem log_replays_ballots:
  assumes "reachable any_call s"
  shows "ballots_of s = fold jot_ballot (events s) no_ballots"
  using assms by (rule sheet.replay)

theorem log_replays_ballots_witness:
  "fold jot_ballot (events lent) no_ballots =
     \<lparr>loan_voters = {(0, bob), (0, carol)}, treasury_voters = {}, sealed_votes = {}\<rparr>"
proof -
  have "ballots_of lent = \<lparr>loan_voters = {(0, bob), (0, carol)}, treasury_voters = {}, sealed_votes = {}\<rparr>"
    by (auto simp: lent_eq backed_eq asked_eq peopled_eq founded_eq ballots_of_def)
  with log_replays_ballots [OF reachable_lent_any] show ?thesis by simp
qed

text \<open>
  C18: The event log replays the registry of members, unless members, stakes or names were seeded by
  a migration, which publishes nothing: the members in joining order, who of them is active, the
  names in both directions, the delegations and every stake are those a reader of the events arrives
  at. \<^verbatim>\<open>docs/MIGRATION.md\<close> tells members to check a migration against this replay, and a call that
  changes loans, proposals or the treasury cannot make it differ.
\<close>

theorem log_replays_the_registry:
  assumes "reachable announced s"
  shows "registry_of s = fold jot_registry (events s) no_registry"
  using assms by (rule rolls.replay)

theorem log_replays_the_registry_witness:
  "fold jot_registry (events named) no_registry =
     \<lparr>r_roll = [alice, bob, carol], r_active = {alice, bob, carol}, r_names = [''alice'' \<mapsto> alice],
      r_owners = [alice \<mapsto> ''alice''], r_delegates = Map.empty, r_stakes = (\<lambda>_. 0)\<rparr>"
proof -
  have "reachable announced named"
    unfolding named_def by (intro reachable.call reachable_peopled) (simp_all add: announced_def)
  from log_replays_the_registry [OF this] have "fold jot_registry (events named) no_registry = registry_of named" ..
  also have "active_in (kMember named) = {alice, bob, carol}"
    by (auto simp: named_eq peopled_eq active_in_def joiner_def split: if_splits)
  then have "registry_of named = \<lparr>r_roll = [alice, bob, carol], r_active = {alice, bob, carol},
      r_names = [''alice'' \<mapsto> alice], r_owners = [alice \<mapsto> ''alice''], r_delegates = Map.empty, r_stakes = (\<lambda>_. 0)\<rparr>"
    by (simp add: named_eq peopled_eq founded_eq registry_of_def accessor_defs fun_eq_iff)
  finally show ?thesis .
qed

end
