(* ===== verification/CashBook.thy ===== *)
theory CashBook
  imports Replay
begin

text \<open>
  The books of the treasury: what the contract holds of any token is what the event log says came
  in and went out, together with what the stored loans have collected. Partial repayments publish
  only the balance that remains, so their amounts are read off the loans.
\<close>

section \<open>The book\<close>

record book =
  b_base :: "address option"
  b_assets :: "u32 \<rightharpoonup> address"
  b_cash :: "address \<Rightarrow> i128"

text \<open>An amount booked on a token, and the asset a withdrawal is paid in.\<close>

definition booked :: "address \<Rightarrow> i128 \<Rightarrow> book \<Rightarrow> book" where
  "booked token n b = b\<lparr>b_cash := (b_cash b)(token := b_cash b token + n)\<rparr>"

definition base_in :: "book \<Rightarrow> address" where
  "base_in b = the (b_base b)"

definition asset_in :: "u32 \<Rightarrow> book \<Rightarrow> address" where
  "asset_in i b = (case b_assets b i of Some a \<Rightarrow> a | None \<Rightarrow> base_in b)"

definition jot_book :: "event \<Rightarrow> book \<Rightarrow> book" where
  "jot_book e b =
     (case e of
        Ev_init _ _ _ token \<Rightarrow> b\<lparr>b_base := Some token\<rparr>
      | Ev_joined _ fee \<Rightarrow> booked (base_in b) fee b
      | Ev_exited who share pending \<Rightarrow>
          booked (base_in b) (- max 0 (share + pending)) b
      | Ev_claimed _ n _ \<Rightarrow> booked (base_in b) (- n) b
      | Ev_loan_appr _ _ n _ asset \<Rightarrow> booked asset (- n) b
      | Ev_tre_asset i asset \<Rightarrow> b\<lparr>b_assets := (b_assets b)(i \<mapsto> asset)\<rparr>
      | Ev_tre_exec i n _ \<Rightarrow> booked (asset_in i b) (- n) b
      | _ \<Rightarrow> b)"

lemma jot_book_simps:
  "jot_book (Ev_init admins n fee token) b = b\<lparr>b_base := Some token\<rparr>"
  "jot_book (Ev_joined who fee) b = booked (base_in b) fee b"
  "jot_book (Ev_exited who share pending) b = booked (base_in b) (- max 0 (share + pending)) b"
  "jot_book (Ev_claimed who x r) b = booked (base_in b) (- x) b"
  "jot_book (Ev_loan_appr i who x due asset) b = booked asset (- x) b"
  "jot_book (Ev_tre_asset i asset) b = b\<lparr>b_assets := (b_assets b)(i \<mapsto> asset)\<rparr>"
  "jot_book (Ev_tre_exec i x who) b = booked (asset_in i b) (- x) b"
  "jot_book (Ev_name_rel name who) b = b"
  by (simp_all add: jot_book_def)

definition opening_book :: "address \<Rightarrow> ledger \<Rightarrow> book" where
  "opening_book self l =
     \<lparr>b_base = None, b_assets = Map.empty, b_cash = (\<lambda>token. l token self)\<rparr>"

text \<open>What the loans in a token have collected, and the book as the storage has it.\<close>

definition receipt :: "dao \<Rightarrow> address \<Rightarrow> u32 \<Rightarrow> loan \<Rightarrow> i128" where
  "receipt s token i l = (if asset_of (kLoanAsset s) i s = token then l_amount_repaid l else 0)"

definition takings :: "address \<Rightarrow> dao \<Rightarrow> i128" where
  "takings token s = total_of (\<lambda>i. map_option (receipt s token i) (kLoan s i))"

definition book_of :: "address \<Rightarrow> dao \<Rightarrow> book" where
  "book_of self s =
     \<lparr>b_base = kToken s, b_assets = kTreasuryAsset s,
      b_cash = (\<lambda>token. ledger s token self - takings token s)\<rparr>"

abbreviation (input) loan_book_keys :: "field set" where
  "loan_book_keys \<equiv> {FToken, FLoan, FLoanAsset}"

abbreviation (input) record_keys :: "field set" where
  "record_keys \<equiv> {FToken, FLoan, FLoanAsset, FTreasuryAsset}"

abbreviation (input) book_keys :: "field set" where
  "book_keys \<equiv> {FToken, FLoan, FLoanAsset, FTreasuryAsset, FLedger}"

lemma receipt_frame: "kLoanAsset t = kLoanAsset s \<Longrightarrow> kToken t = kToken s \<Longrightarrow> receipt t = receipt s"
  by (simp add: receipt_def asset_of_def fun_eq_iff cong: option.case_cong)

lemma agree_on: "agree F s t \<Longrightarrow> F \<inter> K = {} \<Longrightarrow> \<forall>f \<in> K. same f s t"
  by (blast dest: agreeD)

lemma takings_reads: "\<forall>f \<in> loan_book_keys. same f s t \<Longrightarrow> takings token t = takings token s"
  using receipt_frame [of t s] by (simp add: takings_def)

lemma book_reads: "\<forall>f \<in> book_keys. same f s t \<Longrightarrow> book_of self t = book_of self s"
  using takings_reads [of s t] by (simp add: book_of_def accessor_defs)

lemma takings_upd:
  assumes "finite (dom (kLoan s))" and "kLoan t = (kLoan s)(i \<mapsto> l)"
    and "kLoanAsset t = kLoanAsset s" and "kToken t = kToken s"
  shows "takings token t =
    takings token s - (case kLoan s i of None \<Rightarrow> 0 | Some k \<Rightarrow> receipt s token i k) + receipt s token i l"
proof -
  let ?f = "\<lambda>i. map_option (receipt s token i) (kLoan s i)"
  have "(\<lambda>j. map_option (receipt t token j) (kLoan t j)) = ?f(i \<mapsto> receipt s token i l)"
    using assms(2) receipt_frame [OF assms(3,4)] by auto
  moreover have "dom ?f = dom (kLoan s)" by (auto simp: dom_def)
  then have "finite (dom ?f)" using assms(1) by simp
  ultimately show ?thesis
    unfolding takings_def using total_of_upd [of ?f i] by (simp add: unwrap_or_def split: option.split)
qed

section \<open>Honest surroundings\<close>

text \<open>
  The contract runs under its own address, calls nobody in its own name, and the tokens obey the
  laws of a transfer.
\<close>

definition fair_host :: "address \<Rightarrow> env \<Rightarrow> bool" where
  "fair_host self env \<longleftrightarrow> env_self env = self \<and> \<not> env_auth env self \<and> token_contract (env_transfer env)"

text \<open>
  The books are kept where every change of a member or a loan is published and nobody stakes:
  \<^verbatim>\<open>stake()\<close> and \<^verbatim>\<open>unstake()\<close> are meant to move tokens, and do not.
\<close>

definition recorded :: "call \<Rightarrow> bool" where
  "recorded c \<longleftrightarrow>
     announced c \<and> unseeded c \<and> (case c of Stake _ _ \<Rightarrow> False | Unstake _ _ \<Rightarrow> False | _ \<Rightarrow> True)"

text \<open>
  The states of an audited contract: it is deployed, called under fair hosts, and in between others
  use the tokens as they like. What they sent to the contract (or took from it), less what it had
  before, is added up in \<open>d\<close>.
\<close>

inductive audited :: "address \<Rightarrow> ledger \<Rightarrow> (address \<Rightarrow> i128) \<Rightarrow> dao \<Rightarrow> bool" for self l where
  opened: "audited self l (\<lambda>token. 0) (fresh_dao l)"
| run: "audited self l d s \<Longrightarrow> fair_host self env \<Longrightarrow> recorded c \<Longrightarrow> audited self l d (snd (invoke env c s))"
| others: "audited self l d s \<Longrightarrow>
    audited self l (\<lambda>token. d token + (l' token self - ledger s token self)) (s\<lparr>ledger := l'\<rparr>)"

lemma self_sends:
  assumes "fair_host self env" and "env_transfer env token self b n l = Some l'" and "b \<noteq> self"
  shows "(\<lambda>k. l' k self) = (\<lambda>k. l k self)(token := l token self - n)"
  using token_contract.exact [of "env_transfer env", OF _ assms(2)] assms(1,3)
  by (auto simp: fun_eq_iff fair_host_def)

lemma self_receives:
  assumes "fair_host self env" and "env_transfer env token a self n l = Some l'" and "a \<noteq> self"
  shows "(\<lambda>k. l' k self) = (\<lambda>k. l k self)(token := l token self + n)"
  using token_contract.exact [of "env_transfer env", OF _ assms(2)] assms(1,3)
  by (auto simp: fun_eq_iff fair_host_def)

text \<open>A payment out of the treasury, and one into it, on the book.\<close>

lemma book_pays:
  assumes "fair_host self env" and "env_transfer env token self b n (ledger s) = Some (ledger t)" and "b \<noteq> self"
    and "\<forall>f \<in> record_keys. same f s t"
  shows "book_of self t = booked token (- n) (book_of self s)"
proof -
  have "takings k t = takings k s" for k using assms(4) by (intro takings_reads) auto
  with self_sends [OF assms(1-3)] assms(4) show ?thesis
    by (simp add: book_of_def booked_def accessor_defs fun_eq_iff)
qed

lemma book_receives:
  assumes "fair_host self env" and "env_transfer env token a self n (ledger s) = Some (ledger t)" and "a \<noteq> self"
    and "\<forall>f \<in> record_keys. same f s t"
  shows "book_of self t = booked token n (book_of self s)"
proof -
  have "takings k t = takings k s" for k using assms(4) by (intro takings_reads) auto
  with self_receives [OF assms(1-3)] assms(4) show ?thesis
    by (simp add: book_of_def booked_def accessor_defs fun_eq_iff)
qed

abbreviation (input) books :: "address \<Rightarrow> dao \<Rightarrow> dao \<Rightarrow> bool" where
  "books self \<equiv> told (book_of self) jot_book"

section \<open>Members\<close>

text \<open>Without a call that stakes, no account has a stake.\<close>

definition unstaked :: "dao \<Rightarrow> bool" where
  "unstaked s \<longleftrightarrow> (\<forall>a. get_stake a s = 0)"

interpretation unstaked: invariant unstaked "{FStake}" recorded
proof unfold_locales
  show "depends {FStake} unstaked" by (rule dependsI) (simp add: unstaked_def get_stake_def)
  show "FLedger \<notin> {FStake}" by simp
  show "unstaked (fresh_dao l)" for l by (simp add: unstaked_def get_stake_def fresh_dao_def)
  show "unstaked t" if "recorded c" "footprint c \<inter> {FStake} \<noteq> {}" "dispatch env c s = Ok r t" "unstaked s" for c env s r t
  proof (cases c)
    case (ExitDao who)
    with that obtain m where "leaves env who m s t" by (auto simp: ok_simps dest: ok_exit_dao)
    with that(4) show ?thesis by (auto simp: leaves_def unstaked_def get_stake_def zero_stake_def)
  qed (use that in \<open>auto simp: recorded_def announced_def\<close>)
qed

lemma join_booked:
  assumes "fair_host self env" and "register_member env who s = Ok u t"
  shows "books self s t"
proof -
  from ok_register_member [OF assms(2)] obtain fee where j: "joins env who fee s t" by blast
  have "env_auth env who" using assms(2) by (auto simp: register_member_def ok_simps)
  then have other: "who \<noteq> self" "env_self env = self" using assms(1) by (auto simp: fair_host_def)
  have ag: "agree {FMember, FMemberYieldSnapshot, FMembers, FTotalMembers, FActiveMembers, FActiveContributions, FLedger, FEvents} s t"
    by (rule writes_Ok [where m = "register_member env who", OF _ assms(2)]) (auto intro!: writes_intros)
  have "book_of self t = booked (the (kToken s)) fee (book_of self s)"
    using j other by (intro book_receives [OF assms(1), of _ who] agree_on [OF ag]) (simp_all add: joins_def)
  moreover have "events t = events s @ [Ev_joined who fee]"
    using register_event [OF assms(2)] j by (simp add: joins_def)
  ultimately show ?thesis by (intro told_one [where e = "Ev_joined who fee"]) (simp_all add: jot_book_simps base_in_def book_of_def)
qed

lemma claim_booked:
  assumes "fair_host self env" and "claim_rewards env who s = Ok u t"
  shows "books self s t"
proof -
  from assms(2) obtain n r where
    auth: "env_auth env who" and
    pay: "env_transfer env (the (kToken s)) (env_self env) who n (ledger s) = Some (ledger t)" and
    ev: "events t = events s @ [Ev_claimed who n r]"
    by (auto simp: claim_rewards_def ok_simps accessor_defs)
  have ag: "agree {FMemberYieldSnapshot, FLedger, FEvents} s t"
    by (rule writes_Ok [where m = "claim_rewards env who", OF _ assms(2)]) (auto intro!: writes_intros)
  have "who \<noteq> self" "env_self env = self" using assms(1) auth by (auto simp: fair_host_def)
  with pay have "book_of self t = booked (the (kToken s)) (- n) (book_of self s)"
    by (intro book_pays [OF assms(1), of _ who] agree_on [OF ag]) simp_all
  with ev show ?thesis by (intro told_one [where e = "Ev_claimed who n r"]) (simp_all add: jot_book_simps base_in_def book_of_def)
qed

lemma exit_booked:
  assumes "fair_host self env" and "unstaked s" and "exit_dao env who s = Ok u t"
  shows "books self s t"
proof -
  from ok_exit_dao [OF assms(3)] obtain m where l: "leaves env who m s t" by blast
  then have m: "kMember s who = Some m" and auth: "env_auth env who" by (simp_all add: leaves_def)
  have other: "who \<noteq> self" "env_self env = self" using assms(1) auth by (auto simp: fair_host_def)
  let ?n = "payout_of env who m s" and ?base = "the (kToken s)"
  let ?es = "drop_event who (kNameOf s) @ [Ev_exited who (exit_share env m s) (unclaimed_yield who s)]"
  have ag: "agree {FStake, FTotalStaked, FMemberYieldSnapshot, FName, FNameOf, FMember, FActiveMembers, FActiveContributions, FLedger, FEvents} s t"
    by (rule writes_Ok [where m = "exit_dao env who", OF _ assms(3)]) (auto intro!: writes_intros)
  have "(\<lambda>k. ledger t k self) = (\<lambda>k. ledger s k self)(?base := ledger s ?base self - max 0 ?n)"
    using l self_sends [OF assms(1), of ?base who ?n "ledger s" "ledger t"] other
    by (auto simp: leaves_def paid_out_def fun_eq_iff split: if_splits)
  moreover have "takings k t = takings k s" for k by (intro takings_reads agree_on [OF ag]) simp
  moreover have "kToken t = kToken s" "kTreasuryAsset t = kTreasuryAsset s"
    using ag by (simp_all add: agree_def all_fields)
  moreover have "?n = exit_share env m s + unclaimed_yield who s" using assms(2) by (simp add: payout_of_def unstaked_def)
  ultimately have "book_of self t = jot_book (Ev_exited who (exit_share env m s) (unclaimed_yield who s)) (book_of self s)"
    by (simp add: book_of_def jot_book_simps booked_def base_in_def fun_eq_iff)
  then have "book_of self t = fold jot_book ?es (book_of self s)"
    by (simp add: drop_event_def jot_book_simps split: option.split)
  with exit_events [OF assms(3) m] show ?thesis by (intro toldI)
qed

section \<open>Withdrawals\<close>

lemma publish_booked:
  assumes "publish e s = Ok u t" and "\<And>b. jot_book e b = b"
  shows "books self s t"
proof -
  have t: "t = s\<lparr>events := events s @ [e]\<rparr>" using assms(1) by (simp add: ok_simps)
  have "book_of self t = book_of self s" by (rule book_reads) (simp add: t)
  then show ?thesis using assms(2) by (intro told_one [where e = e]) (simp_all add: t)
qed

lemma asset_booked: "asset_in i (book_of self s) = asset_of (kTreasuryAsset s) i s"
  by (simp add: asset_in_def asset_of_def base_in_def book_of_def split: option.split)

lemma execute_booked:
  assumes "fair_host self env" and "t_destination p \<noteq> self" and "treasury_execute env p s = Ok q t"
  shows "books self s t"
proof -
  let ?asset = "asset_of (kTreasuryAsset s) (t_id p) s" and ?e = "Ev_tre_exec (t_id p) (t_amount p) (t_destination p)"
  have "env_self env = self" using assms(1) by (simp add: fair_host_def)
  with ok_treasury_execute(3) [OF assms(3)] have
    pay: "env_transfer env ?asset self (t_destination p) (t_amount p) (ledger s) = Some (ledger t)"
    by (simp add: pays_def Let_def)
  have ag: "agree {FTreasuryProposal, FOpenProposals, FLedger, FEvents} s t"
    by (rule writes_Ok [where m = "treasury_execute env p", OF _ assms(3)]) (auto intro!: writes_intros)
  have "book_of self t = booked ?asset (- t_amount p) (book_of self s)"
    by (intro book_pays [OF assms(1) pay assms(2)] agree_on [OF ag]) simp
  moreover have "events t = events s @ [?e]"
    using assms(3) by (auto simp: treasury_execute_def ok_simps Let_def dest!: ok_set_treasury_proposal agreeD)
  ultimately show ?thesis
    by (intro told_one [where e = ?e]) (simp_all add: jot_book_simps asset_booked)
qed

lemma conclude_cases:
  assumes "conclude_treasury_vote env n r p s = Ok q t"
  shows "treasury_execute env (p\<lparr>t_status := ApprovedPendingDisbursement\<rparr>) s = Ok q t \<or>
    agree {FEvents} s t \<and> (events t = events s \<or> events t = events s @ [Ev_tre_wait (t_id p) (t_amount p)] \<or>
      events t = events s @ [Ev_tre_rej (t_id p) (t_for_votes p) (t_against_votes p)])"
  using assms
  by (auto simp: conclude_treasury_vote_def try_treasury_execute_def ok_simps agree_def all_fields
      split: if_splits outcome.splits dest!: err_treasury_execute)

lemma conclude_booked:
  assumes "fair_host self env" and "t_destination p \<noteq> self" and "conclude_treasury_vote env n r p s = Ok q t"
  shows "books self s t"
  using conclude_cases [OF assms(3)]
proof
  assume "treasury_execute env (p\<lparr>t_status := ApprovedPendingDisbursement\<rparr>) s = Ok q t"
  from execute_booked [OF assms(1) _ this] assms(2) show ?thesis by simp
next
  assume quiet: "agree {FEvents} s t \<and> (events t = events s \<or> events t = events s @ [Ev_tre_wait (t_id p) (t_amount p)] \<or>
      events t = events s @ [Ev_tre_rej (t_id p) (t_for_votes p) (t_against_votes p)])"
  then have "book_of self t = book_of self s" by (intro book_reads agree_on) auto
  moreover have "jot_book (Ev_tre_wait (t_id p) (t_amount p)) b = b"
    "jot_book (Ev_tre_rej (t_id p) (t_for_votes p) (t_against_votes p)) b = b" for b
    by (simp_all add: jot_book_def)
  ultimately show ?thesis using quiet by (auto intro: told_one toldI [where es = "[]"])
qed

lemma frame_booked:
  assumes "agree F s t" and "F \<inter> book_keys = {}" and "events t = events s @ es" and "\<And>e b. e \<in> set es \<Longrightarrow> jot_book e b = b"
  shows "books self s t"
proof -
  have "book_of self t = book_of self s" by (intro book_reads agree_on [OF assms(1,2)])
  moreover have "fold jot_book es b = b" for b using assms(4) by (induction es) auto
  ultimately show ?thesis using assms(3) by (intro toldI [where es = es]) simp_all
qed

lemma store_booked:
  assumes "set_treasury_proposal env q s = Ok u t"
  shows "books self s t"
  by (rule frame_booked [where F = "{FTreasuryProposal, FOpenProposals}" and es = "[]"])
    (use ok_set_treasury_proposal [OF assms] in \<open>auto simp: agree_def all_fields\<close>)

lemma tally_booked:
  assumes "fair_host self env" and "t_destination p \<noteq> self" and "tally env p v b s = Ok u t"
  shows "books self s t"
proof -
  from tally_parts [OF assms(3)] obtain p1 q n r s1 s2 where
    cast: "cast_treasury_vote v b p s = Ok p1 s1"
    and con: "conclude_treasury_vote env n r p1 s1 = Ok q s2" and set: "set_treasury_proposal env q s2 = Ok () t" by blast
  have "books self s s1"
    by (rule frame_booked [where F = "{FTreasuryVoted, FEvents}" and es = "[Ev_tre_vote (t_id p) v b]"])
      (use ok_cast_treasury_vote(4) [OF cast] cast_events(2) [OF cast] in \<open>simp_all add: jot_book_def\<close>)
  moreover have "t_destination p1 \<noteq> self"
    using ok_cast_treasury_vote(1) [OF cast] assms(2) by (simp add: withdraws_def)
  from conclude_booked [OF assms(1) this con] have "books self s1 s2" .
  ultimately show ?thesis using store_booked [OF set] by (blast intro: told_trans)
qed

lemma reveal_booked:
  assumes "fair_host self env" and "reveal_vote env v i b salt s = Ok u t"
    and "\<And>p. kTreasuryProposal s i = Some p \<Longrightarrow> t_destination p \<noteq> self"
  shows "books self s t"
proof -
  from assms(2) obtain p s0 where p: "kTreasuryProposal s i = Some p" and
    s0: "s0 = s\<lparr>kCommit := (kCommit s)((i, v) := None), events := events s @ [Ev_revealed i v b]\<rparr>" and
    run: "tally env p v b s0 = Ok () t"
    by (auto simp: reveal_vote_def ok_simps get_commit_def remove_commit_def)
  have "books self s s0"
    by (rule frame_booked [where F = "{FCommit, FEvents}" and es = "[Ev_revealed i v b]"])
      (simp_all add: s0 jot_book_def agree_def all_fields)
  from told_trans [OF this tally_booked [OF assms(1) assms(3) [OF p] run]] show ?thesis .
qed

lemma execute_approved_booked:
  assumes "fair_host self env" and "execute_approved env i s = Ok u t"
    and "\<And>p. kTreasuryProposal s i = Some p \<Longrightarrow> t_destination p \<noteq> self"
  shows "books self s t"
proof -
  from assms(2) obtain p q s1 where p: "kTreasuryProposal s i = Some p" and
    run: "treasury_execute env p s = Ok q s1" and set: "set_treasury_proposal env q s1 = Ok () t"
    by (auto simp: execute_approved_def ok_simps)
  from told_trans [OF execute_booked [OF assms(1) assms(3) [OF p] run] store_booked [OF set]] show ?thesis .
qed

lemma propose_booked:
  assumes "propose_withdrawal_in_asset env who amount asset dest why hidden s = Ok i t"
  shows "books self s t"
proof -
  let ?listing = "Ev_tre_prop i amount dest hidden"
  have logged: "kTreasuryAsset t = kTreasuryAsset s \<and> events t = events s @ [?listing] \<or>
    kTreasuryAsset t = (kTreasuryAsset s)(i \<mapsto> asset) \<and> events t = events s @ [Ev_tre_asset i asset, ?listing]"
    using assms
    by (cases "kToken s = Some asset")
      (auto simp: propose_withdrawal_in_asset_def ok_simps accessor_defs set_counter_def get_proposal_count_def split: if_splits)
  have ag: "agree {FTreasuryProposal, FOpenProposals, FNextTreasuryId, FTreasuryAsset, FEvents} s t"
    by (rule writes_Ok [where m = "propose_withdrawal_in_asset env who amount asset dest why hidden", OF _ assms])
      (auto intro!: writes_intros)
  have same: "\<forall>f \<in> {FToken, FLoan, FLoanAsset, FLedger}. same f s t" by (rule agree_on [OF ag]) simp
  have "takings k t = takings k s" for k using same by (intro takings_reads) simp
  with same have "book_of self t = (book_of self s)\<lparr>b_assets := kTreasuryAsset t\<rparr>"
    by (simp add: book_of_def)
  moreover have "jot_book ?listing b = b" for b by (simp add: jot_book_def)
  ultimately show ?thesis
    using logged by (elim disjE) (auto simp: jot_book_simps book_of_def
      intro: told_one [where e = ?listing] toldI [where es = "[Ev_tre_asset i asset, ?listing]"])
qed

section \<open>Loans\<close>

lemma finite_loans: "loans_ok s \<Longrightarrow> finite (dom (kLoan s))"
proof (rule finite_subset [of _ "{0..<get_proposal_count NextProposalId s}"])
  assume "loans_ok s"
  then show "dom (kLoan s) \<subseteq> {0..<get_proposal_count NextProposalId s}"
    by (fastforce simp: loans_ok_def proposals_ok_def approved_in_def)
qed simp

lemma approve_booked:
  assumes "fair_host self env" and "approve_and_disburse env p s = Ok u t"
    and "finite (dom (kLoan s))" and "kLoan s (p_id p) = None" and "p_borrower p \<noteq> self"
  shows "books self s t"
proof -
  let ?asset = "asset_of (kLoanAsset s) (p_id p) s"
  from ok_approve [OF assms(2)] obtain policy terms b l where d: "disburses env p policy terms b l s t" by blast
  have "env_self env = self" using assms(1) by (simp add: fair_host_def)
  with d have pay: "env_transfer env ?asset self (p_borrower p) (p_amount p) (ledger s) = Some (ledger t)"
    by (auto simp: disburses_def Let_def)
  have loan: "kLoan t = (kLoan s)(p_id p \<mapsto> disbursed_loan env p terms)" using d by (auto simp: disburses_def Let_def)
  have same: "kLoanAsset t = kLoanAsset s" "kToken t = kToken s" "kTreasuryAsset t = kTreasuryAsset s"
    using d by (auto simp: disburses_def Let_def)
  have "takings k t = takings k s" for k
    using takings_upd [OF assms(3) loan same(1,2), of k] assms(4) by (simp add: receipt_def disbursed_loan_def)
  then have "book_of self t = booked ?asset (- p_amount p) (book_of self s)"
    using self_sends [OF assms(1) pay assms(5)] same by (simp add: book_of_def booked_def fun_eq_iff)
  moreover have "events t = events s @ [Ev_loan_appr (p_id p) (p_borrower p) (p_amount p) (env_now env + lt_duration terms) ?asset]"
    using d by (auto simp: disburses_def Let_def)
  ultimately show ?thesis
    by (intro told_one [where e = "Ev_loan_appr (p_id p) (p_borrower p) (p_amount p) (env_now env + lt_duration terms) ?asset"])
      (simp_all add: jot_book_simps)
qed

lemma loan_store_booked:
  assumes "set_loan_proposal env q s = Ok u t"
  shows "books self s t"
  by (rule frame_booked [where F = "{FLoanProposal, FOpenProposals}" and es = "[]"])
    (use ok_set_loan_proposal [OF assms] in \<open>auto simp: agree_def all_fields\<close>)

lemma conclude_loan_cases:
  assumes "conclude_loan_vote env n r p s = Ok q t"
  shows "(\<exists>s1 s2. set_loan_proposal env (p\<lparr>p_status := ApprovedPendingDisbursement, p_phase := PhExecuted\<rparr>) s = Ok () s1 \<and>
      (approve_and_disburse env (p\<lparr>p_status := ApprovedPendingDisbursement, p_phase := PhExecuted\<rparr>) s1 = Ok () t \<or>
       (\<exists>e. approve_and_disburse env (p\<lparr>p_status := ApprovedPendingDisbursement, p_phase := PhExecuted\<rparr>) s1 = Err e s2) \<and>
       publish (Ev_loan_wait (p_id p) (p_amount p)) s2 = Ok () t)) \<or>
    agree {FEvents} s t \<and> (events t = events s \<or> events t = events s @ [Ev_loan_rej (p_id p) (p_for_votes p) (p_against_votes p)])"
proof (cases "p_for_votes p \<ge> r \<and> p_status p = Pending")
  case True
  with assms show ?thesis
    by (auto simp: conclude_loan_vote_def Let_def ok_and_then ok_seq ok_ret ok_is_ok split: if_splits)
next
  case False
  with assms show ?thesis
    by (auto simp: conclude_loan_vote_def ok_simps agree_def all_fields split: if_splits)
qed

lemma conclude_loan_booked:
  assumes "fair_host self env" and "conclude_loan_vote env n r p s = Ok q t"
    and "finite (dom (kLoan s))" and "kLoan s (p_id p) = None" and "p_borrower p \<noteq> self" and "kMember s (p_borrower p) \<noteq> None"
  shows "books self s t"
  using conclude_loan_cases [OF assms(2)]
proof (elim disjE exE)
  fix s1 s2
  let ?p = "p\<lparr>p_status := ApprovedPendingDisbursement, p_phase := PhExecuted\<rparr>"
  assume run: "set_loan_proposal env ?p s = Ok () s1 \<and>
      (approve_and_disburse env ?p s1 = Ok () t \<or>
       (\<exists>e. approve_and_disburse env ?p s1 = Err e s2) \<and> publish (Ev_loan_wait (p_id p) (p_amount p)) s2 = Ok () t)"
  then have s1: "kLoan s1 = kLoan s" "kMember s1 = kMember s" "books self s s1"
    using ok_set_loan_proposal [of env ?p s "()" s1] loan_store_booked by (auto simp: agree_def all_fields)
  have "books self s1 t"
    using run approve_booked [OF assms(1), of ?p s1 "()" t] publish_booked [of _ s1 "()" t self]
      err_approve [of env ?p s1 _ s2] s1 assms(3-)
    by (auto simp: jot_book_def)
  with s1(3) show ?thesis by (rule told_trans)
next
  assume quiet: "agree {FEvents} s t \<and> (events t = events s \<or>
    events t = events s @ [Ev_loan_rej (p_id p) (p_for_votes p) (p_against_votes p)])"
  then have "book_of self t = book_of self s" by (intro book_reads agree_on) auto
  moreover have "jot_book (Ev_loan_rej (p_id p) (p_for_votes p) (p_against_votes p)) b = b" for b
    by (simp add: jot_book_def)
  ultimately show ?thesis using quiet by (auto intro: told_one toldI [where es = "[]"])
qed

text \<open>The states a ballot starts from: a sound loan book, and the contract is nobody's member.\<close>

definition outsider :: "address \<Rightarrow> dao \<Rightarrow> bool" where
  "outsider a s \<longleftrightarrow> members_ok s \<and> kMember s a = None"

definition lends_to_others :: "address \<Rightarrow> dao \<Rightarrow> bool" where
  "lends_to_others self s \<longleftrightarrow> loans_ok s \<and> outsider self s"

lemma outsider_depends: "depends (insert FMember member_keys) (outsider a)"
  using members_ok_depends by (auto simp: depends_def outsider_def)

lemma outsider_outside: "writes (- insert FMember member_keys) m \<Longrightarrow> keeps (outsider a) m"
  by (rule keeps_frame [OF _ outsider_depends]) auto

lemma approve_keeps_outsider: "keeps (outsider a) (approve_and_disburse env p)"
proof (rule keepsI)
  fix s u t assume ok: "outsider a s" "approve_and_disburse env p s = Ok u t"
  then have m: "members_ok s" "members_ok t" using keepsD_Ok [OF approve_keeps_members] by (auto simp: outsider_def)
  from ok_approve [OF ok(2)] obtain policy terms b l where d: "disburses env p policy terms b l s t" by blast
  then have "kMember s (m_address b) = Some b" using m(1) by (auto simp: disburses_def Let_def members_ok_def book_ok_def)
  then have "m_address b \<noteq> a" using ok(1) by (auto simp: outsider_def)
  moreover have "kMember t = (kMember s)(m_address b \<mapsto> indebted (env_now env) b)"
    using d by (auto simp: disburses_def Let_def)
  ultimately show "outsider a t" using ok(1) m(2) by (simp add: outsider_def)
next
  fix s e t assume ok: "outsider a s" "approve_and_disburse env p s = Err e t"
  then have "members_ok t" using keepsD_Err [OF approve_keeps_members] by (auto simp: outsider_def)
  moreover have "kMember t = kMember s" using err_approve [OF ok(2)] by auto
  ultimately show "outsider a t" using ok(1) by (simp add: outsider_def)
qed

lemma ballot_booked:
  assumes "fair_host self env" and "lends_to_others self s" and "vote_on_loan_proposal_internal env v i b s = Ok u t"
  shows "books self s t"
proof -
  from loan_vote_parts [OF assms(3)] obtain p p1 q n r s1 s2 where p: "kLoanProposal s i = Some p"
    and cast: "cast_loan_vote env v i b (refreshed env p) s = Ok p1 s1"
    and con: "conclude_loan_vote env n r p1 s1 = Ok q s2" and set: "set_loan_proposal env q s2 = Ok () t" by blast
  have "p_phase (refreshed env p) = Voting"
    using ok_loan_vote [OF assms(3)] p by (auto simp: ballots_def)
  moreover have facts: "p_id p = i" "stage_of p \<in> loan_stages" "kMember s (p_borrower p) \<noteq> None"
    using p assms(2) by (auto simp: lends_to_others_def loans_ok_def proposals_ok_def known_def)
  ultimately have "stage_of (refreshed env p) = (Voting, Pending)" by (intro refreshed_stage)
  then have "p_status p \<noteq> Approved" using refreshed_approved [of env p] by (auto simp: stage_of_def)
  then have "\<not> approved_in (kLoanProposal s) i" using p by (simp add: approved_in_def)
  then have none: "kLoan s i = None"
    using assms(2) by (auto simp: lends_to_others_def loans_ok_def)
  have p1: "p_id p1 = i" "p_borrower p1 = p_borrower p"
    using same_but_votes_keeps [OF ok_cast_loan_vote(1) [OF cast]] facts(1) by (simp_all add: refreshed_def Let_def)
  have s1: "kLoan s1 = kLoan s" "kMember s1 = kMember s"
    using ok_cast_loan_vote(3) [OF cast] by (simp_all add: agree_def all_fields)
  have "p_borrower p \<noteq> self" using facts(3) assms(2) by (auto simp: lends_to_others_def outsider_def)
  then have "books self s1 s2"
    using finite_loans none facts(3) p1 s1 assms(2)
    by (intro conclude_loan_booked [OF assms(1) con]) (simp_all add: lends_to_others_def)
  moreover have "books self s s1"
    by (rule frame_booked [where F = "{FLoanVoted, FEvents}" and es = "[Ev_loan_vote i v b]"])
      (use ok_cast_loan_vote(3) [OF cast] cast_events(1) [OF cast] in \<open>simp_all add: jot_book_def\<close>)
  ultimately show ?thesis using loan_store_booked [OF set] by (blast intro: told_trans)
qed

lemma ballot_lends:
  assumes "lends_to_others self s" and "vote_on_loan_proposal_internal env v i b s = Ok u t"
  shows "lends_to_others self t"
proof -
  have "keeps (outsider self) (vote_on_loan_proposal_internal env v i b)"
    by (rule keeps_ballot; auto intro!: approve_keeps_outsider outsider_outside writes_intros)
  with assms vote_matures show ?thesis by (auto simp: lends_to_others_def matures_def dest: keepsD_Ok)
qed

lemma batch_booked:
  assumes "fair_host self env" and "lends_to_others self s" and "vote_batch env who votes s = Ok u t"
  shows "books self s t"
proof -
  from assms(3) have run: "for_each votes (\<lambda>v. vote_on_loan_proposal_internal env who (pv_proposal_id v) (pv_vote v)) s = Ok () t"
    by (auto simp: ok_simps vote_batch_def)
  have "books self s t \<and> lends_to_others self t"
    by (rule told_for_each [where good = "lends_to_others self", OF _ assms(2) run])
      (auto intro: ballot_booked [OF assms(1)] ballot_lends)
  then show ?thesis ..
qed

lemma disburse_booked:
  assumes "fair_host self env" and "lends_to_others self s" and "disburse_approved_loan env i s = Ok u t"
  shows "books self s t"
proof -
  from assms(3) obtain p s1 where p: "kLoanProposal s i = Some p" "p_status p = ApprovedPendingDisbursement"
    and run: "approve_and_disburse env p s = Ok () s1" and set: "set_loan_proposal env (p\<lparr>p_status := Approved\<rparr>) s1 = Ok () t"
    by (auto simp: disburse_approved_loan_def ok_simps)
  have "p_id p = i" "kMember s (p_borrower p) \<noteq> None"
    using p assms(2) by (auto simp: lends_to_others_def loans_ok_def proposals_ok_def known_def)
  moreover have "\<not> approved_in (kLoanProposal s) i" using p by (simp add: approved_in_def)
  ultimately have "kLoan s (p_id p) = None" "p_borrower p \<noteq> self" "finite (dom (kLoan s))"
    using assms(2) finite_loans by (auto simp: lends_to_others_def outsider_def loans_ok_def)
  then have "books self s s1" by (intro approve_booked [OF assms(1) run])
  from told_trans [OF this loan_store_booked [OF set]] show ?thesis .
qed

text \<open>A repayment moves the cash and the takings alike; a default and a request touch neither.\<close>

lemma repay_books_nothing:
  assumes "fair_host self env" and "loans_ok s" and "repay_loan_internal env who i amount s = Ok u t"
  shows "book_of self t = book_of self s"
proof -
  from ok_repay_internal [OF assms(3)] obtain l paid where rep: "repays env who i amount l paid s t" by blast
  let ?asset = "asset_of (kLoanAsset s) i s"
  have "env_auth env who" using assms(3) by (auto simp: repay_loan_internal_def ok_simps)
  then have other: "who \<noteq> self" "env_self env = self" using assms(1) by (auto simp: fair_host_def)
  have l: "kLoan s i = Some l" using rep by (simp add: repays_def Let_def)
  then have "l_id l = i" using assms(2) by (auto simp: loans_ok_def approved_in_def)
  then have loan: "kLoan t = (kLoan s)(i \<mapsto> after_payment (settled env s l) paid)"
    and pay: "env_transfer env ?asset who self paid (ledger s) = Some (ledger t)"
    using rep unfolding repays_def Let_def other by auto
  have ag: "agree {FLoan, FMember, FYieldAccumulator, FYieldRemainder, FLedger, FEvents} s t"
    by (rule writes_Ok [where m = "repay_loan_internal env who i amount", OF _ assms(3)]) (auto intro!: writes_intros)
  have same: "\<forall>f \<in> {FLoanAsset, FToken, FTreasuryAsset}. same f s t" by (rule agree_on [OF ag]) simp
  have "l_amount_repaid (after_payment (settled env s l) paid) = l_amount_repaid l + paid"
    by (simp add: after_payment_def settled_def)
  then have "takings k t = takings k s + (if k = ?asset then paid else 0)" for k
    using takings_upd [OF finite_loans [OF assms(2)] loan, of k] same l by (auto simp: receipt_def)
  with self_receives [OF assms(1) pay other(1)] same show ?thesis
    by (simp add: book_of_def fun_eq_iff)
qed

lemma default_books_nothing:
  assumes "loans_ok s" and "mark_loan_defaulted env i s = Ok u t"
  shows "book_of self t = book_of self s"
proof -
  from ok_mark_loan_defaulted [OF assms(2)] obtain l where l: "kLoan s i = Some l"
    "kLoan t = (kLoan s)(l_id l \<mapsto> l\<lparr>l_status := Defaulted\<rparr>)" by blast
  then have "l_id l = i" using assms(1) by (auto simp: loans_ok_def approved_in_def)
  with l have loan: "kLoan t = (kLoan s)(i \<mapsto> l\<lparr>l_status := Defaulted\<rparr>)" by simp
  have ag: "agree {FLoan, FMember, FMemberYieldSnapshot, FActiveContributions, FEvents} s t"
    by (rule writes_Ok [where m = "mark_loan_defaulted env i", OF _ assms(2)]) (auto intro!: writes_intros)
  have same: "\<forall>f \<in> {FLoanAsset, FToken, FTreasuryAsset, FLedger}. same f s t" by (rule agree_on [OF ag]) simp
  have "takings k t = takings k s" for k
    using takings_upd [OF finite_loans [OF assms(1)] loan, of k] same l(1) by (auto simp: receipt_def)
  with same show ?thesis by (simp add: book_of_def)
qed

lemma request_books_nothing:
  assumes "loans_ok s" and "request_loan_in_asset env who amount asset cid s = Ok i t"
  shows "book_of self t = book_of self s"
proof -
  have ag: "agree {FLoanProposal, FOpenProposals, FNextProposalId, FLoanAsset, FEvents} s t"
    by (rule writes_Ok [where m = "request_loan_in_asset env who amount asset cid", OF _ assms(2)]) (auto intro!: writes_intros)
  have same: "\<forall>f \<in> {FLoan, FToken, FTreasuryAsset, FLedger}. same f s t" by (rule agree_on [OF ag]) simp
  have assets: "kLoanAsset t j = kLoanAsset s j" if "j \<noteq> i" for j
    using assms(2) that
    by (cases "kToken s = Some asset")
      (auto simp: request_loan_in_asset_def ok_simps accessor_defs set_counter_def get_proposal_count_def split: if_splits)
  have "i = get_proposal_count NextProposalId s" using ok_request_loan [OF assms(2)] by (auto simp: asks_def)
  then have "kLoan s i = None"
    using assms(1) by (cases "kLoan s i") (fastforce simp: loans_ok_def proposals_ok_def approved_in_def)+
  moreover have "receipt t k j = receipt s k j" if "j \<noteq> i" for k j
    using same assets [OF that] by (simp add: receipt_def asset_of_def fun_eq_iff cong: option.case_cong)
  ultimately have "map_option (receipt t k j) (kLoan t j) = map_option (receipt s k j) (kLoan s j)" for k j
    using same by (cases "j = i") simp_all
  then have "takings k t = takings k s" for k by (simp add: takings_def)
  with same show ?thesis by (simp add: book_of_def)
qed

lemma founding_booked:
  assumes "members_ok s" and "loans_ok s" and "initialize env admins n fee token policy s = Ok u t"
  shows "books self s t"
proof -
  have init: "kAdmins s = None" "kToken t = Some token" "events t = events s @ [Ev_init admins n fee token]"
    using assms(3) by (auto simp: initialize_def ok_simps is_initialized_def accessor_defs)
  have ag: "agree (- {FLoan, FLoanAsset, FTreasuryAsset, FLedger}) s t"
    by (rule writes_Ok [where m = "initialize env admins n fee token policy", OF _ assms(3)]) (auto intro!: writes_intros)
  have same: "\<forall>f \<in> {FLoan, FLoanAsset, FTreasuryAsset, FLedger}. same f s t" by (rule agree_on [OF ag]) simp
  have "set (get_members s) = dom (kMember s)" and "get_members s = []"
    using assms(1) init(1) unfolding members_ok_def book_ok_def by blast+
  then have "dom (kMember s) = {}" by (metis list.set(1))
  then have "kMember s = Map.empty" by simp
  then have "kLoanProposal s i = None" for i
    using assms(2) by (cases "kLoanProposal s i") (auto simp: loans_ok_def proposals_ok_def known_def)
  then have "kLoan s i = None" for i using assms(2) by (auto simp: loans_ok_def approved_in_def)
  then have "takings k t = takings k s" for k using same by (simp add: takings_def)
  with same init show ?thesis
    by (intro told_one [where e = "Ev_init admins n fee token"]) (simp_all add: jot_book_simps book_of_def)
qed

section \<open>The contract never deals with itself\<close>

lemma roll_grows:
  "set (r_roll (fold jot_registry es g)) \<subseteq> set (r_roll g) \<union> {who. \<exists>fee. Ev_joined who fee \<in> set es}"
proof (induction es arbitrary: g)
  case (Cons e es)
  have "set (r_roll (jot_registry e g)) \<subseteq> set (r_roll g) \<union> {who. \<exists>fee. e = Ev_joined who fee}"
    by (cases e) (auto simp: jot_registry_def)
  with Cons.IH [of "jot_registry e g"] show ?case by auto
qed simp

lemma dispatch_outsider:
  assumes "fair_host self env" and "reachable announced s" and "announced c" and "dispatch env c s = Ok r t"
    and "outsider self s"
  shows "outsider self t"
proof -
  from rolls.call_told [OF assms(2-4)] obtain es where
    es: "events t = events s @ es" "registry_of t = fold jot_registry es (registry_of s)" by (auto simp: told_def)
  have told: "announces c e" if "e \<in> set es" for e
    using emits_Ok [OF emits_dispatch assms(4)] es(1) that by (auto simp: logs_def)
  have "Ev_joined self fee \<notin> set es" for fee
  proof
    assume "Ev_joined self fee \<in> set es"
    then have "c = RegisterMember self" using told by (cases c) (auto dest!: verdict_cases)
    with assms(4) have "env_auth env self" by (auto simp: ok_simps register_member_def)
    with assms(1) show False by (simp add: fair_host_def)
  qed
  moreover have "get_members t = r_roll (fold jot_registry es (registry_of s))" "r_roll (registry_of s) = get_members s"
    using arg_cong [OF es(2), of r_roll] by (simp_all add: registry_of_def)
  moreover have "self \<notin> set (get_members s)"
    using assms(5) by (auto simp: outsider_def members_ok_def book_ok_def)
  ultimately have "self \<notin> set (get_members t)" using roll_grows [of es "registry_of s"] by auto
  moreover have "members_ok t"
    using members.dispatch_keeps [OF any_callI assms(4)] assms(5) by (simp add: outsider_def)
  ultimately show ?thesis by (auto simp: outsider_def members_ok_def book_ok_def)
qed

definition pays_others :: "address \<Rightarrow> dao \<Rightarrow> bool" where
  "pays_others self s \<longleftrightarrow> (\<forall>i p. kTreasuryProposal s i = Some p \<longrightarrow> t_destination p \<noteq> self)"

lemma pays_others_move:
  "pays_others self s \<Longrightarrow> kTreasuryProposal s i = Some p \<Longrightarrow> withdraws p q \<Longrightarrow>
   kTreasuryProposal t = (kTreasuryProposal s)(j \<mapsto> q) \<Longrightarrow> pays_others self t"
  by (auto simp: pays_others_def withdraws_def)

lemma pays_others_table:
  "pays_others self s \<Longrightarrow> tables env amount dest i p s t \<Longrightarrow> env_self env = self \<Longrightarrow> pays_others self t"
  by (auto simp: pays_others_def tables_def)

lemma dispatch_pays_others:
  assumes "env_self env = self" and "withdrawals_ok s" and "pays_others self s" and "dispatch env c s = Ok r t"
  shows "pays_others self t"
proof -
  note run = assms(4) and move = pays_others_move [OF assms(3)]
  have rest: "FTreasuryProposal \<notin> footprint c \<Longrightarrow> pays_others self t"
    using agreeD [OF writes_Ok [OF writes_dispatch run], of FTreasuryProposal] assms(3) by (simp add: pays_others_def)
  have poll: "polls env v p s t \<Longrightarrow> kTreasuryProposal s i = Some p \<Longrightarrow> pays_others self t" for v p i
    unfolding polls_def decides_def using move by blast
  show ?thesis
  proof (cases c)
    case (ProposeTreasuryWithdrawal who amount dest why hidden)
    with run show ?thesis
      by (auto simp: ok_simps propose_withdrawal_def dest!: ok_propose_withdrawal
          intro: pays_others_table [OF assms(3) _ assms(1)])
  next
    case (ProposeWithdrawalInAsset who amount asset dest why hidden)
    with run show ?thesis
      by (auto simp: ok_simps dest!: ok_propose_withdrawal intro: pays_others_table [OF assms(3) _ assms(1)])
  next
    case (VoteOnTreasuryProposal who i b)
    with run show ?thesis by (auto simp: ok_simps dest!: ok_treasury_vote intro: poll)
  next
    case (RevealTreasuryVote who i b salt)
    with run show ?thesis by (auto simp: ok_simps dest!: ok_reveal_vote intro: poll)
  next
    case (CancelTreasuryProposal who i)
    with run obtain p where p: "kTreasuryProposal s i = Some p" "t_status p = Pending"
      "kTreasuryProposal t = (kTreasuryProposal s)(t_id p \<mapsto> p\<lparr>t_status := Cancelled\<rparr>)"
      by (auto simp: ok_simps dest!: ok_stop_withdrawal)
    have "withdraws p (p\<lparr>t_status := Cancelled\<rparr>)" using withdraws_status [of p Cancelled] one_step [OF withdraw] p(2) by simp
    then show ?thesis by (rule move [OF p(1) _ p(3)])
  next
    case (ExpireTreasuryProposal i)
    with run obtain p where p: "kTreasuryProposal s i = Some p" "t_status p = Pending"
      "kTreasuryProposal t = (kTreasuryProposal s)(t_id p \<mapsto> p\<lparr>t_status := StExpired\<rparr>)"
      by (auto simp: ok_simps dest!: ok_stop_withdrawal)
    have "withdraws p (p\<lparr>t_status := StExpired\<rparr>)" using withdraws_status [of p StExpired] one_step [OF lapse] p(2) by simp
    then show ?thesis by (rule move [OF p(1) _ p(3)])
  next
    case (ExecuteTreasuryProposal i)
    with run show ?thesis
      using ok_execute_approved [of env i s "()" t] assms(2) by (auto simp: ok_simps withdrawals_ok_def decides_def intro: move)
  qed (auto intro!: rest)
qed

section \<open>Every call is booked\<close>

text \<open>What a call may rely on: the invariants of the parts, and that the contract never deals with itself.\<close>

definition in_order :: "address \<Rightarrow> dao \<Rightarrow> bool" where
  "in_order self s \<longleftrightarrow>
     reachable recorded s \<and> members_ok s \<and> unstaked s \<and> lends_to_others self s \<and>
     withdrawals_ok s \<and> pays_others self s"

lemma quiet_booked:
  assumes "dispatch env c s = Ok r t" and "book_of self t = book_of self s" and "\<And>e b. announces c e \<Longrightarrow> jot_book e b = b"
  shows "books self s t"
  by (rule told_silent [OF emits_Ok [OF emits_dispatch assms(1)]]) (use assms(2,3) in auto)

lemma dispatch_booked:
  assumes "fair_host self env" and "in_order self s" and "recorded c" and "dispatch env c s = Ok r t"
  shows "books self s t"
proof -
  note run = assms(4)
  have ok: "members_ok s" "unstaked s" "lends_to_others self s" "loans_ok s"
    "\<And>i p. kTreasuryProposal s i = Some p \<Longrightarrow> t_destination p \<noteq> self"
    using assms(2) by (auto simp: in_order_def pays_others_def lends_to_others_def)
  have ag: "agree (footprint c) s t" by (rule writes_Ok [OF writes_dispatch run])
  note quiet = quiet_booked [OF run]
  show ?thesis
  proof (cases "footprint c \<inter> book_keys = {}")
    case True
    then have "book_of self t = book_of self s" by (intro book_reads agree_on [OF ag])
    moreover have "jot_book e b = b" if "announces c e" for e b
      using that True assms(3) by (cases c) (auto simp: jot_book_def recorded_def announced_def unseeded_def dest!: verdict_cases)
    ultimately show ?thesis by (rule quiet)
  next
    case False
    have request: "books self s t" if "request_loan_in_asset env who n asset cid s = Ok i t"
      "\<And>e b. announces c e \<Longrightarrow> jot_book e b = b" for who n asset cid i
      using request_books_nothing [OF ok(4) that(1)] that(2) by (rule quiet)
    have repay: "books self s t" if "repay_loan_internal env who i n s = Ok () t"
      "\<And>e b. announces c e \<Longrightarrow> jot_book e b = b" for who i n
      using repay_books_nothing [OF assms(1) ok(4) that(1)] that(2) by (rule quiet)
    from False run assms(3) show ?thesis
    proof (cases c)
      case (MarkLoanDefaulted i)
      with run show ?thesis
        by (intro quiet) (auto simp: ok_simps jot_book_def dest: default_books_nothing [OF ok(4)])
    next
      case (RequestLoan who n cid)
      with run show ?thesis by (auto simp: ok_simps request_loan_def jot_book_def intro!: request)
    next
      case (RequestLoanInAsset who n asset cid)
      with run show ?thesis by (auto simp: ok_simps jot_book_def intro!: request)
    next
      case (RepayLoan who i)
      with run show ?thesis by (auto simp: ok_simps repay_loan_def jot_book_def intro!: repay)
    next
      case (RepayLoanInAsset who i asset)
      with run show ?thesis by (auto simp: ok_simps repay_loan_in_asset_def jot_book_def intro!: repay)
    next
      case (RepayLoanPartial who i n)
      with run show ?thesis by (auto simp: ok_simps repay_loan_partial_def jot_book_def intro!: repay)
    next
      case (VoteOnTreasuryProposal who i b)
      with run show ?thesis
        by (auto simp: ok_simps treasury_vote_def dest: tally_booked [OF assms(1) ok(5)])
    next
      case (RevealTreasuryVote who i b salt)
      with run reveal_booked [OF assms(1) _ ok(5)] show ?thesis by (auto simp: ok_simps)
    next
      case (ExecuteTreasuryProposal i)
      with run execute_approved_booked [OF assms(1) _ ok(5)] show ?thesis by (auto simp: ok_simps)
    qed (auto simp: ok_simps recorded_def announced_def unseeded_def propose_withdrawal_def vote_on_loan_proposal_def
        dest: founding_booked [OF ok(1,4)] join_booked [OF assms(1)] exit_booked [OF assms(1) ok(2)]
          claim_booked [OF assms(1)] propose_booked ballot_booked [OF assms(1) ok(3)] batch_booked [OF assms(1) ok(3)]
          disburse_booked [OF assms(1) ok(3)])
  qed
qed

lemma recorded_sane:
  assumes "reachable recorded s"
  shows "reachable announced s" and "members_ok s" and "unstaked s" and "loans_ok s" and "withdrawals_ok s"
proof -
  show a: "reachable announced s" using assms by (rule reachable_mono) (simp add: recorded_def)
  show "members_ok s" by (rule members.reachable_holds [OF announced_any [OF a]])
  show "withdrawals_ok s" by (rule withdrawals.reachable_holds [OF announced_any [OF a]])
  show "unstaked s" by (rule unstaked.reachable_holds [OF assms])
  show "loans_ok s"
    by (rule loans.reachable_holds, rule reachable_mono [OF assms]) (simp add: recorded_def)
qed

lemma in_orderI: "reachable recorded s \<Longrightarrow> outsider self s \<Longrightarrow> pays_others self s \<Longrightarrow> in_order self s"
  using recorded_sane [of s] by (simp add: in_order_def lends_to_others_def)

lemma audited_in_order: "audited self l d s \<Longrightarrow> in_order self s"
proof (induction rule: audited.induct)
  case opened
  have "outsider self (fresh_dao l)" "pays_others self (fresh_dao l)"
    using members.fresh [of l] by (simp_all add: outsider_def pays_others_def fresh_dao_def)
  then show ?case by (intro in_orderI reachable.fresh)
next
  case (run d s env c)
  then have reach: "reachable recorded (snd (invoke env c s))" by (auto simp: in_order_def intro: reachable.call)
  have old: "outsider self s" "pays_others self s" "reachable recorded s"
    using run.IH by (auto simp: in_order_def lends_to_others_def)
  show ?case
  proof (cases rule: invoke_cases [of env c s])
    case (returned r t)
    have "env_self env = self" "announced c" using run by (simp_all add: fair_host_def recorded_def)
    then have "outsider self t" "pays_others self t"
      using dispatch_outsider [OF run(2) recorded_sane(1) [OF old(3)] _ returned(1) old(1)]
        dispatch_pays_others [OF _ recorded_sane(5) [OF old(3)] old(2) returned(1)] by auto
    with reach returned(2) show ?thesis by (auto intro: in_orderI)
  qed (use run.IH in auto)
next
  case (others d s l')
  then have "reachable recorded (s\<lparr>ledger := l'\<rparr>)" by (auto simp: in_order_def intro: reachable.outside)
  moreover have "outsider self s" "pays_others self s"
    using others.IH by (auto simp: in_order_def lends_to_others_def)
  ultimately show ?case
    by (intro in_orderI) (simp_all add: outsider_def pays_others_def members_ok_def accessor_defs)
qed

text \<open>The movements of others shift the cash of the book; the reader's steps do not look at it.\<close>

definition shifted :: "(address \<Rightarrow> i128) \<Rightarrow> book \<Rightarrow> book" where
  "shifted d b = b\<lparr>b_cash := (\<lambda>token. b_cash b token + d token)\<rparr>"

lemma jot_shifted: "jot_book e (shifted d b) = shifted d (jot_book e b)"
  by (cases e) (simp_all add: jot_book_def shifted_def booked_def base_in_def asset_in_def fun_eq_iff split: option.splits)

lemma fold_shifted: "fold jot_book es (shifted d b) = shifted d (fold jot_book es b)"
  by (induction es arbitrary: b) (simp_all add: jot_shifted)

lemma audited_booked: "audited self l d s \<Longrightarrow> book_of self s = shifted d (fold jot_book (events s) (opening_book self l))"
proof (induction rule: audited.induct)
  case opened
  have "takings k (fresh_dao l) = 0" for k by (simp add: takings_def total_of_def fresh_dao_def)
  then show ?case by (simp add: book_of_def opening_book_def shifted_def fresh_dao_def accessor_defs)
next
  case (run d s env c)
  show ?case
  proof (cases rule: invoke_cases [of env c s])
    case (returned r t)
    from dispatch_booked [OF run(2) audited_in_order [OF run(1)] run(3) returned(1)] run.IH returned(2)
    show ?thesis by (auto simp: told_def fold_shifted)
  qed (use run.IH in auto)
next
  case (others d s l')
  have "takings k (s\<lparr>ledger := l'\<rparr>) = takings k s" for k by (rule takings_reads) simp
  then have "book_of self (s\<lparr>ledger := l'\<rparr>) = shifted (\<lambda>token. l' token self - ledger s token self) (book_of self s)"
    by (simp add: book_of_def shifted_def fun_eq_iff)
  with others.IH show ?case by (simp add: shifted_def algebra_simps)
qed

section \<open>The scenario under a host that never signs for the contract\<close>

definition strict_host :: "u64 \<Rightarrow> env" where
  "strict_host now = (host now)\<lparr>env_auth := (\<lambda>a. a \<noteq> dao_addr)\<rparr>"

lemma strict_fair: "fair_host dao_addr (strict_host now)"
  using mock.token_contract_axioms [of False] by (simp add: fair_host_def strict_host_def host_def)

lemmas strict_eval = strict_host_def peopled_eq founded_eq eval_simps address_names joiner_def purse_def
  mock_transfer_def Let_def

lemma strict_start:
  "dispatch (strict_host 1) (Initialize [boss] 5100 1000 usdc test_policy) (fresh_dao purse) = Ok NoValue founded"
  "run_calls [(strict_host 2, RegisterMember alice), (strict_host 2, RegisterMember bob),
     (strict_host 2, RegisterMember carol)] founded = peopled"
  by (simp_all add: strict_eval invalid_policy_def test_policy_def register_member_def loan_counters_def)

lemma strict_loan:
  "dispatch (strict_host 10) (RequestLoan alice 600 None) peopled = Ok (Id 0) asked"
  "dispatch (strict_host 259300) (VoteOnLoanProposal bob 0 True) asked = Ok NoValue backed"
  "dispatch (strict_host 259300) (VoteOnLoanProposal carol 0 True) backed = Ok NoValue lent"
proof -
  note loans = strict_eval test_policy_def loan_eval asked_proposal_def
  show "dispatch (strict_host 10) (RequestLoan alice 600 None) peopled = Ok (Id 0) asked"
    by (simp add: asked_eq loans)
  show "dispatch (strict_host 259300) (VoteOnLoanProposal bob 0 True) asked = Ok NoValue backed"
    by (simp add: backed_eq asked_eq loans vote_eval backed_proposal_def)
  show "dispatch (strict_host 259300) (VoteOnLoanProposal carol 0 True) backed = Ok NoValue lent"
    by (simp add: lent_eq backed_eq asked_eq loans vote_eval backed_proposal_def lent_loan_def)
qed

lemma strict_service:
  "dispatch (strict_host 260000) (RepayLoanPartial alice 0 48) lent = Ok NoValue serviced"
  "dispatch (strict_host 260001) (ClaimRewards bob) serviced = Ok (Amount 16) collected"
proof -
  show "dispatch (strict_host 260000) (RepayLoanPartial alice 0 48) lent = Ok NoValue serviced"
    by (simp add: serviced_eq lent_eq backed_eq asked_eq strict_eval lent_loan_def repay_eval)
  show "dispatch (strict_host 260001) (ClaimRewards bob) serviced = Ok (Amount 16) collected"
    by (simp add: collected_eq serviced_eq lent_eq backed_eq asked_eq strict_eval claim_rewards_def
        compute_pending_yield_def)
qed

lemma audited_call:
  "audited self l d s \<Longrightarrow> fair_host self env \<Longrightarrow> recorded c \<Longrightarrow> dispatch env c s = Ok r t \<Longrightarrow> audited self l d t"
  using audited.run [of self l d s env c] by (simp add: invoked)

lemma audited_collected: "audited dao_addr purse (\<lambda>token. 0) collected"
proof -
  note step = audited_call [OF _ strict_fair]
  have founded: "audited dao_addr purse (\<lambda>token. 0) founded"
    by (rule step [OF audited.opened _ strict_start(1)]) (simp add: recorded_def announced_def unseeded_def)
  have "audited dao_addr purse (\<lambda>token. 0) (run_calls [(strict_host 2, RegisterMember alice), (strict_host 2, RegisterMember bob),
     (strict_host 2, RegisterMember carol)] founded)"
    by (simp, intro audited.run founded strict_fair) (simp_all add: recorded_def announced_def unseeded_def)
  then have "audited dao_addr purse (\<lambda>token. 0) peopled" by (simp only: strict_start(2))
  then have "audited dao_addr purse (\<lambda>token. 0) asked"
    by (rule step [OF _ _ strict_loan(1)]) (simp add: recorded_def announced_def unseeded_def)
  then have "audited dao_addr purse (\<lambda>token. 0) backed"
    by (rule step [OF _ _ strict_loan(2)]) (simp add: recorded_def announced_def unseeded_def)
  then have "audited dao_addr purse (\<lambda>token. 0) lent"
    by (rule step [OF _ _ strict_loan(3)]) (simp add: recorded_def announced_def unseeded_def)
  then have "audited dao_addr purse (\<lambda>token. 0) serviced"
    by (rule step [OF _ _ strict_service(1)]) (simp add: recorded_def announced_def unseeded_def)
  then show ?thesis
    by (rule step [OF _ _ strict_service(2)]) (simp add: recorded_def announced_def unseeded_def)
qed

section \<open>Properties\<close>

text \<open>
  C4: The books balance. Take a contract on which nobody stakes and no members, stakes, names or
  loans were seeded, which signs no call itself, and tokens that obey the laws of a transfer; others
  may move any tokens in between, into the contract's accounts as well. Its balance in every token
  is then at all times what a reader of the event log computes (the opening balance and the
  membership fees, less the claims, the shares and yields of those who left, the disbursed loans and
  the executed withdrawals in their assets), plus what the stored loans in that token have
  collected, plus what others moved on that account from outside. No call moves a token of the
  treasury that the books do not show, and nothing is lost in between.
\<close>

theorem the_books_balance:
  assumes "audited self l d s"
  shows "ledger s token self =
    b_cash (fold jot_book (events s) (opening_book self l)) token + takings token s + d token"
  using fun_cong [OF arg_cong [OF audited_booked [OF assms], of b_cash], of token]
  by (simp add: book_of_def shifted_def)

text \<open>Here somebody also sent the contract 500 tokens in the end.\<close>

theorem the_books_balance_witness:
  "\<exists>s. audited dao_addr purse (\<lambda>token. if token = usdc then 500 else 0) s \<and>
     ledger s usdc dao_addr = 2932 \<and> takings usdc s = 48 \<and>
     b_cash (fold jot_book (events s) (opening_book dao_addr purse)) usdc = 2384"
proof -
  define l where "l = (ledger collected)(usdc := (ledger collected usdc)(dao_addr := 2932))"
  define s where "s = collected\<lparr>ledger := l\<rparr>"
  have cash: "ledger collected usdc dao_addr = 2432"
    by (simp add: collected_eq address_names)
  then have "(\<lambda>token. 0 + (l token dao_addr - ledger collected token dao_addr)) =
      (\<lambda>token. if token = usdc then 500 else 0)"
    by (auto simp: l_def)
  with audited.others [OF audited_collected, of l]
  have run: "audited dao_addr purse (\<lambda>token. if token = usdc then 500 else 0) s" by (simp add: s_def)
  have loans: "kLoan s = [0 \<mapsto> lent_loan\<lparr>l_amount_repaid := 48\<rparr>]" "kLoanAsset s 0 = None" "kToken s = Some usdc"
    by (simp_all add: s_def collected_eq serviced_eq lent_eq backed_eq asked_eq peopled_eq founded_eq fresh_dao_def)
  then have "(\<lambda>i. map_option (receipt s usdc i) (kLoan s i)) = [0 \<mapsto> 48]"
    by (auto simp: fun_eq_iff receipt_def asset_of_def lent_loan_def)
  then have "takings usdc s = 48" by (simp add: takings_def total_of_def)
  moreover have "ledger s usdc dao_addr = 2932" by (simp add: s_def l_def)
  ultimately show ?thesis using the_books_balance [OF run, of usdc] run by (intro exI [of _ s]) simp
qed

end
