(* ===== verification/Spec2Isabelle.thy ===== *)
theory Spec2Isabelle
  imports Governance Records Paging Liveness CashBook
begin

text \<open>
  A verification of the OurDAO lending contract, a Soroban contract written in Rust under
  \<^verbatim>\<open>src/contracts/dao/src\<close>: a cooperative whose members pay a fee into a common treasury, vote on
  loans to each other and on withdrawals, stake for voting power, and share the loan interest.

  The program and its model. The contract is one storage, read and written by stateless modules
  behind the interface of \<^verbatim>\<open>lib.rs\<close>; it calls token contracts and the host (time,
  authorization, SHA-256, XDR encoding).

    \<^item> \<open>Prelude\<close>: programs over a state that end with a value, an error or a trap
      (\<open>('e, 'a, 's) prog\<close>; Rust's \<open>Ok\<close>, \<open>Err\<close> and panic), their evaluation rules, the judgement
      \<open>keeps\<close>, and the machine integers. An \<open>i128\<close> is an \<open>int\<close>, a \<open>u32\<close> or \<open>u64\<close> a \<open>nat\<close>; each
      operator tests its range where the code does, plain, checked, saturating or cast.
    \<^item> \<open>Types\<close> (\<^verbatim>\<open>types.rs\<close>, \<^verbatim>\<open>error.rs\<close>) and \<open>Storage\<close> (\<^verbatim>\<open>storage.rs\<close>): structs as records,
      enums as datatypes, one field of the record \<open>dao\<close> per storage key, one definition per
      accessor. The tokens' balances are the field \<open>ledger\<close>, published events the field \<open>events\<close>.
      The host is the record \<open>env\<close>; token transfer, hash and encoding are its function fields.
    \<^item> \<open>Util\<close> (\<^verbatim>\<open>util.rs\<close>), \<open>Admin\<close> (\<^verbatim>\<open>admin.rs\<close>), \<open>Loans\<close> (\<^verbatim>\<open>loans.rs\<close>), \<open>Membership\<close>
      (\<^verbatim>\<open>membership.rs\<close>), \<open>Staking\<close> (\<^verbatim>\<open>staking.rs\<close>), \<open>Treasury\<close> (\<^verbatim>\<open>treasury.rs\<close>), \<open>Privacy\<close>
      (\<^verbatim>\<open>privacy.rs\<close>), \<open>Registry\<close> (\<^verbatim>\<open>registry.rs\<close>), \<open>Docs\<close> (\<^verbatim>\<open>docs.rs\<close>), \<open>Migration\<close>
      (\<^verbatim>\<open>migration.rs\<close>): one definition per Rust function, with its guards in the source's order.
    \<^item> \<open>Interface\<close>, \<open>Contract\<close> and \<open>Views\<close> (\<^verbatim>\<open>lib.rs\<close>): the state-changing entrypoints, a datatype of
      calls with their dispatch, the commit rule of the host (a failed call leaves no trace), the states
      reachable by calls under any host and any outside token movements, and every view.
    \<^item> \<open>Token\<close>: the two laws the money properties use of a token contract (it moves exactly the
      amount, and touches only the two accounts it names), as a locale, with the mock token of
      \<^verbatim>\<open>tests/common.rs\<close> as its interpretation.

  How the properties are proved. \<open>Frame\<close> computes the storage keys each entrypoint may write
  (\<open>writes_dispatch\<close>). The locales \<open>stable\<close> and \<open>invariant\<close> of \<open>Contract\<close> turn a predicate that
  the few touching calls keep into a law of every run; each invariant is an interpretation of them.
  Lemmas named \<open>ok_...\<close> say in closed form what a successful run of an operation did.

    \<^item> \<open>Scenario\<close>, \<open>Episodes\<close>: a concrete host and a small DAO, computed by simplification; the
      witnesses run there.
    \<^item> \<open>Blocks\<close>, \<open>Members\<close>, \<open>Funds\<close>, \<open>Typing\<close>: the member book, the stake ledger, the
      active-contributions counter, the yield accounts, the exit shares, the range of every
      stored integer.
    \<^item> \<open>Governance\<close>: authorization, pause, both timelocks, the settings, the admin list and the token
      whitelist.
    \<^item> \<open>Payouts\<close>, \<open>Pricing\<close>: leaving, claiming, the distribution of interest; quotes.
    \<^item> \<open>Lending\<close>, \<open>LoanBook\<close>: the abstract machine of a loan proposal, refined by every call; the
      loan book tied to it; repayment, disbursement, expiry.
    \<^item> \<open>Withdrawals\<close>: the same for treasury withdrawals, and their exact payment.
    \<^item> \<open>Ballots\<close>, \<open>Weights\<close>: ballot boxes (a locale interpreted by both kinds of ballot), batches,
      commitments, voting weight, delegation, quorum, the square root, the staking locks.
    \<^item> \<open>Tallies\<close>: poll boxes (a locale interpreted by both kinds of proposal): the recorded votes are
      the marked voters, approvals have their quorum, rejections are beyond rescue unless a voter
      has left (\<open>an_exit_takes_a_vote\<close>). A delegation after a ballot makes that vote count twice
      (\<open>delegation_counts_twice\<close>).
    \<^item> \<open>Spending\<close>: the judgement \<open>spends\<close>, whose balances a program may lower, computed for every
      entrypoint; \<open>Liveness\<close>: an exit and a full repayment go through in one call.
    \<^item> \<open>Log\<close>: the judgement \<open>emits\<close>, which events a program may publish, computed for every
      entrypoint; \<open>Replay\<close>: chronicles (a locale with three interpretations), readers of the event
      log that arrive at the stored governance, ballots and member registry; \<open>CashBook\<close>: the
      balance of the contract in every token, accounted for by the events and the stored loans.
    \<^item> \<open>Records\<close>, \<open>Paging\<close>: names, the seeding lock, the order of the guards, the paginated
      member list.

  Hypotheses. Several properties exclude calls that write unchecked data: seeding of loans
  (\<open>unseeded\<close>), of names (\<open>own_names\<close>), of negative or out-of-range amounts (\<open>sane_stakes\<close>,
  \<open>typed_call\<close>). The bound on the exit shares holds in \<open>prudent\<close> runs, where no default hits a
  borrower who has left, as such a default breaks the counter of the active contributions
  (\<open>default_and_contributions\<close>). Seeding publishes no events, so the replay of the member registry
  excludes it (\<open>announced\<close>), and so do the books (\<open>recorded\<close>), which also exclude staking: the
  code moves no tokens for a stake, against the documents and the tests. The host of the books is
  fair (\<open>fair_host\<close>: a contract does not sign its own calls); what others move on the contract's
  accounts is added up beside them (\<open>audited\<close>). \<open>token_contract\<close> is the documented behaviour of a
  token transfer. Nothing is assumed of the hash: that a commitment binds is stated as an explicit
  collision (\<open>revealed_vote_was_committed\<close>).

  Bounds and termination. Both loops of \<open>isqrt\<close> are total functions with a measure; all other
  loops run over finite lists. No fuel is used. The counters stay in 32 bits because every
  increment is checked, so the sums over the members stay far inside 128 bits.

  Not modelled. \<open>try_execute_policy_update\<close> of \<^verbatim>\<open>admin.rs\<close>: its text cannot be compiled (the
  function before it is not closed, a string literal is escaped, \<open>set_policy\<close> has another arity).
  Time-to-live extensions, which change no value; the budget benchmark \<^verbatim>\<open>bench.rs\<close>; the tests
  beyond the mock token; scripts and workflows.
\<close>

end
